(* ===== verification/Prelude.thy ===== *)
theory Prelude
  imports Main "HOL-Library.State_Monad" "HOL-Library.Char_ord" "HOL-Library.List_Lexorder"
    "HOL-Library.Product_Lexorder" "HOL-Library.Multiset"
begin

text \<open>
  Shared ground of the development: the fact collections the component proofs draw on, the part
  of Go's \<open>strings\<close> and \<open>strconv\<close> packages that the sources use, lists used as
  database tables, and a small calculus for computations in the state monad.

  A Go string is a \<^typ>\<open>string\<close>, one \<^typ>\<open>char\<close> per byte. The white space and case
  functions act on the ASCII range, where Go's Unicode functions agree with them; bytes from 128
  on are left alone.
\<close>

named_theorems go_defs \<open>definitions of the Go library functions the models call\<close>
named_theorems keeps_intros \<open>rules that push a relation through a computation\<close>
named_theorems table_simps \<open>rewriting for lists used as tables\<close>

section \<open>Go strings\<close>

definition is_space :: "char \<Rightarrow> bool" where
  "is_space c \<longleftrightarrow> (let n = (of_char c :: int) in n = 32 \<or> (9 \<le> n \<and> n \<le> 13))"

definition trim_space :: "string \<Rightarrow> string" where
  "trim_space s = rev (dropWhile is_space (rev (dropWhile is_space s)))"

definition lower_char :: "char \<Rightarrow> char" where
  "lower_char c =
     (let n = (of_char c :: int) in if 65 \<le> n \<and> n \<le> 90 then char_of (n + 32) else c)"

definition upper_char :: "char \<Rightarrow> char" where
  "upper_char c =
     (let n = (of_char c :: int) in if 97 \<le> n \<and> n \<le> 122 then char_of (n - 32) else c)"

definition to_lower :: "string \<Rightarrow> string" where
  "to_lower s = map lower_char s"

definition to_upper :: "string \<Rightarrow> string" where
  "to_upper s = map upper_char s"

definition equal_fold :: "string \<Rightarrow> string \<Rightarrow> bool" where
  "equal_fold s t \<longleftrightarrow> to_lower s = to_lower t"

definition has_prefix :: "string \<Rightarrow> string \<Rightarrow> bool" where
  "has_prefix s p \<longleftrightarrow> take (length p) s = p"

definition has_suffix :: "string \<Rightarrow> string \<Rightarrow> bool" where
  "has_suffix s p \<longleftrightarrow> has_prefix (rev s) (rev p)"

fun contains :: "string \<Rightarrow> string \<Rightarrow> bool" where
  "contains [] sub = (sub = [])"
| "contains (c # cs) sub = (has_prefix (c # cs) sub \<or> contains cs sub)"

definition is_digit :: "char \<Rightarrow> bool" where
  "is_digit c \<longleftrightarrow> (let n = (of_char c :: int) in 48 \<le> n \<and> n \<le> 57)"

fun split_on :: "char \<Rightarrow> string \<Rightarrow> string list" where
  "split_on sep [] = [[]]"
| "split_on sep (c # cs) =
     (if c = sep then [] # split_on sep cs
      else (case split_on sep cs of [] \<Rightarrow> [[c]] | w # ws \<Rightarrow> (c # w) # ws))"

text \<open>Decimal text, as \<open>%d\<close> prints it.\<close>

definition digit_char :: "int \<Rightarrow> char" where
  "digit_char n = char_of (48 + n)"

function dec_text :: "int \<Rightarrow> string" where
  "dec_text n = (if n < 10 then [digit_char n] else dec_text (n div 10) @ [digit_char (n mod 10)])"
  by pat_completeness auto
termination
  by (relation "measure nat") auto

declare dec_text.simps [simp del]

definition int_text :: "int \<Rightarrow> string" where
  "int_text i = (if i < 0 then ''-'' @ dec_text (- i) else dec_text i)"

lemma trim_space_Nil [simp]: "trim_space [] = []"
  by (simp add: trim_space_def)

lemma has_prefix_single: "has_prefix s [c] \<longleftrightarrow> s \<noteq> [] \<and> hd s = c"
  by (cases s) (auto simp: has_prefix_def)

lemma has_suffix_single: "has_suffix s [c] \<longleftrightarrow> s \<noteq> [] \<and> last s = c"
  by (auto simp: has_suffix_def has_prefix_single hd_rev)

lemma contains_single: "contains s [c] \<longleftrightarrow> c \<in> set s"
  by (induction s) (auto simp: has_prefix_single)

lemma split_on_nonempty: "split_on c s \<noteq> []"
  by (cases s) (auto split: list.splits)

lemma trim_space_id:
  assumes "s \<noteq> [] \<Longrightarrow> \<not> is_space (hd s)" and "s \<noteq> [] \<Longrightarrow> \<not> is_space (last s)"
  shows "trim_space s = s"
proof (cases "s = []")
  case False
  then have "dropWhile is_space s = s"
    using assms(1) by (cases s) auto
  moreover have "dropWhile is_space (rev s) = rev s"
    using False assms(2) by (cases "rev s") (auto simp: last_rev [symmetric] hd_rev)
  ultimately show ?thesis by (simp add: trim_space_def)
qed simp

lemma dropWhile_hd: "dropWhile P s \<noteq> [] \<Longrightarrow> \<not> P (hd (dropWhile P s))"
  by (induction s) auto

lemma trim_space_hd: "trim_space s \<noteq> [] \<Longrightarrow> \<not> is_space (hd (trim_space s))"
proof -
  let ?a = "dropWhile is_space s" and ?b = "dropWhile is_space (rev (dropWhile is_space s))"
  assume ne: "trim_space s \<noteq> []"
  have "\<exists>xs. rev ?a = xs @ ?b"
    by (metis takeWhile_dropWhile_id)
  then obtain xs where "?a = rev ?b @ rev xs"
    by (metis rev_append rev_rev_ident)
  then have "hd ?a = hd (trim_space s)" and "?a \<noteq> []"
    using ne unfolding trim_space_def by (metis hd_append2, metis append_is_Nil_conv)
  then show "\<not> is_space (hd (trim_space s))"
    using dropWhile_hd [of is_space s] by simp
qed

lemma trim_space_last: "trim_space s \<noteq> [] \<Longrightarrow> \<not> is_space (last (trim_space s))"
  using dropWhile_hd [of is_space "rev (dropWhile is_space s)"] by (simp add: trim_space_def last_rev)

lemma trim_space_idem [simp]: "trim_space (trim_space s) = trim_space s"
  by (rule trim_space_id) (auto dest: trim_space_hd trim_space_last)

lemma lower_char_idem [simp]: "lower_char (lower_char c) = lower_char c"
proof (cases "65 \<le> (of_char c :: int) \<and> of_char c \<le> (90 :: int)")
  case True
  then have "(of_char (char_of (of_char c + 32 :: int) :: char) :: int) = of_char c + 32"
    by simp
  with True show ?thesis by (simp add: lower_char_def Let_def)
qed (auto simp: lower_char_def Let_def)

lemma to_lower_idem [simp]: "to_lower (to_lower s) = to_lower s"
  by (simp add: to_lower_def)

lemma length_to_lower [simp]: "length (to_lower s) = length s"
  by (simp add: to_lower_def)

lemma equal_fold_refl [simp]: "equal_fold s s"
  by (simp add: equal_fold_def)

lemma equal_fold_sym: "equal_fold s t \<Longrightarrow> equal_fold t s"
  by (simp add: equal_fold_def)

section \<open>Lists as tables\<close>

text \<open>An SQL UPDATE rewrites the rows that match; the others and the row order stay.\<close>

definition update_where :: "('r \<Rightarrow> bool) \<Rightarrow> ('r \<Rightarrow> 'r) \<Rightarrow> 'r list \<Rightarrow> 'r list" where
  "update_where c f rs = map (\<lambda>r. if c r then f r else r) rs"

definition count_where :: "('r \<Rightarrow> bool) \<Rightarrow> 'r list \<Rightarrow> nat" where
  "count_where c rs = length (filter c rs)"

lemma update_where_Nil [simp]: "update_where c f [] = []"
  by (simp add: update_where_def)

lemma update_where_Cons [simp]:
  "update_where c f (r # rs) = (if c r then f r else r) # update_where c f rs"
  by (simp add: update_where_def)

lemma set_update_where [table_simps]:
  "set (update_where c f rs) = (\<lambda>r. if c r then f r else r) ` set rs"
  by (simp add: update_where_def)

lemma length_update_where [simp]: "length (update_where c f rs) = length rs"
  by (simp add: update_where_def)

lemma update_where_none: "(\<And>r. r \<in> set rs \<Longrightarrow> \<not> c r) \<Longrightarrow> update_where c f rs = rs"
  by (induction rs) auto

lemma map_update_where:
  "(\<And>r. r \<in> set rs \<Longrightarrow> c r \<Longrightarrow> k (f r) = k r) \<Longrightarrow> map k (update_where c f rs) = map k rs"
  by (induction rs) auto

text \<open>
  A partial unique index is \<^term>\<open>distinct (map k (filter l rs))\<close>. An update that keeps the
  indexed columns and adds no row to the index keeps it.
\<close>

lemma keys_update_where:
  assumes "\<And>r. r \<in> set rs \<Longrightarrow> c r \<Longrightarrow> k (f r) = k r"
    and "\<And>r. r \<in> set rs \<Longrightarrow> c r \<Longrightarrow> l (f r) \<Longrightarrow> l r"
  shows "k ` {r \<in> set (update_where c f rs). l r} \<subseteq> k ` {r \<in> set rs. l r}"
proof
  fix x
  assume "x \<in> k ` {r \<in> set (update_where c f rs). l r}"
  then obtain r where "r \<in> set rs" "l (if c r then f r else r)" "x = k (if c r then f r else r)"
    by (auto simp: set_update_where)
  then have "l r \<and> x = k r"
    using assms by (cases "c r") auto
  with \<open>r \<in> set rs\<close> show "x \<in> k ` {r \<in> set rs. l r}" by blast
qed

lemma index_update_where:
  assumes "distinct (map k (filter l rs))"
    and "\<And>r. r \<in> set rs \<Longrightarrow> c r \<Longrightarrow> k (f r) = k r"
    and "\<And>r. r \<in> set rs \<Longrightarrow> c r \<Longrightarrow> l (f r) \<Longrightarrow> l r"
  shows "distinct (map k (filter l (update_where c f rs)))"
  using assms
proof (induction rs)
  case (Cons r rs)
  let ?r = "if c r then f r else r"
  have IH: "distinct (map k (filter l (update_where c f rs)))"
    using Cons.IH Cons.prems by (auto split: if_splits)
  have sub: "k ` {x \<in> set (update_where c f rs). l x} \<subseteq> k ` {x \<in> set rs. l x}"
    by (rule keys_update_where) (use Cons.prems in auto)
  have r: "k ?r = k r" "l ?r \<Longrightarrow> l r"
    using Cons.prems(2,3) [of r] by (cases "c r"; simp)+
  show ?case
  proof (cases "l ?r")
    case True
    then have "k r \<notin> k ` {x \<in> set rs. l x}"
      using Cons.prems(1) r(2) by auto
    with sub have "k ?r \<notin> k ` {x \<in> set (update_where c f rs). l x}"
      unfolding r(1) by blast
    with True IH show ?thesis by auto
  qed (use IH in simp)
qed simp

lemma index_unique:
  "distinct (map k (filter l rs)) \<Longrightarrow> r \<in> set rs \<Longrightarrow> s \<in> set rs \<Longrightarrow> l r \<Longrightarrow> l s \<Longrightarrow> k r = k s \<Longrightarrow> r = s"
  by (simp add: distinct_map inj_on_def)

lemma find_Some_iff_set:
  "find P xs = Some x \<Longrightarrow> x \<in> set xs \<and> P x"
  by (induction xs) (auto split: if_splits)

lemma find_None_set: "find P xs = None \<longleftrightarrow> (\<forall>x \<in> set xs. \<not> P x)"
  by (induction xs) auto

lemma find_unique:
  assumes "x \<in> set xs" "P x" "\<And>y. y \<in> set xs \<Longrightarrow> P y \<Longrightarrow> y = x"
  shows "find P xs = Some x"
proof (cases "find P xs")
  case None
  with assms(1,2) show ?thesis by (simp add: find_None_set)
next
  case (Some y)
  then show ?thesis using find_Some_iff_set [OF Some] assms(3) by simp
qed

lemma find_update_where:
  "(\<And>x. x \<in> set xs \<Longrightarrow> c x \<Longrightarrow> P (f x) \<longleftrightarrow> P x) \<Longrightarrow>
   find P (update_where c f xs) = map_option (\<lambda>x. if c x then f x else x) (find P xs)"
  by (induction xs) auto

lemma update_where_id: "(\<And>r. r \<in> set rs \<Longrightarrow> c r \<Longrightarrow> f r = r) \<Longrightarrow> update_where c f rs = rs"
  by (induction rs) auto

section \<open>Computations in the state monad\<close>

text \<open>
  Handlers are values of \<^typ>\<open>('s, 'a) state\<close> from the library. \<open>keeps R m\<close> says that
  every run of \<open>m\<close> relates its start state to its end state by \<open>R\<close>: with a preorder
  \<open>R\<close> it composes along the handler, one rule per construct.
\<close>

abbreviation ret :: "'a \<Rightarrow> ('s, 'a) state" where
  "ret \<equiv> State_Monad.return"

definition keeps :: "('s \<Rightarrow> 's \<Rightarrow> bool) \<Rightarrow> ('s, 'a) state \<Rightarrow> bool" where
  "keeps R m \<longleftrightarrow> (\<forall>s. R s (snd (run_state m s)))"

definition preorder :: "('s \<Rightarrow> 's \<Rightarrow> bool) \<Rightarrow> bool" where
  "preorder R \<longleftrightarrow> (\<forall>s. R s s) \<and> (\<forall>s t u. R s t \<longrightarrow> R t u \<longrightarrow> R s u)"

definition inv_rel :: "('s \<Rightarrow> bool) \<Rightarrow> 's \<Rightarrow> 's \<Rightarrow> bool" where
  "inv_rel P s t \<longleftrightarrow> (P s \<longrightarrow> P t)"

lemma preorderI: "(\<And>s. R s s) \<Longrightarrow> (\<And>s t u. R s t \<Longrightarrow> R t u \<Longrightarrow> R s u) \<Longrightarrow> preorder R"
  by (auto simp: preorder_def)

lemma preorder_inv_rel [simp, intro]: "preorder (inv_rel P)"
  by (auto simp: preorder_def inv_rel_def)

lemma keepsD: "keeps R m \<Longrightarrow> run_state m s = (a, t) \<Longrightarrow> R s t"
  by (metis keeps_def snd_conv)

lemma keepsI: "(\<And>s a t. run_state m s = (a, t) \<Longrightarrow> R s t) \<Longrightarrow> keeps R m"
  unfolding keeps_def by (metis prod.collapse)

lemma keeps_ret [keeps_intros]: "preorder R \<Longrightarrow> keeps R (ret x)"
  by (simp add: keeps_def preorder_def)

lemma keeps_bind [keeps_intros]:
  "preorder R \<Longrightarrow> keeps R m \<Longrightarrow> (\<And>x. keeps R (f x)) \<Longrightarrow> keeps R (State_Monad.bind m f)"
  unfolding keeps_def preorder_def by (auto split: prod.splits) (metis snd_conv)

lemma keeps_if [keeps_intros]:
  "(b \<Longrightarrow> keeps R m) \<Longrightarrow> (\<not> b \<Longrightarrow> keeps R n) \<Longrightarrow> keeps R (if b then m else n)"
  by simp

lemma keeps_case_sum [keeps_intros]:
  "(\<And>e. r = Inl e \<Longrightarrow> keeps R (f e)) \<Longrightarrow> (\<And>x. r = Inr x \<Longrightarrow> keeps R (g x)) \<Longrightarrow>
   keeps R (case r of Inl e \<Rightarrow> f e | Inr x \<Rightarrow> g x)"
  by (cases r) auto

lemma keeps_case_option [keeps_intros]:
  "(r = None \<Longrightarrow> keeps R m) \<Longrightarrow> (\<And>x. r = Some x \<Longrightarrow> keeps R (g x)) \<Longrightarrow>
   keeps R (case r of None \<Rightarrow> m | Some x \<Rightarrow> g x)"
  by (cases r) auto

lemma keeps_Let [keeps_intros]: "keeps R (f x) \<Longrightarrow> keeps R (let y = x in f y)"
  by simp

lemma keeps_inv: "keeps (inv_rel P) m \<Longrightarrow> P s \<Longrightarrow> P (snd (run_state m s))"
  by (simp add: keeps_def inv_rel_def)

text \<open>\<open>yields P m\<close>: every result of \<open>m\<close> satisfies \<open>P\<close>.\<close>

definition yields :: "('a \<Rightarrow> bool) \<Rightarrow> ('s, 'a) state \<Rightarrow> bool" where
  "yields P m \<longleftrightarrow> (\<forall>s. P (fst (run_state m s)))"

lemma yieldsD: "yields P m \<Longrightarrow> run_state m s = (a, t) \<Longrightarrow> P a"
  by (metis yields_def fst_conv)

lemma yields_ret [simp]: "yields P (ret x) \<longleftrightarrow> P x"
  by (simp add: yields_def)

lemma yields_bind:
  "yields Q m \<Longrightarrow> (\<And>x. Q x \<Longrightarrow> yields P (f x)) \<Longrightarrow> yields P (State_Monad.bind m f)"
  unfolding yields_def by (auto split: prod.splits) (metis fst_conv)

lemma yields_bind_any: "(\<And>x. yields P (f x)) \<Longrightarrow> yields P (State_Monad.bind m f)"
  by (rule yields_bind [of "\<lambda>_. True"]) (simp_all add: yields_def)

text \<open>A Go \<open>for range\<close> loop whose body returns nothing.\<close>

fun for_each :: "'x list \<Rightarrow> ('x \<Rightarrow> ('s, unit) state) \<Rightarrow> ('s, unit) state" where
  "for_each [] f = ret ()"
| "for_each (x # xs) f = State_Monad.bind (f x) (\<lambda>_. for_each xs f)"

lemma keeps_for_each [keeps_intros]:
  "preorder R \<Longrightarrow> (\<And>x. x \<in> set xs \<Longrightarrow> keeps R (f x)) \<Longrightarrow> keeps R (for_each xs f)"
  by (induction xs) (auto intro: keeps_intros)

lemma run_for_each_Cons:
  "snd (run_state (for_each (x # xs) f) s) = snd (run_state (for_each xs f) (snd (run_state (f x) s)))"
  by (simp split: prod.splits)

end
