(* ===== verification/Base64.thy ===== *)
theory Base64
  imports Prelude
begin

text \<open>
  The part of Go's \<open>encoding/base64\<close> the sources use: the standard alphabet with padding, decoding
  as \<open>StdEncoding\<close> does it (line breaks are skipped, the unused bits of the last character are not
  checked), and \<open>wgkey.Validate\<close> of \<open>server/internal/wgkey\<close>. A byte is an integer below 256.
\<close>

section \<open>The alphabet\<close>

definition b64_char :: "int \<Rightarrow> char" where
  "b64_char n = char_of
     (if n < 26 then n + 65 else if n < 52 then n - 26 + 97 else if n < 62 then n - 52 + 48
      else if n = 62 then 43 else 47)"

definition b64_val :: "char \<Rightarrow> int option" where
  "b64_val c = (let n = of_char c :: int in
     if 65 \<le> n \<and> n \<le> 90 then Some (n - 65)
     else if 97 \<le> n \<and> n \<le> 122 then Some (n - 97 + 26)
     else if 48 \<le> n \<and> n \<le> 57 then Some (n - 48 + 52)
     else if n = 43 then Some 62 else if n = 47 then Some 63 else None)"

lemma b64_val_char_table: "\<forall>n \<in> set [0..63]. b64_val (b64_char n) = Some n"
  by code_simp

lemma b64_val_char: "0 \<le> n \<Longrightarrow> n < 64 \<Longrightarrow> b64_val (b64_char n) = Some n"
  using b64_val_char_table by simp

lemma b64_val_range: "b64_val c = Some n \<Longrightarrow> 0 \<le> n \<and> n < 64"
  by (auto simp: b64_val_def Let_def split: if_splits)

section \<open>Encoding and decoding\<close>

fun b64_encode :: "int list \<Rightarrow> string" where
  "b64_encode (a # b # c # rest) =
     [b64_char (a div 4), b64_char (a mod 4 * 16 + b div 16), b64_char (b mod 16 * 4 + c div 64), b64_char (c mod 64)]
     @ b64_encode rest"
| "b64_encode [a, b] =
     [b64_char (a div 4), b64_char (a mod 4 * 16 + b div 16), b64_char (b mod 16 * 4), CHR 0x3D]"
| "b64_encode [a] = [b64_char (a div 4), b64_char (a mod 4 * 16), CHR 0x3D, CHR 0x3D]"
| "b64_encode [] = []"

text \<open>
  Four characters at a time; padding ends the text. The line breaks have been dropped before.
\<close>

fun b64_quads :: "string \<Rightarrow> int list option" where
  "b64_quads [] = Some []"
| "b64_quads (p # q # r # s # rest) =
     (case (b64_val p, b64_val q) of
        (Some x, Some y) \<Rightarrow>
          (if r = CHR 0x3D then
             (if s = CHR 0x3D \<and> rest = [] then Some [x * 4 + y div 16] else None)
           else case b64_val r of
             None \<Rightarrow> None
           | Some z \<Rightarrow>
               (if s = CHR 0x3D then
                  (if rest = [] then Some [x * 4 + y div 16, y mod 16 * 16 + z div 4] else None)
                else case b64_val s of
                  None \<Rightarrow> None
                | Some u \<Rightarrow> map_option (\<lambda>bs. [x * 4 + y div 16, y mod 16 * 16 + z div 4, z mod 4 * 64 + u] @ bs)
                              (b64_quads rest)))
      | _ \<Rightarrow> None)"
| "b64_quads _ = None"

definition line_break :: "char \<Rightarrow> bool" where
  "line_break c \<longleftrightarrow> c = CHR 0x0A \<or> c = CHR 0x0D"

definition b64_decode :: "string \<Rightarrow> int list option" where
  "b64_decode s = b64_quads (filter (\<lambda>c. \<not> line_break c) s)"

definition bytes :: "int list \<Rightarrow> bool" where
  "bytes bs \<longleftrightarrow> (\<forall>b \<in> set bs. 0 \<le> b \<and> b < 256)"

lemma b64_char_ok:
  assumes "0 \<le> n" "n < 64"
  shows "b64_val (b64_char n) = Some n" "b64_char n \<noteq> CHR 0x3D" "\<not> line_break (b64_char n)"
  using b64_val_char [OF assms] by (auto simp: b64_val_def line_break_def)

lemma place_value: "0 \<le> k \<Longrightarrow> k < n \<Longrightarrow> (m * n + k) div n = m \<and> (m * n + k) mod n = k" for k m n :: int
  by (simp add: div_pos_pos_trivial mod_pos_pos_trivial)

lemma quad_split:
  fixes a b c :: int
  assumes "0 \<le> a" "a < 256" "0 \<le> b" "b < 256" "0 \<le> c" "c < 256"
  shows "0 \<le> a div 4" "a div 4 < 64" "0 \<le> a mod 4 * 16 + b div 16" "a mod 4 * 16 + b div 16 < 64"
    "0 \<le> b mod 16 * 4 + c div 64" "b mod 16 * 4 + c div 64 < 64" "0 \<le> c mod 64" "c mod 64 < 64"
    "a div 4 * 4 + (a mod 4 * 16 + b div 16) div 16 = a"
    "(a mod 4 * 16 + b div 16) mod 16 * 16 + (b mod 16 * 4 + c div 64) div 4 = b"
    "(b mod 16 * 4 + c div 64) mod 4 * 64 + c mod 64 = c"
proof -
  have d: "0 \<le> a div 4" "a div 4 < 64" "0 \<le> b div 16" "b div 16 < 16" "0 \<le> c div 64" "c div 64 < 4"
    using assms by auto
  have m: "0 \<le> a mod 4" "a mod 4 < 4" "0 \<le> b mod 16" "b mod 16 < 16" "0 \<le> c mod 64" "c mod 64 < 64" by simp_all
  show "0 \<le> a div 4" "a div 4 < 64" "0 \<le> c mod 64" "c mod 64 < 64"
    "0 \<le> a mod 4 * 16 + b div 16" "a mod 4 * 16 + b div 16 < 64"
    "0 \<le> b mod 16 * 4 + c div 64" "b mod 16 * 4 + c div 64 < 64"
    using d m by linarith+
  show "a div 4 * 4 + (a mod 4 * 16 + b div 16) div 16 = a"
    "(a mod 4 * 16 + b div 16) mod 16 * 16 + (b mod 16 * 4 + c div 64) div 4 = b"
    "(b mod 16 * 4 + c div 64) mod 4 * 64 + c mod 64 = c"
    using div_mult_mod_eq [of a 4] div_mult_mod_eq [of b 16] div_mult_mod_eq [of c 64]
    by (simp_all only: place_value [OF d(3,4), THEN conjunct1] place_value [OF d(3,4), THEN conjunct2]
        place_value [OF d(5,6), THEN conjunct1] place_value [OF d(5,6), THEN conjunct2])
qed

lemma quads_four:
  assumes "0 \<le> x" "x < 64" "0 \<le> y" "y < 64" "0 \<le> z" "z < 64" "0 \<le> u" "u < 64"
  shows "b64_quads (b64_char x # b64_char y # b64_char z # b64_char u # rest) =
    map_option (\<lambda>bs. [x * 4 + y div 16, y mod 16 * 16 + z div 4, z mod 4 * 64 + u] @ bs) (b64_quads rest)"
  by (cases "b64_quads rest") (simp_all add: b64_char_ok assms)

lemma quads_padded:
  assumes "0 \<le> x" "x < 64" "0 \<le> y" "y < 64" "0 \<le> z" "z < 64"
  shows "b64_quads [b64_char x, b64_char y, b64_char z, CHR 0x3D] = Some [x * 4 + y div 16, y mod 16 * 16 + z div 4]"
    "b64_quads [b64_char x, b64_char y, CHR 0x3D, CHR 0x3D] = Some [x * 4 + y div 16]"
  by (simp_all add: b64_char_ok assms)

lemma quads_encode: "bytes bs \<Longrightarrow> b64_quads (b64_encode bs) = Some bs"
proof (induction bs rule: b64_encode.induct)
  case (1 a b c rest)
  then have r: "0 \<le> a" "a < 256" "0 \<le> b" "b < 256" "0 \<le> c" "c < 256" and IH: "b64_quads (b64_encode rest) = Some rest"
    by (auto simp: bytes_def)
  note q = quad_split [OF r]
  show ?case
    unfolding b64_encode.simps append_Cons append_Nil quads_four [OF q(1-8)] IH option.map q(9-11) ..
next
  case (2 a b)
  then have r: "0 \<le> a" "a < 256" "0 \<le> b" "b < 256" "(0 :: int) \<le> 0" "(0 :: int) < 256" by (auto simp: bytes_def)
  note q = quad_split [OF r]
  have z: "0 \<le> b mod 16 * 4" "b mod 16 * 4 < 64" "(a mod 4 * 16 + b div 16) mod 16 * 16 + b mod 16 * 4 div 4 = b"
    using q(5,6,10) by (simp_all only: div_0 add_0_right)
  show ?case
    unfolding b64_encode.simps quads_padded(1) [OF q(1-4) z(1,2)] q(9) z(3) ..
next
  case (3 a)
  then have r: "0 \<le> a" "a < 256" "(0 :: int) \<le> 0" "(0 :: int) < 256" by (auto simp: bytes_def)
  note q = quad_split [OF r(1,2) r(3,4) r(3,4)]
  have z: "0 \<le> a mod 4 * 16" "a mod 4 * 16 < 64" "a div 4 * 4 + a mod 4 * 16 div 16 = a"
    using q(3,4,9) by (simp_all only: div_0 add_0_right)
  show ?case
    unfolding b64_encode.simps quads_padded(2) [OF q(1,2) z(1,2) q(7,8)] z(3) ..
qed simp

lemma breaks_encode: "bytes bs \<Longrightarrow> \<forall>c \<in> set (b64_encode bs). \<not> line_break c"
proof (induction bs rule: b64_encode.induct)
  case (1 a b c rest)
  then have r: "0 \<le> a" "a < 256" "0 \<le> b" "b < 256" "0 \<le> c" "c < 256" and IH: "\<forall>c \<in> set (b64_encode rest). \<not> line_break c"
    by (auto simp: bytes_def)
  note q = quad_split [OF r]
  from IH show ?case
    by (simp add: b64_char_ok [OF q(1,2)] b64_char_ok [OF q(3,4)] b64_char_ok [OF q(5,6)] b64_char_ok [OF q(7,8)])
next
  case (2 a b)
  then have r: "0 \<le> a" "a < 256" "0 \<le> b" "b < 256" "(0 :: int) \<le> 0" "(0 :: int) < 256" by (auto simp: bytes_def)
  note q = quad_split [OF r]
  show ?case
    using q(5,6) by (simp add: b64_char_ok [OF q(1,2)] b64_char_ok [OF q(3,4)] b64_char_ok [of "b mod 16 * 4"] line_break_def [of "CHR 0x3D"])
next
  case (3 a)
  then have r: "0 \<le> a" "a < 256" "(0 :: int) \<le> 0" "(0 :: int) < 256" by (auto simp: bytes_def)
  note q = quad_split [OF r(1,2) r(3,4) r(3,4)]
  show ?case
    using q(3,4) by (simp add: b64_char_ok [OF q(1,2)] b64_char_ok [of "a mod 4 * 16"] line_break_def [of "CHR 0x3D"])
qed simp

lemma no_breaks_encode: "bytes bs \<Longrightarrow> filter (\<lambda>c. \<not> line_break c) (b64_encode bs) = b64_encode bs"
  using breaks_encode by (simp add: filter_id_conv)

lemma decode_encode: "bytes bs \<Longrightarrow> b64_decode (b64_encode bs) = Some bs"
  by (simp add: b64_decode_def no_breaks_encode quads_encode)

lemma quads_bytes: "b64_quads s = Some bs \<Longrightarrow> bytes bs"
proof (induction s arbitrary: bs rule: b64_quads.induct)
  case (2 p q r s rest)
  then obtain x y where xy: "b64_val p = Some x" "b64_val q = Some y"
    by (auto split: option.splits)
  note rg = b64_val_range [OF xy(1)] b64_val_range [OF xy(2)]
  have d: "y div 16 < 4" "0 \<le> y div 16" "y mod 16 < 16" "0 \<le> y mod 16" using rg by auto
  show ?case
  proof (cases "r = CHR 0x3D")
    case True
    with 2 xy rg d show ?thesis by (auto simp: bytes_def split: if_splits)
  next
    case False
    then obtain z where z: "b64_val r = Some z" using 2 xy by (auto split: option.splits)
    note rz = b64_val_range [OF z]
    have e: "z div 4 < 16" "0 \<le> z div 4" "z mod 4 < 4" "0 \<le> z mod 4" using rz by auto
    show ?thesis
    proof (cases "s = CHR 0x3D")
      case True
      with 2 xy z False rg d e show ?thesis by (auto simp: bytes_def split: if_splits)
    next
      case s: False
      then obtain u bs' where u: "b64_val s = Some u" "b64_quads rest = Some bs'"
          "bs = [x * 4 + y div 16, y mod 16 * 16 + z div 4, z mod 4 * 64 + u] @ bs'"
        using 2 xy z False by (auto split: option.splits)
      have "bytes bs'" using 2(1) xy z False s u by simp
      with u rg d e b64_val_range [OF u(1)] show ?thesis by (auto simp: bytes_def)
    qed
  qed
qed (auto simp: bytes_def)

lemma decode_bytes: "b64_decode s = Some bs \<Longrightarrow> bytes bs"
  unfolding b64_decode_def by (rule quads_bytes)

lemma length_encode: "length (b64_encode bs) = (length bs + 2) div 3 * 4"
proof (induction bs rule: b64_encode.induct)
  case (1 a b c rest)
  have "(5 + length rest) div 3 = Suc ((2 + length rest) div 3)" by presburger
  with 1 show ?case by simp
qed simp_all

section \<open>WireGuard keys\<close>

definition key_len :: nat where "key_len = 32"

definition wgkey_validate :: "string \<Rightarrow> string option" where
  "wgkey_validate key =
     (if length key \<noteq> 44 then None
      else case b64_decode key of
        None \<Rightarrow> None
      | Some raw \<Rightarrow>
          (if length raw \<noteq> key_len then None
           else if raw = replicate key_len 0 then None
           else Some (b64_encode raw)))"

text \<open>
  C34 (validated_keys_are_canonical). Whatever text comes in, an accepted key is the base64 form of
  exactly 32 bytes, not all zero, and is its own canonical form: it has 44 characters, decodes to what
  the input decoded to, and validating it again returns it unchanged. So two spellings of one key are
  stored as one.
\<close>

theorem validated_keys_are_canonical:
  assumes "wgkey_validate key = Some k"
  shows "wgkey_validate k = Some k \<and> length k = 44 \<and> b64_decode k = b64_decode key \<and>
    (\<exists>raw. b64_decode k = Some raw \<and> length raw = 32 \<and> bytes raw \<and> raw \<noteq> replicate 32 0 \<and> k = b64_encode raw)"
proof -
  obtain raw where raw: "b64_decode key = Some raw" "length raw = 32" "raw \<noteq> replicate 32 0" "k = b64_encode raw"
    using assms by (auto simp: wgkey_validate_def key_len_def split: if_splits option.splits)
  have b: "bytes raw" by (rule decode_bytes [OF raw(1)])
  have "length k = 44" using raw by (simp add: length_encode)
  moreover have "b64_decode k = Some raw" unfolding raw(4) by (rule decode_encode [OF b])
  ultimately show ?thesis using raw b by (simp add: wgkey_validate_def key_len_def)
qed

end
