(* ===== verification/UrlBase64.thy ===== *)
theory UrlBase64
  imports Base64
begin

text \<open>
  \<open>base64.RawURLEncoding\<close>: base64 with two other characters and without padding, as tokens and payment
  references use it.
\<close>

section \<open>Encoding and decoding\<close>

definition to_url :: "char \<Rightarrow> char" where
  "to_url c = (if c = CHR 0x2B then CHR 0x2D else if c = CHR 0x2F then CHR 0x5F else c)"

definition from_url :: "char \<Rightarrow> char" where
  "from_url c = (if c = CHR 0x2D then CHR 0x2B else if c = CHR 0x5F then CHR 0x2F else c)"

definition url_encode :: "int list \<Rightarrow> string" where
  "url_encode bs = map to_url (filter (\<lambda>c. c \<noteq> CHR 0x3D) (b64_encode bs))"

definition pad_quads :: "string \<Rightarrow> string" where
  "pad_quads s = s @ replicate ((4 - length s mod 4) mod 4) (CHR 0x3D)"

definition url_decode :: "string \<Rightarrow> int list option" where
  "url_decode s =
     (let t = filter (\<lambda>c. \<not> line_break c) s in
      if list_ex (\<lambda>c. c = CHR 0x3D \<or> c = CHR 0x2B \<or> c = CHR 0x2F) t then None
      else b64_quads (pad_quads (map from_url t)))"

text \<open>The characters an encoding is made of.\<close>

definition alphabet :: "char \<Rightarrow> bool" where
  "alphabet c \<longleftrightarrow> b64_val c \<noteq> None"

lemma alphabet_char: "0 \<le> n \<Longrightarrow> n < 64 \<Longrightarrow> alphabet (b64_char n)"
  by (simp add: alphabet_def b64_val_char)

lemma not_alphabet:
  "\<not> alphabet (CHR 0x3D)" "\<not> alphabet (CHR 0x2D)" "\<not> alphabet (CHR 0x5F)" "\<not> alphabet (CHR 0x0A)"
  "\<not> alphabet (CHR 0x0D)" "\<not> alphabet (CHR 0x2E)"
  by (simp_all add: alphabet_def b64_val_def)

lemma alphabet_facts:
  assumes "alphabet c"
  shows "c \<noteq> CHR 0x3D" "from_url (to_url c) = c" "\<not> line_break (to_url c)" "to_url c \<noteq> CHR 0x3D"
    "to_url c \<noteq> CHR 0x2B" "to_url c \<noteq> CHR 0x2F" "to_url c \<noteq> CHR 0x2E"
  using assms not_alphabet by (auto simp: to_url_def from_url_def line_break_def)

lemma encode_shape:
  "bytes bs \<Longrightarrow> \<exists>s k. b64_encode bs = s @ replicate k (CHR 0x3D) \<and> (\<forall>c \<in> set s. alphabet c) \<and>
     k = (4 - length s mod 4) mod 4"
proof (induction bs rule: b64_encode.induct)
  case (1 a b c rest)
  then have r: "0 \<le> a" "a < 256" "0 \<le> b" "b < 256" "0 \<le> c" "c < 256" and "bytes rest" by (auto simp: bytes_def)
  then obtain s k where s: "b64_encode rest = s @ replicate k (CHR 0x3D)" "\<forall>c \<in> set s. alphabet c" "k = (4 - length s mod 4) mod 4"
    using 1 by blast
  note q = quad_split [OF r]
  note al = alphabet_char [OF q(1,2)] alphabet_char [OF q(3,4)] alphabet_char [OF q(5,6)] alphabet_char [OF q(7,8)]
  let ?q = "[b64_char (a div 4), b64_char (a mod 4 * 16 + b div 16), b64_char (b mod 16 * 4 + c div 64), b64_char (c mod 64)]"
  have "b64_encode (a # b # c # rest) = (?q @ s) @ replicate k (CHR 0x3D)"
    unfolding b64_encode.simps s(1) by (rule append_assoc [symmetric])
  moreover have "\<forall>c \<in> set (?q @ s). alphabet c"
    unfolding set_append ball_Un list.set ball_simps using al s(2) by blast
  moreover have "length (?q @ s) mod 4 = length s mod 4"
    by simp
  ultimately show ?case using s(3) by (intro exI [of _ "?q @ s"] exI [of _ k] conjI) simp_all
next
  case (2 a b)
  then have r: "0 \<le> a" "a < 256" "0 \<le> b" "b < 256" "(0 :: int) \<le> 0" "(0 :: int) < 256" by (auto simp: bytes_def)
  note q = quad_split [OF r]
  have z: "0 \<le> b mod 16 * 4" "b mod 16 * 4 < 64" using q(5,6) by (simp_all only: div_0 add_0_right)
  note al = alphabet_char [OF q(1,2)] alphabet_char [OF q(3,4)] alphabet_char [OF z]
  let ?q = "[b64_char (a div 4), b64_char (a mod 4 * 16 + b div 16), b64_char (b mod 16 * 4)]"
  have "b64_encode [a, b] = ?q @ replicate 1 (CHR 0x3D)"
    unfolding b64_encode.simps One_nat_def replicate.simps append_Cons append_Nil ..
  moreover have "\<forall>c \<in> set ?q. alphabet c" unfolding list.set ball_simps using al by blast
  moreover have "(1 :: nat) = (4 - length ?q mod 4) mod 4" by simp
  ultimately show ?case by (intro exI [of _ ?q] exI [of _ "1 :: nat"] conjI)
next
  case (3 a)
  then have r: "0 \<le> a" "a < 256" "(0 :: int) \<le> 0" "(0 :: int) < 256" by (auto simp: bytes_def)
  note q = quad_split [OF r(1,2) r(3,4) r(3,4)]
  have z: "0 \<le> a mod 4 * 16" "a mod 4 * 16 < 64" using q(3,4) by (simp_all only: div_0 add_0_right)
  note al = alphabet_char [OF q(1,2)] alphabet_char [OF z]
  let ?q = "[b64_char (a div 4), b64_char (a mod 4 * 16)]"
  have "b64_encode [a] = ?q @ replicate 2 (CHR 0x3D)"
    unfolding b64_encode.simps numeral_2_eq_2 replicate.simps append_Cons append_Nil ..
  moreover have "\<forall>c \<in> set ?q. alphabet c" unfolding list.set ball_simps using al by blast
  moreover have "(2 :: nat) = (4 - length ?q mod 4) mod 4" by simp
  ultimately show ?case by (intro exI [of _ ?q] exI [of _ "2 :: nat"] conjI)
next
  case 4
  show ?case by (intro exI [of _ "[]"] exI [of _ 0]) simp
qed

lemma url_encode_facts:
  assumes "bytes bs"
  shows "url_decode (url_encode bs) = Some bs" "CHR 0x2E \<notin> set (url_encode bs)"
proof -
  obtain s k where s: "b64_encode bs = s @ replicate k (CHR 0x3D)" "\<forall>c \<in> set s. alphabet c" "k = (4 - length s mod 4) mod 4"
    using encode_shape [OF assms] by blast
  have u: "url_encode bs = map to_url s"
    using s(1,2) alphabet_facts(1) by (auto simp: url_encode_def filter_id_conv)
  have "filter (\<lambda>c. \<not> line_break c) (map to_url s) = map to_url s"
    using s(2) alphabet_facts(3) by (simp add: filter_id_conv)
  moreover have "map from_url (map to_url s) = s" using s(2) alphabet_facts(2) by (simp add: map_idI)
  moreover have "\<not> list_ex (\<lambda>c. c = CHR 0x3D \<or> c = CHR 0x2B \<or> c = CHR 0x2F) (map to_url s)"
    using s(2) alphabet_facts(4-6) by (auto simp: list_ex_iff)
  moreover have "pad_quads s = b64_encode bs" using s(1,3) by (simp add: pad_quads_def)
  ultimately show "url_decode (url_encode bs) = Some bs"
    using quads_encode [OF assms] u by (simp add: url_decode_def Let_def)
  show "CHR 0x2E \<notin> set (url_encode bs)"
  proof
    assume "CHR 0x2E \<in> set (url_encode bs)"
    then obtain x where "x \<in> set s" "to_url x = CHR 0x2E" unfolding u set_map by (metis imageE)
    then show False using s(2) alphabet_facts(7) by blast
  qed
qed

end
