(* ===== verification/Model.thy ===== *)
theory Model
  imports Prelude "HOL-Library.Word" Complex_Main
begin

text \<open>
  The domain types of \<open>server/internal/model/model.go\<close>, the error values the control plane
  passes around, and the tables of \<open>server/migrations/0001_init.sql\<close> as records.

  A table row and the Go struct it is scanned into are two records where they differ (a NULL
  column is an option, the struct holds the empty string). Identifiers are the uuid primary keys,
  numbered; instants and durations are integers in nanoseconds.
\<close>

type_synonym uuid = nat
type_synonym time = int
type_synonym duration = int
type_synonym ipv4 = "32 word"

definition millisecond :: duration where "millisecond = 1000000"
definition second :: duration where "second = 1000 * millisecond"
definition minute :: duration where "minute = 60 * second"

section \<open>Errors\<close>

text \<open>
  A Go error is a sentinel or a wrapped error. \<open>fmt.Errorf(pre %w post)\<close> keeps the wrapped
  error reachable by \<open>errors.Is\<close>; an error printed with \<open>%v\<close> survives as text only.
\<close>

datatype sentinel =
    ErrNotEntitled | ErrDeviceLimit | ErrNoServer | ErrEdgeUnavailable
  | ErrNotFound | ErrConflict | ErrNoAddresses
  | ErrUnreachable | ErrRejected | ErrInvalidKey | ErrInvalidIP
  | ErrNoRows | UniqueViolation | OtherError string

datatype goerr = Sentinel sentinel | Wrap string goerr string

fun sentinel_text :: "sentinel \<Rightarrow> string" where
  "sentinel_text ErrNotEntitled = ''provision: no active subscription''"
| "sentinel_text ErrDeviceLimit = ''provision: device limit reached''"
| "sentinel_text ErrNoServer = ''provision: no server available''"
| "sentinel_text ErrEdgeUnavailable = ''provision: edge unavailable''"
| "sentinel_text ErrNotFound = ''store: not found''"
| "sentinel_text ErrConflict = ''store: conflict''"
| "sentinel_text ErrNoAddresses = ''store: tunnel subnet exhausted''"
| "sentinel_text ErrUnreachable = ''edge: unreachable''"
| "sentinel_text ErrRejected = ''edge: rejected''"
| "sentinel_text ErrInvalidKey = ''wg: invalid public key''"
| "sentinel_text ErrInvalidIP = ''wg: invalid tunnel address''"
| "sentinel_text ErrNoRows = ''no rows in result set''"
| "sentinel_text UniqueViolation = ''ERROR: duplicate key value (SQLSTATE 23505)''"
| "sentinel_text (OtherError t) = t"

fun err_text :: "goerr \<Rightarrow> string" where
  "err_text (Sentinel s) = sentinel_text s"
| "err_text (Wrap pre e post) = pre @ err_text e @ post"

fun is_err :: "goerr \<Rightarrow> sentinel \<Rightarrow> bool" where
  "is_err (Sentinel s) t = (s = t)"
| "is_err (Wrap pre e post) t = is_err e t"

text \<open>Every error is one sentinel under its wrapping.\<close>

fun root_err :: "goerr \<Rightarrow> sentinel" where
  "root_err (Sentinel s) = s"
| "root_err (Wrap pre e post) = root_err e"

lemma is_err_root: "is_err e t \<longleftrightarrow> root_err e = t"
  by (induction e) auto

text \<open>\<open>mapErr\<close> of \<open>store.go\<close>, on the error branch.\<close>

definition map_err :: "goerr \<Rightarrow> goerr" where
  "map_err e =
     (if is_err e ErrNoRows then Sentinel ErrNotFound
      else if is_err e UniqueViolation then Sentinel ErrConflict
      else e)"

lemma map_err_simps [simp]:
  "map_err (Sentinel ErrNoRows) = Sentinel ErrNotFound"
  "map_err (Sentinel UniqueViolation) = Sentinel ErrConflict"
  "map_err (Sentinel ErrNoAddresses) = Sentinel ErrNoAddresses"
  "map_err (Sentinel (OtherError t)) = Sentinel (OtherError t)"
  by (simp_all add: map_err_def)

section \<open>Users, devices, plans, subscriptions\<close>

datatype user_status = UserActive | UserSuspended | UserDeleted

record user_row =
  u_id :: uuid
  u_email :: "string option"
  u_phone :: "string option"
  u_password_hash :: string
  u_status :: user_status
  u_created_at :: time

record device =
  d_id :: uuid
  d_user_id :: uuid
  d_name :: string
  d_platform :: string
  d_public_key :: string
  d_app_version :: "string option"
  d_created_at :: time
  d_last_seen_at :: "time option"
  d_revoked_at :: "time option"

record plan =
  pl_code :: string
  pl_name :: string
  pl_duration :: duration
  pl_price_kobo :: int
  pl_currency :: string
  pl_data_cap_bytes :: "int option"
  pl_device_limit :: int
  pl_is_free :: bool
  pl_active :: bool
  pl_sort_order :: int

record subscription =
  sb_id :: uuid
  sb_user_id :: uuid
  sb_plan_code :: string
  sb_source :: string
  sb_starts_at :: time
  sb_expires_at :: time
  sb_data_cap_bytes :: "int option"
  sb_revoked_at :: "time option"

record entitlement =
  e_active :: bool
  e_plan_code :: string
  e_expires_at :: time
  e_device_limit :: int

definition no_entitlement :: entitlement where
  "no_entitlement = \<lparr>e_active = False, e_plan_code = [], e_expires_at = 0, e_device_limit = 0\<rparr>"

section \<open>Payments, webhooks, refresh tokens\<close>

datatype payment_status = PayPending | PaySuccess | PayFailed | PayAbandoned

record payment_row =
  py_id :: uuid
  py_user_id :: "uuid option"
  py_provider :: string
  py_provider_ref :: string
  py_plan_code :: "string option"
  py_amount_kobo :: int
  py_currency :: string
  py_status :: payment_status
  py_payload :: string

record webhook_row =
  wh_id :: uuid
  wh_provider :: string
  wh_event_id :: string
  wh_event_type :: string
  wh_payload :: string
  wh_handled_at :: "time option"

record token_row =
  t_id :: uuid
  t_user_id :: uuid
  t_device_id :: "uuid option"
  t_hash :: string
  t_expires_at :: time
  t_revoked_at :: "time option"

section \<open>Servers\<close>

text \<open>A decoded JSON value, \<open>any\<close> in Go: numbers decode to \<open>float64\<close>.\<close>

datatype any =
    ANil | ABool bool | AFloat64 rat | AInt int | AInt64 int | AString string
  | ASlice "any list" | AMap "(string \<times> any) list"

datatype server_status = ServerActive | ServerDraining | ServerDown | ServerMaintenance

text \<open>A \<open>cidr\<close> value: base address and prefix length. IPv6 networks are stored but never used.\<close>

datatype cidr = Cidr4 ipv4 nat | Cidr6 "128 word" nat

record server_row =
  s_id :: uuid
  s_code :: string
  s_display_name :: string
  s_country_code :: string
  s_region :: string
  s_endpoint_host :: string
  s_endpoint_port :: int
  s_public_key :: string
  s_obfuscation :: "(string \<times> any) list"
  s_tunnel_subnet :: cidr
  s_agent_url :: string
  s_agent_token :: string
  s_status :: server_status
  s_capacity_peers :: int
  s_priority :: int
  s_last_seen_at :: "time option"

record server = server_row +
  s_live_peers :: int

section \<open>Peer assignments\<close>

datatype peer_state = PeerPending | PeerActive | PeerRevoking | PeerRevoked

record peer_row =
  p_id :: uuid
  p_device_id :: uuid
  p_server_id :: uuid
  p_public_key :: string
  p_prev_public_key :: "string option"
  p_tunnel_ip :: ipv4
  p_state :: peer_state
  p_revision :: int
  p_applied_revision :: int
  p_attempts :: int
  p_last_error :: "string option"
  p_next_attempt_at :: time
  p_created_at :: time
  p_activated_at :: "time option"
  p_revoked_at :: "time option"

record peer_assignment =
  pa_id :: uuid
  pa_device_id :: uuid
  pa_server_id :: uuid
  pa_public_key :: string
  pa_prev_public_key :: string
  pa_tunnel_ip :: ipv4
  pa_state :: peer_state
  pa_revision :: int
  pa_applied_revision :: int
  pa_attempts :: int
  pa_last_error :: string
  pa_next_attempt_at :: time
  pa_created_at :: time
  pa_activated_at :: "time option"

definition applied :: "peer_assignment \<Rightarrow> bool" where
  "applied p \<longleftrightarrow> pa_state p = PeerActive \<and> pa_revision p \<le> pa_applied_revision p"

section \<open>The database\<close>

text \<open>
  Tables are lists in insertion order; \<open>next_id\<close> stands for \<open>gen_random_uuid()\<close> and is
  above every identifier handed out.
\<close>

record db =
  users :: "user_row list"
  devices :: "device list"
  plans :: "plan list"
  subscriptions :: "subscription list"
  payments :: "payment_row list"
  webhook_events :: "webhook_row list"
  refresh_tokens :: "token_row list"
  servers :: "server_row list"
  peers :: "peer_row list"
  next_id :: uuid

text \<open>COALESCE over an optional column.\<close>

definition coalesce :: "'a option \<Rightarrow> 'a \<Rightarrow> 'a" where
  "coalesce x y = (case x of None \<Rightarrow> y | Some v \<Rightarrow> v)"

definition nullif_empty :: "string \<Rightarrow> string option" where
  "nullif_empty s = (if s = [] then None else Some s)"

lemma coalesce_simps [simp]: "coalesce None y = y" "coalesce (Some v) y = v"
  by (simp_all add: coalesce_def)

end
