(* ===== verification/Peers.thy ===== *)
theory Peers
  imports Model
begin

text \<open>
  \<open>server/internal/store/peers.go\<close>: the desired-state table of peer assignments. Each
  operation is one SQL statement or transaction; it takes the transaction's \<open>now()\<close> and the
  database and returns its result with the new database. A transaction that fails leaves the
  database as it was.

  The second half states the table's invariant (the two partial unique indexes of the schema and
  what an active row promises), shows that every operation keeps it, and how a row may evolve.
\<close>

section \<open>Reading rows\<close>

definition live :: "peer_row \<Rightarrow> bool" where
  "live p \<longleftrightarrow> p_state p \<noteq> PeerRevoked"

definition wanted :: "peer_row \<Rightarrow> bool" where
  "wanted p \<longleftrightarrow> p_state p = PeerPending \<or> p_state p = PeerActive"

text \<open>\<open>peerScan\<close>: NULL text columns are coalesced to the empty string.\<close>

definition scan_peer :: "peer_row \<Rightarrow> peer_assignment" where
  "scan_peer p = \<lparr>pa_id = p_id p, pa_device_id = p_device_id p, pa_server_id = p_server_id p,
     pa_public_key = p_public_key p, pa_prev_public_key = coalesce (p_prev_public_key p) [],
     pa_tunnel_ip = p_tunnel_ip p, pa_state = p_state p, pa_revision = p_revision p,
     pa_applied_revision = p_applied_revision p, pa_attempts = p_attempts p,
     pa_last_error = coalesce (p_last_error p) [], pa_next_attempt_at = p_next_attempt_at p,
     pa_created_at = p_created_at p, pa_activated_at = p_activated_at p\<rparr>"

definition live_peer_count :: "db \<Rightarrow> uuid \<Rightarrow> nat" where
  "live_peer_count d srv = count_where (\<lambda>p. p_server_id p = srv \<and> wanted p) (peers d)"

definition scan_server :: "db \<Rightarrow> server_row \<Rightarrow> server" where
  "scan_server d s = server_row.extend s \<lparr>s_live_peers = int (live_peer_count d (s_id s))\<rparr>"

definition find_server_row :: "db \<Rightarrow> uuid \<Rightarrow> server_row option" where
  "find_server_row d srv = find (\<lambda>s. s_id s = srv) (servers d)"

section \<open>Allocating a tunnel address\<close>

text \<open>
  The scan of \<open>generate_series(g, hi)\<close> up to the first candidate that is not taken. The query
  has no ORDER BY; the model takes the order of the series, as the comment of \<open>allocateIP\<close> does.
\<close>

function find_free :: "(int \<Rightarrow> bool) \<Rightarrow> int \<Rightarrow> int \<Rightarrow> int option" where
  "find_free taken g hi = (if hi < g then None else if taken g then find_free taken (g + 1) hi else Some g)"
  by pat_completeness auto
termination
  by (relation "measure (\<lambda>(taken, g, hi). nat (hi + 1 - g))") auto

declare find_free.simps [simp del]

definition ip_taken :: "db \<Rightarrow> uuid \<Rightarrow> ipv4 \<Rightarrow> bool" where
  "ip_taken d srv ip \<longleftrightarrow>
     list_ex (\<lambda>p. p_server_id p = srv \<and> live p \<and> p_tunnel_ip p = ip) (peers d)"

definition host_addr :: "ipv4 \<Rightarrow> int \<Rightarrow> ipv4" where
  "host_addr base g = base + word_of_int g"

definition max_offset :: "nat \<Rightarrow> int" where
  "max_offset bits = 2 ^ (32 - bits) - 2"

definition allocate_ip :: "db \<Rightarrow> uuid \<Rightarrow> cidr \<Rightarrow> goerr + ipv4" where
  "allocate_ip d srv subnet =
     (case subnet of
        Cidr6 base bits \<Rightarrow> Inl (Sentinel (OtherError ''tunnel subnet is not IPv4''))
      | Cidr4 base bits \<Rightarrow>
          (if max_offset bits < 1 then Inl (Sentinel ErrNoAddresses)
           else (case find_free (\<lambda>g. ip_taken d srv (host_addr base g)) 2 (max_offset bits) of
                   None \<Rightarrow> Inl (Sentinel ErrNoAddresses)
                 | Some g \<Rightarrow> Inr (host_addr base g))))"

section \<open>EnsureAssignment\<close>

text \<open>The row lock query and the UPDATE of an existing row.\<close>

definition existing_assignment :: "db \<Rightarrow> uuid \<Rightarrow> uuid \<Rightarrow> peer_row option" where
  "existing_assignment d dev srv =
     find (\<lambda>p. p_device_id p = dev \<and> p_server_id p = srv \<and> p_state p \<noteq> PeerRevoked) (peers d)"

definition rekey :: "time \<Rightarrow> string \<Rightarrow> peer_row \<Rightarrow> peer_row" where
  "rekey now key p = p\<lparr>p_public_key := key,
     p_prev_public_key :=
       (if p_public_key p = key then p_prev_public_key p
        else Some (coalesce (p_prev_public_key p) (p_public_key p))),
     p_revision := p_revision p + 1, p_state := PeerPending, p_attempts := 0,
     p_last_error := None, p_next_attempt_at := now, p_revoked_at := None\<rparr>"

text \<open>
  The INSERT: column defaults from the schema, the foreign key on \<open>devices\<close> and the two
  partial unique indexes. A violated index is reported as SQLSTATE 23505.
\<close>

definition new_peer :: "time \<Rightarrow> uuid \<Rightarrow> uuid \<Rightarrow> uuid \<Rightarrow> string \<Rightarrow> ipv4 \<Rightarrow> peer_row" where
  "new_peer now i dev srv key ip =
     \<lparr>p_id = i, p_device_id = dev, p_server_id = srv, p_public_key = key, p_prev_public_key = None,
      p_tunnel_ip = ip, p_state = PeerPending, p_revision = 1, p_applied_revision = 0,
      p_attempts = 0, p_last_error = None, p_next_attempt_at = now, p_created_at = now,
      p_activated_at = None, p_revoked_at = None\<rparr>"

definition insert_peer ::
  "time \<Rightarrow> uuid \<Rightarrow> uuid \<Rightarrow> string \<Rightarrow> ipv4 \<Rightarrow> db \<Rightarrow> (goerr + peer_assignment) \<times> db" where
  "insert_peer now dev srv key ip d =
     (if \<not> list_ex (\<lambda>v. d_id v = dev) (devices d)
      then (Inl (Sentinel (OtherError ''ERROR: foreign key violation (SQLSTATE 23503)'')), d)
      else if list_ex (\<lambda>p. live p \<and> p_device_id p = dev \<and> p_server_id p = srv) (peers d) \<or> ip_taken d srv ip
      then (Inl (Sentinel UniqueViolation), d)
      else let p = new_peer now (next_id d) dev srv key ip
           in (Inr (scan_peer p), d\<lparr>peers := peers d @ [p], next_id := Suc (next_id d)\<rparr>))"

definition ensure_assignment_tx ::
  "time \<Rightarrow> uuid \<Rightarrow> uuid \<Rightarrow> string \<Rightarrow> db \<Rightarrow> (goerr + peer_assignment) \<times> db" where
  "ensure_assignment_tx now dev srv key d =
     (case find_server_row d srv of
        None \<Rightarrow> (Inl (Sentinel ErrNoRows), d)
      | Some s \<Rightarrow>
         (case existing_assignment d dev srv of
            Some p \<Rightarrow>
              (if p_public_key p = key \<and> p_state p \<noteq> PeerRevoking then (Inr (scan_peer p), d)
               else (Inr (scan_peer (rekey now key p)),
                     d\<lparr>peers := update_where (\<lambda>q. p_id q = p_id p) (rekey now key) (peers d)\<rparr>))
          | None \<Rightarrow>
              (case allocate_ip d srv (s_tunnel_subnet s) of
                 Inl e \<Rightarrow> (Inl e, d)
               | Inr ip \<Rightarrow> insert_peer now dev srv key ip d)))"

definition map_result :: "(goerr + 'a) \<Rightarrow> goerr + 'a" where
  "map_result r = (case r of Inl e \<Rightarrow> Inl (map_err e) | Inr x \<Rightarrow> Inr x)"

definition ensure_assignment ::
  "time \<Rightarrow> uuid \<Rightarrow> uuid \<Rightarrow> string \<Rightarrow> db \<Rightarrow> (goerr + peer_assignment) \<times> db" where
  "ensure_assignment now dev srv key d =
     (let (r, d') = ensure_assignment_tx now dev srv key d in (map_result r, d'))"

section \<open>Recording what the edge confirmed\<close>

definition mark_applied :: "time \<Rightarrow> uuid \<Rightarrow> int \<Rightarrow> db \<Rightarrow> (goerr + unit) \<times> db" where
  "mark_applied now i revn d =
     (Inr (), d\<lparr>peers := update_where
        (\<lambda>p. p_id p = i \<and> p_state p = PeerPending \<and> p_revision p \<le> revn)
        (\<lambda>p. p\<lparr>p_state := PeerActive, p_applied_revision := max (p_applied_revision p) revn,
               p_prev_public_key := None, p_attempts := 0, p_last_error := None,
               p_activated_at := Some (coalesce (p_activated_at p) now)\<rparr>) (peers d)\<rparr>)"

definition mark_revoked :: "time \<Rightarrow> uuid \<Rightarrow> int \<Rightarrow> db \<Rightarrow> (goerr + unit) \<times> db" where
  "mark_revoked now i revn d =
     (Inr (), d\<lparr>peers := update_where
        (\<lambda>p. p_id p = i \<and> p_state p = PeerRevoking \<and> p_revision p \<le> revn)
        (\<lambda>p. p\<lparr>p_state := PeerRevoked, p_applied_revision := max (p_applied_revision p) revn,
               p_revoked_at := Some now, p_attempts := 0, p_last_error := None\<rparr>) (peers d)\<rparr>)"

definition mark_attempt_failed :: "uuid \<Rightarrow> string \<Rightarrow> time \<Rightarrow> db \<Rightarrow> (goerr + unit) \<times> db" where
  "mark_attempt_failed i cause retry_at d =
     (Inr (), d\<lparr>peers := update_where (\<lambda>p. p_id p = i)
        (\<lambda>p. p\<lparr>p_attempts := p_attempts p + 1, p_last_error := Some (take 500 cause),
               p_next_attempt_at := retry_at\<rparr>) (peers d)\<rparr>)"

section \<open>Asking for removal\<close>

definition begin_revoke :: "time \<Rightarrow> peer_row \<Rightarrow> peer_row" where
  "begin_revoke now p = p\<lparr>p_state := PeerRevoking, p_revision := p_revision p + 1,
     p_attempts := 0, p_next_attempt_at := now\<rparr>"

definition revoke_where :: "(peer_row \<Rightarrow> bool) \<Rightarrow> time \<Rightarrow> db \<Rightarrow> (goerr + nat) \<times> db" where
  "revoke_where c now d =
     (Inr (count_where (\<lambda>p. c p \<and> wanted p) (peers d)),
      d\<lparr>peers := update_where (\<lambda>p. c p \<and> wanted p) (begin_revoke now) (peers d)\<rparr>)"

definition owned_by :: "db \<Rightarrow> uuid \<Rightarrow> peer_row \<Rightarrow> bool" where
  "owned_by d uid p \<longleftrightarrow> list_ex (\<lambda>v. d_id v = p_device_id p \<and> d_user_id v = uid) (devices d)"

definition begin_revoke_for_user :: "time \<Rightarrow> uuid \<Rightarrow> db \<Rightarrow> (goerr + nat) \<times> db" where
  "begin_revoke_for_user now uid d = revoke_where (owned_by d uid) now d"

definition begin_revoke_for_device :: "time \<Rightarrow> uuid \<Rightarrow> db \<Rightarrow> (goerr + nat) \<times> db" where
  "begin_revoke_for_device now dev d = revoke_where (\<lambda>p. p_device_id p = dev) now d"

definition begin_revoke_other_servers :: "time \<Rightarrow> uuid \<Rightarrow> uuid \<Rightarrow> db \<Rightarrow> (goerr + nat) \<times> db" where
  "begin_revoke_other_servers now dev keep d =
     revoke_where (\<lambda>p. p_device_id p = dev \<and> p_server_id p \<noteq> keep) now d"

section \<open>Work lists\<close>

definition due :: "time \<Rightarrow> peer_row \<Rightarrow> bool" where
  "due now p \<longleftrightarrow> (p_state p = PeerPending \<or> p_state p = PeerRevoking) \<and> p_next_attempt_at p \<le> now"

definition due_assignments ::
  "time \<Rightarrow> nat \<Rightarrow> db \<Rightarrow> (goerr + (peer_assignment \<times> server) list) \<times> db" where
  "due_assignments now limit d =
     (Inr (take limit (List.map_filter
        (\<lambda>p. map_option (\<lambda>s. (scan_peer p, scan_server d s)) (find_server_row d (p_server_id p)))
        (sort_key p_next_attempt_at (filter (due now) (peers d))))), d)"

definition assignments_for_device :: "uuid \<Rightarrow> db \<Rightarrow> (goerr + peer_assignment list) \<times> db" where
  "assignments_for_device dev d =
     (Inr (map scan_peer (sort_key p_created_at
        (filter (\<lambda>p. p_device_id p = dev \<and> p_state p \<noteq> PeerRevoked) (peers d)))), d)"

definition assignment_by_id :: "uuid \<Rightarrow> db \<Rightarrow> (goerr + peer_assignment) \<times> db" where
  "assignment_by_id i d =
     ((case find (\<lambda>p. p_id p = i) (peers d) of
         None \<Rightarrow> Inl (map_err (Sentinel ErrNoRows)) | Some p \<Rightarrow> Inr (scan_peer p)), d)"

definition live_peers_for_server :: "uuid \<Rightarrow> db \<Rightarrow> (goerr + peer_assignment list) \<times> db" where
  "live_peers_for_server srv d =
     (Inr (map scan_peer (sort_key (\<lambda>p. uint (p_tunnel_ip p))
        (filter (\<lambda>p. p_server_id p = srv \<and> wanted p) (peers d)))), d)"

definition mark_server_peers_stale :: "time \<Rightarrow> uuid \<Rightarrow> db \<Rightarrow> (goerr + nat) \<times> db" where
  "mark_server_peers_stale now srv d =
     (Inr (count_where (\<lambda>p. p_server_id p = srv \<and> wanted p) (peers d)),
      d\<lparr>peers := update_where (\<lambda>p. p_server_id p = srv \<and> wanted p)
         (\<lambda>p. p\<lparr>p_state := PeerPending, p_revision := p_revision p + 1, p_attempts := 0,
                p_next_attempt_at := now\<rparr>) (peers d)\<rparr>)"

section \<open>The table invariant\<close>

text \<open>
  What the operations keep: primary keys are unique and below \<open>next_id\<close>, the two partial
  unique indexes hold, and an active row has been confirmed at its current revision with no
  superseded key left.
\<close>

definition row_ok :: "peer_row \<Rightarrow> bool" where
  "row_ok p \<longleftrightarrow> 1 \<le> p_revision p \<and> 0 \<le> p_attempts p \<and>
     (p_state p = PeerActive \<longrightarrow> p_revision p \<le> p_applied_revision p \<and> p_prev_public_key p = None)"

definition wf_peers :: "db \<Rightarrow> bool" where
  "wf_peers d \<longleftrightarrow>
     distinct (map p_id (peers d)) \<and> list_all (\<lambda>p. p_id p < next_id d) (peers d) \<and>
     distinct (map (\<lambda>p. (p_device_id p, p_server_id p)) (filter live (peers d))) \<and>
     distinct (map (\<lambda>p. (p_server_id p, p_tunnel_ip p)) (filter live (peers d))) \<and>
     list_all row_ok (peers d)"

text \<open>
  How one row may change: its identity, its device, server and address are fixed, revisions only
  grow, a new key always comes with a new revision, a confirmation is never forgotten, and
  \<open>revoked\<close> is final.
\<close>

definition row_evolves :: "peer_row \<Rightarrow> peer_row \<Rightarrow> bool" where
  "row_evolves p q \<longleftrightarrow>
     p_id q = p_id p \<and> p_device_id q = p_device_id p \<and> p_server_id q = p_server_id p \<and>
     p_tunnel_ip q = p_tunnel_ip p \<and> p_created_at q = p_created_at p \<and>
     p_revision p \<le> p_revision q \<and> p_applied_revision p \<le> p_applied_revision q \<and>
     (p_public_key q \<noteq> p_public_key p \<longrightarrow> p_revision p < p_revision q) \<and>
     (p_activated_at p \<noteq> None \<longrightarrow> p_activated_at q = p_activated_at p) \<and>
     (p_state p = PeerRevoked \<longrightarrow> p_state q = PeerRevoked \<and> p_public_key q = p_public_key p \<and>
        p_revision q = p_revision p)"

definition peers_evolve :: "db \<Rightarrow> db \<Rightarrow> bool" where
  "peers_evolve d d' \<longleftrightarrow> length (peers d) \<le> length (peers d') \<and>
     list_all2 row_evolves (peers d) (take (length (peers d)) (peers d'))"

definition peers_step :: "db \<Rightarrow> db \<Rightarrow> bool" where
  "peers_step d d' \<longleftrightarrow> (wf_peers d \<longrightarrow> wf_peers d' \<and> peers_evolve d d')"

lemma row_evolves_refl [simp]: "row_evolves p p"
  by (simp add: row_evolves_def)

lemma row_evolves_trans: "row_evolves p q \<Longrightarrow> row_evolves q r \<Longrightarrow> row_evolves p r"
  unfolding row_evolves_def by (cases "p_activated_at p") force+

lemma peers_evolve_refl [simp]: "peers_evolve d d"
  by (simp add: peers_evolve_def list.rel_refl)

lemma peers_evolve_trans:
  assumes "peers_evolve d e" and "peers_evolve e f"
  shows "peers_evolve d f"
proof -
  let ?n = "length (peers d)" and ?m = "length (peers e)"
  have nm: "?n \<le> ?m" "?m \<le> length (peers f)"
    and de: "list_all2 row_evolves (peers d) (take ?n (peers e))"
    and ef: "list_all2 row_evolves (peers e) (take ?m (peers f))"
    using assms by (auto simp: peers_evolve_def)
  from ef have "list_all2 row_evolves (take ?n (peers e)) (take ?n (take ?m (peers f)))"
    by (rule list_all2_takeI)
  then have "list_all2 row_evolves (take ?n (peers e)) (take ?n (peers f))"
    using nm by (simp add: min_def)
  with de have "list_all2 row_evolves (peers d) (take ?n (peers f))"
    using list_all2_trans [of row_evolves row_evolves row_evolves] row_evolves_trans by blast
  with nm show ?thesis by (simp add: peers_evolve_def)
qed

lemma peers_step_refl [simp]: "peers_step d d"
  by (simp add: peers_step_def)

lemma peers_step_trans: "peers_step d e \<Longrightarrow> peers_step e f \<Longrightarrow> peers_step d f"
  unfolding peers_step_def using peers_evolve_trans by blast

text \<open>One lemma for every UPDATE of the table, one for the INSERT.\<close>

lemma peers_step_update:
  assumes wf_assms: "\<And>p. wf_peers d \<Longrightarrow> p \<in> set (peers d) \<Longrightarrow> c p \<Longrightarrow> row_evolves p (f p)"
      "\<And>p. wf_peers d \<Longrightarrow> p \<in> set (peers d) \<Longrightarrow> c p \<Longrightarrow> row_ok p \<Longrightarrow> row_ok (f p)"
  shows "peers_step d (d\<lparr>peers := update_where c f (peers d)\<rparr>)"
  unfolding peers_step_def
proof (intro impI conjI)
  assume wf: "wf_peers d"
  note assms = wf_assms [OF wf]
  have live: "live (f p) \<Longrightarrow> live p" if "p \<in> set (peers d)" "c p" for p
    using assms(1) [OF that] by (auto simp: row_evolves_def live_def)
  have key: "p_id (f p) = p_id p" "p_device_id (f p) = p_device_id p" "p_server_id (f p) = p_server_id p"
    "p_tunnel_ip (f p) = p_tunnel_ip p" if "p \<in> set (peers d)" "c p" for p
    using assms(1) [OF that] by (auto simp: row_evolves_def)
  show "wf_peers (d\<lparr>peers := update_where c f (peers d)\<rparr>)"
    using wf assms(2) unfolding wf_peers_def
    by (auto simp: map_update_where key live index_update_where list_all_iff set_update_where)
  have "list_all2 row_evolves (peers d) (update_where c f (peers d))"
    using assms(1) by (auto simp: update_where_def list_all2_conv_all_nth)
  then show "peers_evolve d (d\<lparr>peers := update_where c f (peers d)\<rparr>)"
    by (simp add: peers_evolve_def)
qed

lemma peers_step_insert:
  assumes "insert_peer now dev srv key ip d = (r, d')"
  shows "peers_step d d'"
proof (cases "peers d' = peers d")
  case True
  then have "d' = d"
    using assms by (auto simp: insert_peer_def Let_def split: if_splits)
  then show ?thesis by simp
next
  case False
  then have fresh: "\<not> list_ex (\<lambda>p. live p \<and> p_device_id p = dev \<and> p_server_id p = srv) (peers d)"
      "\<not> ip_taken d srv ip"
    and d': "d' = d\<lparr>peers := peers d @ [new_peer now (next_id d) dev srv key ip], next_id := Suc (next_id d)\<rparr>"
    using assms by (auto simp: insert_peer_def Let_def split: if_splits)
  have "wf_peers d'" if "wf_peers d"
    using that fresh
    by (force simp: wf_peers_def d' new_peer_def row_ok_def list_all_iff list_ex_iff ip_taken_def)
  then show ?thesis by (simp add: peers_step_def peers_evolve_def d' list.rel_refl)
qed


text \<open>Every operation of the file is such a step.\<close>

lemma unique_id:
  "wf_peers d \<Longrightarrow> p \<in> set (peers d) \<Longrightarrow> q \<in> set (peers d) \<Longrightarrow> p_id p = p_id q \<Longrightarrow> p = q"
  by (auto simp: wf_peers_def distinct_map dest: inj_onD)

lemma existing_assignment_SomeD:
  "existing_assignment d dev srv = Some p \<Longrightarrow>
   p \<in> set (peers d) \<and> p_device_id p = dev \<and> p_server_id p = srv \<and> p_state p \<noteq> PeerRevoked"
  unfolding existing_assignment_def by (drule find_Some_iff_set) simp

lemma row_evolves_rekey: "p_state p \<noteq> PeerRevoked \<Longrightarrow> row_evolves p (rekey now key p)"
  by (simp add: row_evolves_def rekey_def)

lemma row_ok_rekey: "row_ok p \<Longrightarrow> row_ok (rekey now key p)"
  by (simp add: row_ok_def rekey_def)

lemma row_evolves_begin_revoke: "wanted p \<Longrightarrow> row_evolves p (begin_revoke now p)"
  by (auto simp: row_evolves_def begin_revoke_def wanted_def)

lemma row_ok_begin_revoke: "row_ok p \<Longrightarrow> row_ok (begin_revoke now p)"
  by (simp add: row_ok_def begin_revoke_def)

lemma peers_step_ensure_tx: "peers_step d (snd (ensure_assignment_tx now dev srv key d))"
proof (cases "existing_assignment d dev srv")
  case None
  then show ?thesis
    by (auto simp: ensure_assignment_tx_def split: option.splits sum.splits
        intro: peers_step_insert [OF surjective_pairing])
next
  case (Some p)
  note p = existing_assignment_SomeD [OF Some]
  have "peers_step d (d\<lparr>peers := update_where (\<lambda>q. p_id q = p_id p) (rekey now key) (peers d)\<rparr>)"
  proof (rule peers_step_update)
    fix q assume wf: "wf_peers d" and "q \<in> set (peers d)" "p_id q = p_id p"
    then have "q = p" using p unique_id [OF wf] by blast
    with p show "row_evolves q (rekey now key q)" by (simp add: row_evolves_rekey)
  qed (rule row_ok_rekey)
  with Some show ?thesis
    by (auto simp: ensure_assignment_tx_def split: option.splits)
qed

lemma peers_step_ensure: "peers_step d (snd (ensure_assignment now dev srv key d))"
  using peers_step_ensure_tx [of d now dev srv key]
  by (cases "ensure_assignment_tx now dev srv key d") (simp add: ensure_assignment_def)

lemma peers_step_mark_applied: "peers_step d (snd (mark_applied now i revn d))"
  unfolding mark_applied_def snd_conv
  by (rule peers_step_update) (auto simp: row_evolves_def row_ok_def)

lemma peers_step_mark_revoked: "peers_step d (snd (mark_revoked now i revn d))"
  unfolding mark_revoked_def snd_conv
  by (rule peers_step_update) (auto simp: row_evolves_def row_ok_def)

lemma peers_step_mark_attempt_failed: "peers_step d (snd (mark_attempt_failed i cause retry_at d))"
  unfolding mark_attempt_failed_def snd_conv
  by (rule peers_step_update) (auto simp: row_evolves_def row_ok_def)

lemma peers_step_revoke_where: "peers_step d (snd (revoke_where c now d))"
  unfolding revoke_where_def snd_conv
  by (rule peers_step_update) (auto simp: row_evolves_begin_revoke row_ok_begin_revoke)

lemma peers_step_mark_stale: "peers_step d (snd (mark_server_peers_stale now srv d))"
  unfolding mark_server_peers_stale_def snd_conv
  by (rule peers_step_update) (auto simp: row_evolves_def row_ok_def wanted_def)

lemmas peers_steps = peers_step_ensure peers_step_mark_applied peers_step_mark_revoked
  peers_step_mark_attempt_failed peers_step_revoke_where peers_step_mark_stale

end
