(* ===== verification/Accounts.thy ===== *)
theory Accounts
  imports Peers
begin

text \<open>
  \<open>server/internal/store/users.go\<close>, \<open>devices.go\<close> and \<open>servers.go\<close>: accounts,
  refresh tokens, devices and the server registry. Unique columns, foreign keys and CHECK
  constraints of the schema are the failure branches of the statements.
\<close>

definition fk_violation :: goerr where
  "fk_violation = Sentinel (OtherError ''ERROR: foreign key violation (SQLSTATE 23503)'')"

definition check_violation :: goerr where
  "check_violation = Sentinel (OtherError ''ERROR: check violation (SQLSTATE 23514)'')"

definition no_rows :: goerr where
  "no_rows = map_err (Sentinel ErrNoRows)"

definition conflict :: goerr where
  "conflict = map_err (Sentinel UniqueViolation)"

lemma store_error_simps [simp]:
  "no_rows = Sentinel ErrNotFound" "conflict = Sentinel ErrConflict"
  by (simp_all add: no_rows_def conflict_def)

section \<open>Users\<close>

text \<open>Emails are \<open>citext\<close>: compared without case.\<close>

definition email_eq :: "string option \<Rightarrow> string option \<Rightarrow> bool" where
  "email_eq a b = (case (a, b) of (Some x, Some y) \<Rightarrow> equal_fold x y | _ \<Rightarrow> False)"

definition text_eq :: "string option \<Rightarrow> string option \<Rightarrow> bool" where
  "text_eq a b = (case (a, b) of (Some x, Some y) \<Rightarrow> x = y | _ \<Rightarrow> False)"

definition create_user :: "time \<Rightarrow> string \<Rightarrow> string \<Rightarrow> string \<Rightarrow> db \<Rightarrow> (goerr + user_row) \<times> db" where
  "create_user now email phone hash d =
     (let e = nullif_empty email; ph = nullif_empty phone in
      if e = None \<and> ph = None then (Inl check_violation, d)
      else if list_ex (\<lambda>u. email_eq (u_email u) e \<or> text_eq (u_phone u) ph) (users d) then (Inl conflict, d)
      else let u = \<lparr>u_id = next_id d, u_email = e, u_phone = ph, u_password_hash = hash,
                    u_status = UserActive, u_created_at = now\<rparr>
           in (Inr u, d\<lparr>users := users d @ [u], next_id := Suc (next_id d)\<rparr>))"

definition user_by_identifier :: "string \<Rightarrow> db \<Rightarrow> (goerr + user_row) \<times> db" where
  "user_by_identifier ident d =
     ((case find (\<lambda>u. u_status u \<noteq> UserDeleted \<and>
                 (email_eq (u_email u) (Some ident) \<or> text_eq (u_phone u) (Some ident))) (users d) of
         None \<Rightarrow> Inl no_rows | Some u \<Rightarrow> Inr u), d)"

definition user_by_id :: "uuid \<Rightarrow> db \<Rightarrow> (goerr + user_row) \<times> db" where
  "user_by_id i d =
     ((case find (\<lambda>u. u_id u = i \<and> u_status u \<noteq> UserDeleted) (users d) of
         None \<Rightarrow> Inl no_rows | Some u \<Rightarrow> Inr u), d)"

section \<open>Refresh tokens\<close>

definition token_live :: "time \<Rightarrow> token_row \<Rightarrow> bool" where
  "token_live now t \<longleftrightarrow> t_revoked_at t = None \<and> now < t_expires_at t"

definition insert_token ::
  "uuid \<Rightarrow> uuid option \<Rightarrow> string \<Rightarrow> time \<Rightarrow> db \<Rightarrow> (goerr + uuid) \<times> db" where
  "insert_token uid dev hash expires d =
     (if \<not> list_ex (\<lambda>u. u_id u = uid) (users d) then (Inl fk_violation, d)
      else if list_ex (\<lambda>t. t_hash t = hash) (refresh_tokens d) then (Inl conflict, d)
      else (Inr (next_id d),
            d\<lparr>refresh_tokens := refresh_tokens d @
                [\<lparr>t_id = next_id d, t_user_id = uid, t_device_id = dev, t_hash = hash,
                  t_expires_at = expires, t_revoked_at = None\<rparr>],
              next_id := Suc (next_id d)\<rparr>))"

definition create_refresh_token ::
  "uuid \<Rightarrow> uuid option \<Rightarrow> string \<Rightarrow> time \<Rightarrow> db \<Rightarrow> (goerr + uuid) \<times> db" where
  "create_refresh_token uid dev hash expires d = insert_token uid dev hash expires d"

text \<open>One transaction: revoke the presented token, insert its successor, or do neither.\<close>

definition rotate_refresh_token ::
  "time \<Rightarrow> string \<Rightarrow> string \<Rightarrow> time \<Rightarrow> db \<Rightarrow> (goerr + (uuid \<times> uuid option)) \<times> db" where
  "rotate_refresh_token now old_hash new_hash expires d =
     (case find (\<lambda>t. t_hash t = old_hash \<and> token_live now t) (refresh_tokens d) of
        None \<Rightarrow> (Inl no_rows, d)
      | Some t \<Rightarrow>
          (let d1 = d\<lparr>refresh_tokens :=
                 update_where (\<lambda>t. t_hash t = old_hash \<and> token_live now t)
                   (\<lambda>t. t\<lparr>t_revoked_at := Some now\<rparr>) (refresh_tokens d)\<rparr>
           in case insert_token (t_user_id t) (t_device_id t) new_hash expires d1 of
                (Inl e, d2) \<Rightarrow> (Inl e, d)
              | (Inr i, d2) \<Rightarrow> (Inr (t_user_id t, t_device_id t), d2)))"

definition revoke_refresh_token :: "time \<Rightarrow> string \<Rightarrow> db \<Rightarrow> (goerr + unit) \<times> db" where
  "revoke_refresh_token now hash d =
     (Inr (), d\<lparr>refresh_tokens := update_where (\<lambda>t. t_hash t = hash \<and> t_revoked_at t = None)
        (\<lambda>t. t\<lparr>t_revoked_at := Some now\<rparr>) (refresh_tokens d)\<rparr>)"

section \<open>Devices\<close>

definition upsert_device ::
  "time \<Rightarrow> uuid \<Rightarrow> string \<Rightarrow> string \<Rightarrow> string \<Rightarrow> string \<Rightarrow> db \<Rightarrow> (goerr + device) \<times> db" where
  "upsert_device now uid name platform key version d =
     (case find (\<lambda>v. d_public_key v = key) (devices d) of
        Some v \<Rightarrow>
          (if d_user_id v = uid then
             let f = (\<lambda>v. v\<lparr>d_name := name,
                        d_app_version := (case nullif_empty version of None \<Rightarrow> d_app_version v | Some s \<Rightarrow> Some s),
                        d_last_seen_at := Some now, d_revoked_at := None\<rparr>)
             in (Inr (f v), d\<lparr>devices := update_where (\<lambda>w. d_public_key w = key) f (devices d)\<rparr>)
           else (Inl (Sentinel ErrConflict), d))
      | None \<Rightarrow>
          (let v = \<lparr>d_id = next_id d, d_user_id = uid, d_name = name, d_platform = platform,
                    d_public_key = key, d_app_version = nullif_empty version, d_created_at = now,
                    d_last_seen_at = Some now, d_revoked_at = None\<rparr>
           in if \<not> list_ex (\<lambda>u. u_id u = uid) (users d) then (Inl fk_violation, d)
              else (Inr v, d\<lparr>devices := devices d @ [v], next_id := Suc (next_id d)\<rparr>)))"

definition device_by_id :: "uuid \<Rightarrow> db \<Rightarrow> (goerr + device) \<times> db" where
  "device_by_id i d =
     ((case find (\<lambda>v. d_id v = i) (devices d) of None \<Rightarrow> Inl no_rows | Some v \<Rightarrow> Inr v), d)"

definition devices_by_user :: "uuid \<Rightarrow> db \<Rightarrow> (goerr + device list) \<times> db" where
  "devices_by_user uid d =
     (Inr (sort_key d_created_at
        (filter (\<lambda>v. d_user_id v = uid \<and> d_revoked_at v = None) (devices d))), d)"

definition rotate_device_key :: "uuid \<Rightarrow> string \<Rightarrow> db \<Rightarrow> (goerr + unit) \<times> db" where
  "rotate_device_key dev key d =
     (if \<not> list_ex (\<lambda>v. d_id v = dev \<and> d_revoked_at v = None) (devices d)
      then (Inl (Sentinel ErrNotFound), d)
      else if list_ex (\<lambda>v. d_id v \<noteq> dev \<and> d_public_key v = key) (devices d) then (Inl conflict, d)
      else (Inr (), d\<lparr>devices := update_where (\<lambda>v. d_id v = dev \<and> d_revoked_at v = None)
                      (\<lambda>v. v\<lparr>d_public_key := key\<rparr>) (devices d)\<rparr>))"

definition revoke_device :: "time \<Rightarrow> uuid \<Rightarrow> db \<Rightarrow> (goerr + unit) \<times> db" where
  "revoke_device now dev d =
     (Inr (), d\<lparr>devices := update_where (\<lambda>v. d_id v = dev \<and> d_revoked_at v = None)
        (\<lambda>v. v\<lparr>d_revoked_at := Some now\<rparr>) (devices d)\<rparr>)"

definition touch_device :: "uuid \<Rightarrow> time \<Rightarrow> db \<Rightarrow> (goerr + unit) \<times> db" where
  "touch_device dev seen d =
     (Inr (), d\<lparr>devices := update_where (\<lambda>v. d_id v = dev)
        (\<lambda>v. v\<lparr>d_last_seen_at := Some seen\<rparr>) (devices d)\<rparr>)"

section \<open>Servers\<close>

definition server_by_id :: "uuid \<Rightarrow> db \<Rightarrow> (goerr + server) \<times> db" where
  "server_by_id i d =
     ((case find_server_row d i of None \<Rightarrow> Inl no_rows | Some s \<Rightarrow> Inr (scan_server d s)), d)"

definition server_by_code :: "string \<Rightarrow> db \<Rightarrow> (goerr + server) \<times> db" where
  "server_by_code code d =
     ((case find (\<lambda>s. s_code s = code) (servers d) of
         None \<Rightarrow> Inl no_rows | Some s \<Rightarrow> Inr (scan_server d s)), d)"

definition list_servers :: "bool \<Rightarrow> db \<Rightarrow> (goerr + server list) \<times> db" where
  "list_servers only_active d =
     (Inr (map (scan_server d) (sort_key (\<lambda>s. (s_priority s, s_code s))
        (filter (\<lambda>s. only_active \<longrightarrow> s_status s = ServerActive) (servers d)))), d)"

text \<open>
  \<open>UpsertServerParams\<close> is a server row without its identifier and last contact; the upsert
  overwrites every other column of a row with the same code.
\<close>

definition upsert_server :: "server_row \<Rightarrow> db \<Rightarrow> (goerr + server) \<times> db" where
  "upsert_server p d =
     (case find (\<lambda>s. s_code s = s_code p) (servers d) of
        Some s \<Rightarrow>
          (let s' = p\<lparr>s_id := s_id s, s_last_seen_at := s_last_seen_at s\<rparr>;
               d' = d\<lparr>servers := update_where (\<lambda>r. s_code r = s_code p) (\<lambda>_. s') (servers d)\<rparr>
           in server_by_id (s_id s) d')
      | None \<Rightarrow>
          (let s' = p\<lparr>s_id := next_id d, s_last_seen_at := None\<rparr>;
               d' = d\<lparr>servers := servers d @ [s'], next_id := Suc (next_id d)\<rparr>
           in server_by_id (next_id d) d'))"

definition set_server_status :: "string \<Rightarrow> server_status \<Rightarrow> db \<Rightarrow> (goerr + unit) \<times> db" where
  "set_server_status code status d =
     (if count_where (\<lambda>s. s_code s = code) (servers d) = 0 then (Inl (Sentinel ErrNotFound), d)
      else (Inr (), d\<lparr>servers := update_where (\<lambda>s. s_code s = code)
                      (\<lambda>s. s\<lparr>s_status := status\<rparr>) (servers d)\<rparr>))"

definition mark_server_seen :: "time \<Rightarrow> uuid \<Rightarrow> db \<Rightarrow> (goerr + unit) \<times> db" where
  "mark_server_seen now i d =
     (Inr (), d\<lparr>servers := update_where (\<lambda>s. s_id s = i)
        (\<lambda>s. s\<lparr>s_last_seen_at := Some now\<rparr>) (servers d)\<rparr>)"

end
