(* ===== verification/Billing.thy ===== *)
theory Billing
  imports Accounts
begin

text \<open>
  \<open>server/internal/store/subscriptions.go\<close> and \<open>payments.go\<close>: prepaid time blocks,
  the entitlement they give, payments and webhook receipts.
\<close>

section \<open>Plans and time blocks\<close>

definition plan_by_code :: "string \<Rightarrow> db \<Rightarrow> (goerr + plan) \<times> db" where
  "plan_by_code code d =
     ((case find (\<lambda>p. pl_code p = code \<and> pl_active p) (plans d) of
         None \<Rightarrow> Inl no_rows | Some p \<Rightarrow> Inr p), d)"

definition list_plans :: "db \<Rightarrow> (goerr + plan list) \<times> db" where
  "list_plans d = (Inr (sort_key pl_sort_order (filter pl_active (plans d))), d)"

text \<open>The blocks of a user that have not lapsed or been revoked, and where the last one ends.\<close>

definition open_blocks :: "time \<Rightarrow> uuid \<Rightarrow> db \<Rightarrow> subscription list" where
  "open_blocks now uid d =
     filter (\<lambda>s. sb_user_id s = uid \<and> sb_revoked_at s = None \<and> now < sb_expires_at s) (subscriptions d)"

definition block_start :: "time \<Rightarrow> uuid \<Rightarrow> db \<Rightarrow> time" where
  "block_start now uid d = max now (foldr max (map sb_expires_at (open_blocks now uid d)) now)"

definition valid_sources :: "string list" where
  "valid_sources = [''paystack'', ''free'', ''manual'', ''promo'']"

definition grant_time_block ::
  "time \<Rightarrow> uuid \<Rightarrow> string \<Rightarrow> string \<Rightarrow> db \<Rightarrow> (goerr + subscription) \<times> db" where
  "grant_time_block now uid code source d =
     (case find (\<lambda>p. pl_code p = code) (plans d) of
        None \<Rightarrow> (Inl no_rows, d)
      | Some p \<Rightarrow>
          (let start = block_start now uid d;
               s = \<lparr>sb_id = next_id d, sb_user_id = uid, sb_plan_code = pl_code p, sb_source = source,
                    sb_starts_at = start, sb_expires_at = start + pl_duration p,
                    sb_data_cap_bytes = pl_data_cap_bytes p, sb_revoked_at = None\<rparr>
           in if \<not> list_ex (\<lambda>u. u_id u = uid) (users d) then (Inl fk_violation, d)
              else if source \<notin> set valid_sources \<or> pl_duration p \<le> 0 then (Inl check_violation, d)
              else (Inr s, d\<lparr>subscriptions := subscriptions d @ [s], next_id := Suc (next_id d)\<rparr>)))"

section \<open>Entitlement\<close>

definition running :: "time \<Rightarrow> subscription \<Rightarrow> bool" where
  "running now s \<longleftrightarrow> sb_revoked_at s = None \<and> sb_starts_at s \<le> now \<and> now < sb_expires_at s"

definition running_blocks :: "time \<Rightarrow> uuid \<Rightarrow> db \<Rightarrow> (subscription \<times> plan) list" where
  "running_blocks now uid d =
     [(s, p). s \<leftarrow> filter (\<lambda>s. sb_user_id s = uid \<and> running now s) (subscriptions d),
              p \<leftarrow> filter (\<lambda>p. pl_code p = sb_plan_code s) (plans d)]"

definition entitlement_of :: "time \<Rightarrow> uuid \<Rightarrow> db \<Rightarrow> entitlement" where
  "entitlement_of now uid d =
     (case sort_key (\<lambda>(s, p). (- pl_device_limit p, - sb_expires_at s)) (running_blocks now uid d) of
        [] \<Rightarrow> no_entitlement
      | (s, p) # _ \<Rightarrow> \<lparr>e_active = True, e_plan_code = sb_plan_code s, e_expires_at = sb_expires_at s,
                        e_device_limit = pl_device_limit p\<rparr>)"

definition get_entitlement :: "time \<Rightarrow> uuid \<Rightarrow> db \<Rightarrow> (goerr + entitlement) \<times> db" where
  "get_entitlement now uid d = (Inr (entitlement_of now uid d), d)"

definition has_subscription_of_source :: "uuid \<Rightarrow> string \<Rightarrow> db \<Rightarrow> (goerr + bool) \<times> db" where
  "has_subscription_of_source uid source d =
     (Inr (list_ex (\<lambda>s. sb_user_id s = uid \<and> sb_source s = source) (subscriptions d)), d)"

text \<open>Users who still hold wanted peers but no running block.\<close>

definition covered :: "time \<Rightarrow> uuid \<Rightarrow> db \<Rightarrow> bool" where
  "covered now uid d \<longleftrightarrow> list_ex (\<lambda>s. sb_user_id s = uid \<and> running now s) (subscriptions d)"

definition expired_user_ids :: "time \<Rightarrow> nat \<Rightarrow> db \<Rightarrow> (goerr + uuid list) \<times> db" where
  "expired_user_ids now limit d =
     (Inr (take limit (remdups
        [d_user_id v. p \<leftarrow> filter wanted (peers d),
                      v \<leftarrow> filter (\<lambda>v. d_id v = p_device_id p \<and> \<not> covered now (d_user_id v) d) (devices d)])), d)"

section \<open>Payments and webhook receipts\<close>

text \<open>\<open>False\<close> means the receipt was already there.\<close>

definition record_webhook_event ::
  "string \<Rightarrow> string \<Rightarrow> string \<Rightarrow> string \<Rightarrow> db \<Rightarrow> (goerr + bool) \<times> db" where
  "record_webhook_event provider event_id event_type payload d =
     (if list_ex (\<lambda>w. wh_provider w = provider \<and> wh_event_id w = event_id) (webhook_events d)
      then (Inr False, d)
      else (Inr True, d\<lparr>webhook_events := webhook_events d @
              [\<lparr>wh_id = next_id d, wh_provider = provider, wh_event_id = event_id,
                wh_event_type = event_type, wh_payload = payload, wh_handled_at = None\<rparr>],
              next_id := Suc (next_id d)\<rparr>))"

definition mark_webhook_handled :: "time \<Rightarrow> string \<Rightarrow> string \<Rightarrow> db \<Rightarrow> (goerr + unit) \<times> db" where
  "mark_webhook_handled now provider event_id d =
     (Inr (), d\<lparr>webhook_events :=
        update_where (\<lambda>w. wh_provider w = provider \<and> wh_event_id w = event_id)
          (\<lambda>w. w\<lparr>wh_handled_at := Some now\<rparr>) (webhook_events d)\<rparr>)"

definition is_payment :: "string \<Rightarrow> string \<Rightarrow> payment_row \<Rightarrow> bool" where
  "is_payment provider ref p \<longleftrightarrow> py_provider p = provider \<and> py_provider_ref p = ref"

text \<open>The parameters are a payment row without its identifier; empty fields get their defaults.\<close>

definition payment_defaults :: "payment_row \<Rightarrow> payment_row" where
  "payment_defaults p = p\<lparr>
     py_provider := (if py_provider p = [] then ''paystack'' else py_provider p),
     py_currency := (if py_currency p = [] then ''NGN'' else py_currency p),
     py_payload := (if py_payload p = [] then ''{}'' else py_payload p)\<rparr>"

text \<open>
  \<open>None\<close> for the user is the empty string of the Go struct, which is no uuid. The foreign keys
  are checked for a row that is inserted.
\<close>

definition upsert_payment :: "payment_row \<Rightarrow> db \<Rightarrow> (goerr + uuid) \<times> db" where
  "upsert_payment params d =
     (let p = payment_defaults params in
      if py_user_id p = None then (Inl (Sentinel (OtherError ''ERROR: invalid uuid (SQLSTATE 22P02)'')), d)
      else case find (is_payment (py_provider p) (py_provider_ref p)) (payments d) of
        Some q \<Rightarrow>
          (Inr (py_id q),
           d\<lparr>payments := update_where (is_payment (py_provider p) (py_provider_ref p))
              (\<lambda>q. q\<lparr>py_status := (if py_status q = PayPending then py_status p else py_status q),
                     py_payload := py_payload p\<rparr>) (payments d)\<rparr>)
      | None \<Rightarrow>
          (if \<not> list_ex (\<lambda>u. Some (u_id u) = py_user_id p) (users d) \<or>
              \<not> list_ex (\<lambda>l. Some (pl_code l) = py_plan_code p) (plans d)
           then (Inl fk_violation, d)
           else (Inr (next_id d),
                 d\<lparr>payments := payments d @ [p\<lparr>py_id := next_id d\<rparr>], next_id := Suc (next_id d)\<rparr>)))"

definition payment_by_ref :: "string \<Rightarrow> string \<Rightarrow> db \<Rightarrow> (goerr + payment_row) \<times> db" where
  "payment_by_ref provider ref d =
     ((case find (is_payment provider ref) (payments d) of None \<Rightarrow> Inl no_rows | Some p \<Rightarrow> Inr p), d)"

text \<open>The UPDATE is guarded by the status, so only the first settlement sees a row.\<close>

definition settle :: "string \<Rightarrow> payment_row \<Rightarrow> payment_row" where
  "settle payload p = p\<lparr>py_status := PaySuccess, py_payload := payload\<rparr>"

definition settle_payment ::
  "string \<Rightarrow> string \<Rightarrow> string \<Rightarrow> db \<Rightarrow> (goerr + (payment_row \<times> bool)) \<times> db" where
  "settle_payment provider ref payload d =
     (let body = (if payload = [] then ''{}'' else payload);
          unsettled = (\<lambda>p. is_payment provider ref p \<and> py_status p \<noteq> PaySuccess) in
      case find unsettled (payments d) of
        Some p \<Rightarrow> (Inr (settle body p, True),
                    d\<lparr>payments := update_where unsettled (settle body) (payments d)\<rparr>)
      | None \<Rightarrow>
          (case payment_by_ref provider ref d of
             (Inl e, d') \<Rightarrow> (Inl e, d')
           | (Inr p, d') \<Rightarrow> (Inr (p, False), d')))"

end
