(* ===== verification/Store.thy ===== *)
theory Store
  imports Billing
begin

text \<open>
  The world a request handler or the reconciler runs in: the database behind the \<open>Storer\<close>
  interface of \<open>provision.go\<close>, the edge boxes, the clock, and the two sources of uncertainty.

  Each store call consults \<open>w_faults\<close>: a call is \<open>Fine\<close>, is \<open>Lost\<close> before it takes
  effect (a connection error, a cancelled context, a rolled back transaction), or is \<open>Unacked\<close>,
  committed while the caller sees an error. An exhausted list means no further faults. The draws of
  \<open>rand.Float64()\<close> are \<open>w_draws\<close>. The clock stands still during one call of a handler.
\<close>

datatype fault = Fine | Lost | Unacked

record 'e world =
  w_db :: db
  w_edge :: 'e
  w_now :: time
  w_faults :: "fault list"
  w_draws :: "rat list"

type_synonym ('e, 'a) proc = "('e world, 'a) state"

definition driver_error :: goerr where
  "driver_error = Sentinel (OtherError ''connection lost'')"

definition db_call :: "(time \<Rightarrow> db \<Rightarrow> (goerr + 'a) \<times> db) \<Rightarrow> ('e, goerr + 'a) proc" where
  "db_call f = State (\<lambda>w.
     let (r, d) = f (w_now w) (w_db w); rest = tl (w_faults w) in
     case w_faults w of
       [] \<Rightarrow> (r, w\<lparr>w_db := d\<rparr>)
     | Fine # _ \<Rightarrow> (r, w\<lparr>w_db := d, w_faults := rest\<rparr>)
     | Lost # _ \<Rightarrow> (Inl driver_error, w\<lparr>w_faults := rest\<rparr>)
     | Unacked # _ \<Rightarrow> (Inl driver_error, w\<lparr>w_db := d, w_faults := rest\<rparr>))"

definition edge_call :: "('e \<Rightarrow> 'r \<times> 'e) \<Rightarrow> ('e, 'r) proc" where
  "edge_call f = State (\<lambda>w. let (r, e) = f (w_edge w) in (r, w\<lparr>w_edge := e\<rparr>))"

definition clock :: "('e, time) proc" where
  "clock = State (\<lambda>w. (w_now w, w))"

definition float64_draw :: "('e, rat) proc" where
  "float64_draw = State (\<lambda>w. case w_draws w of [] \<Rightarrow> (0, w) | u # us \<Rightarrow> (u, w\<lparr>w_draws := us\<rparr>))"

lemma run_db_call_quiet [simp]:
  "w_faults w = [] \<Longrightarrow> run_state (db_call f) w = (fst (f (w_now w) (w_db w)), w\<lparr>w_db := snd (f (w_now w) (w_db w))\<rparr>)"
  by (simp add: db_call_def split: prod.splits)

lemma run_edge_call [simp]:
  "run_state (edge_call f) w = (fst (f (w_edge w)), w\<lparr>w_edge := snd (f (w_edge w))\<rparr>)"
  by (simp add: edge_call_def split: prod.splits)

lemma run_clock [simp]: "run_state clock w = (w_now w, w)"
  by (simp add: clock_def)

text \<open>A call that only reads: the world is as before, and the answer is an error or the truth.\<close>

lemma db_call_read:
  assumes "run_state (db_call f) w = (r, w')" and "\<And>now d. snd (f now d) = d"
  shows "w_db w' = w_db w \<and> w_edge w' = w_edge w \<and> w_now w' = w_now w \<and>
    (r = Inl driver_error \<or> r = fst (f (w_now w) (w_db w)))"
  using assms(1) assms(2) [of "w_now w" "w_db w"]
  by (auto simp: db_call_def Let_def split: prod.splits list.splits fault.splits)

lemma yields_db_call:
  "P (Inl driver_error) \<Longrightarrow> (\<And>now d. P (fst (f now d))) \<Longrightarrow> yields P (db_call f)"
  unfolding yields_def db_call_def
  by (auto simp: Let_def split: prod.splits list.splits fault.splits) (metis fst_conv)+

text \<open>The methods of \<open>Storer\<close>, as the engine calls them.\<close>

definition store_entitlement :: "uuid \<Rightarrow> ('e, goerr + entitlement) proc" where
  "store_entitlement uid = db_call (\<lambda>now. get_entitlement now uid)"

definition store_device_by_id :: "uuid \<Rightarrow> ('e, goerr + device) proc" where
  "store_device_by_id i = db_call (\<lambda>now. device_by_id i)"

definition store_devices_by_user :: "uuid \<Rightarrow> ('e, goerr + device list) proc" where
  "store_devices_by_user uid = db_call (\<lambda>now. devices_by_user uid)"

definition store_servers :: "bool \<Rightarrow> ('e, goerr + server list) proc" where
  "store_servers only_active = db_call (\<lambda>now. list_servers only_active)"

definition store_server_by_code :: "string \<Rightarrow> ('e, goerr + server) proc" where
  "store_server_by_code code = db_call (\<lambda>now. server_by_code code)"

definition store_server_by_id :: "uuid \<Rightarrow> ('e, goerr + server) proc" where
  "store_server_by_id i = db_call (\<lambda>now. server_by_id i)"

definition store_ensure_assignment :: "uuid \<Rightarrow> uuid \<Rightarrow> string \<Rightarrow> ('e, goerr + peer_assignment) proc" where
  "store_ensure_assignment dev srv key = db_call (\<lambda>now. ensure_assignment now dev srv key)"

definition store_mark_applied :: "uuid \<Rightarrow> int \<Rightarrow> ('e, goerr + unit) proc" where
  "store_mark_applied i revn = db_call (\<lambda>now. mark_applied now i revn)"

definition store_mark_revoked :: "uuid \<Rightarrow> int \<Rightarrow> ('e, goerr + unit) proc" where
  "store_mark_revoked i revn = db_call (\<lambda>now. mark_revoked now i revn)"

definition store_mark_attempt_failed :: "uuid \<Rightarrow> string \<Rightarrow> time \<Rightarrow> ('e, goerr + unit) proc" where
  "store_mark_attempt_failed i cause retry_at = db_call (\<lambda>now. mark_attempt_failed i cause retry_at)"

definition store_begin_revoke_for_user :: "uuid \<Rightarrow> ('e, goerr + nat) proc" where
  "store_begin_revoke_for_user uid = db_call (\<lambda>now. begin_revoke_for_user now uid)"

definition store_begin_revoke_for_device :: "uuid \<Rightarrow> ('e, goerr + nat) proc" where
  "store_begin_revoke_for_device dev = db_call (\<lambda>now. begin_revoke_for_device now dev)"

definition store_begin_revoke_other_servers :: "uuid \<Rightarrow> uuid \<Rightarrow> ('e, goerr + nat) proc" where
  "store_begin_revoke_other_servers dev keep = db_call (\<lambda>now. begin_revoke_other_servers now dev keep)"

definition store_due_assignments :: "nat \<Rightarrow> ('e, goerr + (peer_assignment \<times> server) list) proc" where
  "store_due_assignments limit = db_call (\<lambda>now. due_assignments now limit)"

definition store_live_peers_for_server :: "uuid \<Rightarrow> ('e, goerr + peer_assignment list) proc" where
  "store_live_peers_for_server srv = db_call (\<lambda>now. live_peers_for_server srv)"

definition store_expired_user_ids :: "nat \<Rightarrow> ('e, goerr + uuid list) proc" where
  "store_expired_user_ids limit = db_call (\<lambda>now. expired_user_ids now limit)"

lemmas store_defs = store_entitlement_def store_device_by_id_def store_devices_by_user_def
  store_servers_def store_server_by_code_def store_server_by_id_def store_ensure_assignment_def
  store_mark_applied_def store_mark_revoked_def store_mark_attempt_failed_def
  store_begin_revoke_for_user_def store_begin_revoke_for_device_def
  store_begin_revoke_other_servers_def store_due_assignments_def
  store_live_peers_for_server_def store_expired_user_ids_def

section \<open>What every run preserves of the peer table\<close>

text \<open>
  \<open>on_db R\<close> lifts a relation on databases to worlds. A store call keeps it under every fault if
  the operation does; edge calls, the clock and the random source do not touch the database.
\<close>

definition on_db :: "(db \<Rightarrow> db \<Rightarrow> bool) \<Rightarrow> 'e world \<Rightarrow> 'e world \<Rightarrow> bool" where
  "on_db R w w' \<longleftrightarrow> R (w_db w) (w_db w')"

lemma preorder_on_db: "preorder R \<Longrightarrow> preorder (on_db R)"
  unfolding preorder_def on_db_def by blast

lemma preorder_peers_step: "preorder peers_step"
  by (rule preorderI) (auto intro: peers_step_trans)

lemma preorder_on_db_peers_step [simp, intro]: "preorder (on_db peers_step)"
  by (rule preorder_on_db [OF preorder_peers_step])

lemma keeps_db_call:
  assumes "preorder R" and "\<And>now d. R d (snd (f now d))"
  shows "keeps (on_db R) (db_call f)"
proof (rule keepsI)
  fix w r w' assume run: "run_state (db_call f) w = (r, w')"
  obtain x d where f: "f (w_now w) (w_db w) = (x, d)" by (cases "f (w_now w) (w_db w)")
  have "R (w_db w) d" using assms(2) [of "w_db w" "w_now w"] f by simp
  moreover have "R (w_db w) (w_db w)" using assms(1) by (simp add: preorder_def)
  ultimately show "on_db R w w'"
    using run f by (auto simp: db_call_def on_db_def Let_def split: list.splits fault.splits)
qed

lemma keeps_edge_call [keeps_intros]: "preorder R \<Longrightarrow> keeps (on_db R) (edge_call f)"
  by (auto simp: keeps_def on_db_def preorder_def)

lemma keeps_clock [keeps_intros]: "preorder R \<Longrightarrow> keeps (on_db R) clock"
  by (auto simp: keeps_def on_db_def preorder_def)

lemma keeps_float64_draw [keeps_intros]: "preorder R \<Longrightarrow> keeps (on_db R) float64_draw"
  by (auto simp: keeps_def on_db_def preorder_def float64_draw_def split: list.splits)

lemma peers_step_read [simp]:
  "snd (get_entitlement now uid d) = d" "snd (device_by_id i d) = d" "snd (devices_by_user uid d) = d"
  "snd (list_servers b d) = d" "snd (server_by_code c d) = d" "snd (server_by_id i d) = d"
  "snd (due_assignments now n d) = d" "snd (live_peers_for_server s d) = d"
  "snd (expired_user_ids now n d) = d"
  by (simp_all add: get_entitlement_def device_by_id_def devices_by_user_def list_servers_def
      server_by_code_def server_by_id_def due_assignments_def live_peers_for_server_def
      expired_user_ids_def)

lemma keeps_store [keeps_intros]:
  "keeps (on_db peers_step) (store_entitlement uid)"
  "keeps (on_db peers_step) (store_device_by_id i)"
  "keeps (on_db peers_step) (store_devices_by_user uid)"
  "keeps (on_db peers_step) (store_servers b)"
  "keeps (on_db peers_step) (store_server_by_code c)"
  "keeps (on_db peers_step) (store_server_by_id i)"
  "keeps (on_db peers_step) (store_ensure_assignment dev srv key)"
  "keeps (on_db peers_step) (store_mark_applied i revn)"
  "keeps (on_db peers_step) (store_mark_revoked i revn)"
  "keeps (on_db peers_step) (store_mark_attempt_failed i cause retry_at)"
  "keeps (on_db peers_step) (store_begin_revoke_for_user uid)"
  "keeps (on_db peers_step) (store_begin_revoke_for_device dev)"
  "keeps (on_db peers_step) (store_begin_revoke_other_servers dev keep)"
  "keeps (on_db peers_step) (store_due_assignments n)"
  "keeps (on_db peers_step) (store_live_peers_for_server srv)"
  "keeps (on_db peers_step) (store_expired_user_ids n)"
  unfolding store_defs begin_revoke_for_user_def begin_revoke_for_device_def begin_revoke_other_servers_def
  by (auto intro!: keeps_db_call preorder_peers_step simp: peers_steps)

end
