(* ===== verification/Selector.thy ===== *)
theory Selector
  imports Store
begin

text \<open>
  \<open>server/internal/provision/selector.go\<close>: which servers a provisioning request tries, and in
  which order. \<open>sort.SliceStable\<close> is the insertion sort Go runs on blocks of the slice; the
  comparison is the closure of the source, and the order it gives is shown to be the stable sort
  by one lexicographic key.
\<close>

section \<open>Stable sorting\<close>

text \<open>
  One round of \<open>insertionSort\<close>: the new element moves left past larger ones. The sorted prefix
  is held in reverse.
\<close>

fun shift_in :: "('a \<Rightarrow> 'a \<Rightarrow> bool) \<Rightarrow> 'a \<Rightarrow> 'a list \<Rightarrow> 'a list" where
  "shift_in lt x [] = [x]"
| "shift_in lt x (y # ys) = (if lt x y then y # shift_in lt x ys else x # y # ys)"

definition slice_stable :: "('a \<Rightarrow> 'a \<Rightarrow> bool) \<Rightarrow> 'a list \<Rightarrow> 'a list" where
  "slice_stable lt xs = rev (fold (shift_in lt) xs [])"

lemma mset_shift_in [simp]: "mset (shift_in lt x ys) = add_mset x (mset ys)"
  by (induction ys) auto

lemma set_shift_in [simp]: "set (shift_in lt x ys) = insert x (set ys)"
  by (induction ys) auto

lemma filter_shift_in:
  fixes f :: "'a \<Rightarrow> 'k :: linorder"
  assumes "\<And>a b. lt a b \<longleftrightarrow> f a < f b"
  shows "filter (\<lambda>z. f z = k) (shift_in lt x ys) =
    (if f x = k then x # filter (\<lambda>z. f z = k) ys else filter (\<lambda>z. f z = k) ys)"
  using assms by (induction ys) auto

lemma sorted_shift_in:
  fixes f :: "'a \<Rightarrow> 'k :: linorder"
  assumes "\<And>a b. lt a b \<longleftrightarrow> f a < f b" and "sorted_wrt (\<ge>) (map f ys)"
  shows "sorted_wrt (\<ge>) (map f (shift_in lt x ys))"
  using assms(2)
proof (induction ys)
  case (Cons y ys)
  with assms(1) show ?case by auto
qed simp

lemma slice_stable_sort_key:
  fixes f :: "'a \<Rightarrow> 'k :: linorder"
  assumes lt: "\<And>a b. lt a b \<longleftrightarrow> f a < f b"
  shows "slice_stable lt xs = sort_key f xs"
proof -
  let ?run = "\<lambda>xs. fold (shift_in lt) xs []"
  have inv: "mset (?run xs) = mset xs \<and> sorted_wrt (\<ge>) (map f (?run xs)) \<and>
        (\<forall>k. filter (\<lambda>z. f z = k) (?run xs) = rev (filter (\<lambda>z. f z = k) xs))" for xs
    by (induction xs rule: rev_induct)
      (simp_all add: filter_shift_in [OF lt] sorted_shift_in [OF lt])
  have "sorted (map f (rev (?run xs)))"
    using inv [of xs] by (simp add: sorted_wrt_rev flip: rev_map)
  then have "sort_key f xs = rev (?run xs)"
  proof (rule properties_for_sort_key [rotated 2])
    show "mset (rev (?run xs)) = mset xs" using inv [of xs] by simp
    show "filter (\<lambda>x. f k = f x) (rev (?run xs)) = filter (\<lambda>x. f k = f x) xs" for k
    proof -
      have "filter (\<lambda>z. f z = f k) (rev (?run xs)) = filter (\<lambda>z. f z = f k) xs"
        using inv [of xs] by (simp add: rev_filter [symmetric])
      then show ?thesis by (simp add: eq_commute)
    qed
  qed
  then show ?thesis by (simp add: slice_stable_def)
qed

section \<open>Ordering servers\<close>

definition at_capacity :: "server \<Rightarrow> bool" where
  "at_capacity s \<longleftrightarrow> 0 < s_capacity_peers s \<and> s_capacity_peers s \<le> s_live_peers s"

definition server_less :: "string \<Rightarrow> server \<Rightarrow> server \<Rightarrow> bool" where
  "server_less cc a b =
     (let a_full = at_capacity a; b_full = at_capacity b;
          a_home = equal_fold (s_country_code a) cc; b_home = equal_fold (s_country_code b) cc in
      if a_full \<noteq> b_full then \<not> a_full
      else if s_priority a \<noteq> s_priority b then s_priority a < s_priority b
      else if cc \<noteq> [] \<and> a_home \<noteq> b_home then a_home
      else if s_live_peers a \<noteq> s_live_peers b then s_live_peers a < s_live_peers b
      else s_code a < s_code b)"

definition sort_servers :: "server list \<Rightarrow> string \<Rightarrow> server list" where
  "sort_servers ss client_country =
     (let cc = to_upper (trim_space client_country) in slice_stable (server_less cc) ss)"

text \<open>The order as one key: full, then priority, then abroad, then load, then code.\<close>

definition server_key :: "string \<Rightarrow> server \<Rightarrow> bool \<times> int \<times> bool \<times> int \<times> string" where
  "server_key cc s = (at_capacity s, s_priority s, cc \<noteq> [] \<and> \<not> equal_fold (s_country_code s) cc,
     s_live_peers s, s_code s)"

lemma server_less_key: "server_less cc a b \<longleftrightarrow> server_key cc a < server_key cc b"
  by (auto simp: server_less_def server_key_def Let_def less_prod_def')

lemma sort_servers_sort_key:
  "sort_servers ss country = sort_key (server_key (to_upper (trim_space country))) ss"
  by (simp add: sort_servers_def slice_stable_sort_key [OF server_less_key])

text \<open>
  C39 (sort_servers_reference). The five-step comparison of the selector is a strict weak order, and
  sorting with it is the stable sort by the lexicographic key (at capacity, priority, outside the
  caller's country, live peers, code): the same servers, best first.
\<close>

theorem sort_servers_reference:
  "sort_servers ss country = sort_key (server_key (to_upper (trim_space country))) ss"
  by (rule sort_servers_sort_key)

lemma set_sort_servers [simp]: "set (sort_servers ss country) = set ss"
  by (simp add: sort_servers_sort_key)

lemma mset_sort_servers [simp]: "mset (sort_servers ss country) = mset ss"
  by (simp add: sort_servers_sort_key)

lemma sort_servers_sorted:
  "sorted (map (server_key (to_upper (trim_space country))) (sort_servers ss country))"
  by (simp add: sort_servers_sort_key)

lemma sort_servers_hd:
  assumes "sort_servers ss country = s # rest" and "t \<in> set ss"
  shows "server_key (to_upper (trim_space country)) s \<le> server_key (to_upper (trim_space country)) t"
proof -
  have "t \<in> set (s # rest)" using assms set_sort_servers by metis
  then show ?thesis
    using sort_servers_sorted [of country ss] assms(1) by auto
qed

text \<open>
  The first server of the automatic choice obeys the documented rules in
  their order of priority: it is at capacity only if every server is; no server in the same
  capacity class has a lower priority number; and among those of its class and priority, if any is
  in the caller's country then so is the first.
\<close>

theorem auto_choice_rules:
  assumes "sort_servers ss country = s # rest" and "t \<in> set ss"
  shows "(at_capacity s \<longrightarrow> at_capacity t) \<and>
    (at_capacity t = at_capacity s \<longrightarrow> s_priority s \<le> s_priority t) \<and>
    (at_capacity t = at_capacity s \<and> s_priority t = s_priority s \<and> to_upper (trim_space country) \<noteq> [] \<and>
       equal_fold (s_country_code t) (to_upper (trim_space country)) \<longrightarrow>
     equal_fold (s_country_code s) (to_upper (trim_space country)))"
  using sort_servers_hd [OF assms] by (auto simp: server_key_def less_eq_prod_def)

text \<open>
  With distinct server codes the chosen order depends only on the
  set of servers, not on the order in which the database returned them.
\<close>

theorem sort_servers_deterministic:
  assumes "distinct (map s_code ss)" and "mset ss' = mset ss"
  shows "sort_servers ss' country = sort_servers ss country"
proof -
  let ?k = "server_key (to_upper (trim_space country))"
  have "inj_on ?k (set ss)"
    using assms(1) by (auto simp: server_key_def distinct_map inj_on_def)
  then have "sort_key ?k ss = sort_key ?k ss'"
    by (intro sort_key_inj_key_eq) (use assms(2) in simp_all)
  then show ?thesis by (simp add: sort_servers_sort_key)
qed

section \<open>The candidate list\<close>

record request =
  rq_user_id :: uuid
  rq_device_id :: uuid
  rq_server_code :: string
  rq_client_country :: string

definition candidates :: "request \<Rightarrow> ('e, goerr + server list) proc" where
  "candidates req = do {
     r \<leftarrow> store_servers True;
     case r of
       Inl e \<Rightarrow> ret (Inl e)
     | Inr active \<Rightarrow>
         (let code = trim_space (to_lower (rq_server_code req)) in
          if code \<noteq> [] \<and> code \<noteq> ''auto'' then do {
            c \<leftarrow> store_server_by_code code;
            case c of
              Inl e \<Rightarrow> ret (Inl (Sentinel ErrNoServer))
            | Inr chosen \<Rightarrow>
                (if s_status chosen \<noteq> ServerActive then ret (Inl (Sentinel ErrNoServer))
                 else let rest = filter (\<lambda>s. s_id s \<noteq> s_id chosen) active
                      in ret (Inr (chosen # sort_servers rest (rq_client_country req))))
          }
          else if active = [] then ret (Inl (Sentinel ErrNoServer))
          else ret (Inr (sort_servers active (rq_client_country req))))
   }"

lemma keeps_candidates [keeps_intros]: "keeps (on_db peers_step) (candidates req)"
  unfolding candidates_def Let_def by (intro keeps_intros preorder_on_db_peers_step)

end
