(* ===== verification/Backoff.thy ===== *)
theory Backoff
  imports Model
begin

text \<open>
  \<open>server/internal/provision/backoff.go\<close>: the delay before a retry. \<open>rand.Float64()\<close> is the
  argument \<open>u\<close>, a number in \<open>[0, 1)\<close>; the float arithmetic of the jitter is exact here (the
  delays are below \<open>2 ^ 53\<close> nanoseconds, so rounding moves a result by less than a nanosecond).
\<close>

definition backoff_base :: duration where "backoff_base = 2 * second"
definition backoff_max :: duration where "backoff_max = 5 * minute"

text \<open>The doubling loop \<open>for i := 1; i < attempt && d < backoffMax; i++\<close>.\<close>

function double_until :: "int \<Rightarrow> int \<Rightarrow> duration \<Rightarrow> duration" where
  "double_until i attempt d =
     (if i < attempt \<and> d < backoff_max then double_until (i + 1) attempt (d * 2) else d)"
  by pat_completeness auto
termination
  by (relation "measure (\<lambda>(i, attempt, d). nat (attempt - i))") auto

declare double_until.simps [simp del]

definition base_delay :: "int \<Rightarrow> duration" where
  "base_delay attempt =
     (let attempt = (if attempt < 1 then 1 else attempt);
          d = double_until 1 attempt backoff_base
      in if backoff_max < d then backoff_max else d)"

definition jitter :: "rat \<Rightarrow> rat" where
  "jitter u = 1 + (u * (2 / 5) - 1 / 5)"

text \<open>Conversion of a positive float to \<open>time.Duration\<close> drops the fraction.\<close>

definition backoff :: "rat \<Rightarrow> int \<Rightarrow> duration" where
  "backoff u attempt = \<lfloor>of_int (base_delay attempt) * jitter u\<rfloor>"

lemmas duration_defs = backoff_base_def backoff_max_def minute_def second_def millisecond_def

lemma double_until_pow:
  assumes "i \<le> attempt" and "0 < d"
  shows "min (double_until i attempt d) backoff_max = min (d * 2 ^ nat (attempt - i)) backoff_max"
  using assms
proof (induction i attempt d rule: double_until.induct)
  case (1 i attempt d)
  show ?case
  proof (cases "i < attempt \<and> d < backoff_max")
    case True
    then have "nat (attempt - i) = Suc (nat (attempt - (i + 1)))"
      by (simp add: Suc_nat_eq_nat_zadd1)
    then have "d * 2 * 2 ^ nat (attempt - (i + 1)) = d * 2 ^ nat (attempt - i)" by simp
    with True 1 show ?thesis
      by (subst double_until.simps) simp
  next
    case False
    have "d \<le> d * 2 ^ nat (attempt - i)" using 1(3) by simp
    with False 1(2) show ?thesis
      by (subst double_until.simps) (cases "i = attempt"; auto simp: min_def)
  qed
qed

lemma double_until_bounds:
  assumes "0 < d" and "d < 2 * backoff_max"
  shows "d \<le> double_until i attempt d \<and> double_until i attempt d < 2 * backoff_max"
  using assms
proof (induction i attempt d rule: double_until.induct)
  case (1 i attempt d)
  show ?case
  proof (cases "i < attempt \<and> d < backoff_max")
    case True
    with 1 have "d * 2 \<le> double_until (i + 1) attempt (d * 2) \<and> double_until (i + 1) attempt (d * 2) < 2 * backoff_max"
      by simp
    with True 1(2) show ?thesis by (subst (1 2) double_until.simps) simp
  qed (use 1 in \<open>subst (1 2) double_until.simps, auto\<close>)
qed

text \<open>
  Before jitter the delay of attempt \<open>n\<close> is two seconds doubled
  \<open>n - 1\<close> times and capped at five minutes; attempts below one count as the first. The loop's
  variable stays below ten minutes, so the int64 duration never overflows.
\<close>

theorem base_delay_closed_form:
  "base_delay n = min (2 * second * 2 ^ nat (n - 1)) (5 * minute) \<and>
   double_until 1 (max 1 n) backoff_base < 2 * backoff_max \<and> 2 * backoff_max < 2 ^ 63"
proof -
  have base: "base_delay n = min (double_until 1 (max 1 n) backoff_base) backoff_max"
    by (simp add: base_delay_def Let_def min_def max_def)
  have "min (double_until 1 (max 1 n) backoff_base) backoff_max =
        min (backoff_base * 2 ^ nat (max 1 n - 1)) backoff_max"
    by (rule double_until_pow) (simp_all add: duration_defs)
  moreover have "nat (max 1 n - 1) = nat (n - 1)" by simp
  moreover have "double_until 1 (max 1 n) backoff_base < 2 * backoff_max"
    using double_until_bounds [of backoff_base 1 "max 1 n"] by (simp add: duration_defs)
  ultimately show ?thesis
    using base by (simp add: duration_defs)
qed

lemma base_delay_bounds: "2 * second \<le> base_delay n \<and> base_delay n \<le> 5 * minute"
  using base_delay_closed_form [of n]
proof -
  have "double_until 1 (max 1 n) backoff_base \<ge> backoff_base"
    using double_until_bounds [of backoff_base 1 "max 1 n"] by (simp add: duration_defs)
  then show ?thesis by (auto simp: base_delay_def Let_def max_def duration_defs split: if_splits)
qed

lemma jitter_bounds: "0 \<le> u \<Longrightarrow> u < 1 \<Longrightarrow> 4 / 5 \<le> jitter u \<and> jitter u < 6 / 5"
  by (simp add: jitter_def)

text \<open>
  C40 (backoff_bounds). Whatever the random draw, a retry waits at least 80% of the base delay of
  its attempt and never more than 120% of it, so never less than 1.6 seconds or more than six
  minutes.
\<close>

theorem backoff_bounds:
  assumes "0 \<le> u" and "u < 1"
  shows "4 * base_delay n \<le> 5 * (backoff u n + 1) \<and> 5 * backoff u n \<le> 6 * base_delay n \<and>
    1600 * millisecond \<le> backoff u n \<and> backoff u n \<le> 6 * minute"
proof -
  let ?b = "base_delay n" and ?x = "of_int (base_delay n) * jitter u"
  note b = base_delay_bounds [of n] and j = jitter_bounds [OF assms]
  have b0: "(0 :: rat) \<le> of_int ?b" using b by (simp add: duration_defs)
  have lo: "of_int ?b * (4 / 5) \<le> ?x" by (rule mult_left_mono) (use j b0 in auto)
  have hi: "?x \<le> of_int ?b * (6 / 5)" by (rule mult_left_mono) (use j b0 in auto)
  have f: "of_int (backoff u n) \<le> ?x" "?x < of_int (backoff u n) + 1"
    unfolding backoff_def by (rule of_int_floor_le, rule floor_correct [THEN conjunct2, simplified of_int_add of_int_1])
  have "of_int (4 * ?b) \<le> (of_int (5 * (backoff u n + 1)) :: rat)" using lo f(2) by simp
  moreover have "of_int (5 * backoff u n) \<le> (of_int (6 * ?b) :: rat)" using hi f(1) by simp
  moreover have "of_int (1600 * millisecond) \<le> ?x"
  proof -
    have "of_int (1600 * millisecond) = (of_int (2 * second) :: rat) * (4 / 5)"
      by (simp add: duration_defs)
    also have "\<dots> \<le> of_int ?b * (4 / 5)"
    proof (rule mult_right_mono)
      show "(of_int (2 * second) :: rat) \<le> of_int ?b" using b by (simp only: of_int_le_iff)
    qed simp
    also note lo
    finally show ?thesis .
  qed
  then have "1600 * millisecond \<le> backoff u n" by (simp add: backoff_def le_floor_iff)
  ultimately show ?thesis
    using b by (simp only: of_int_le_iff) (simp add: duration_defs)
qed

end
