(* ===== verification/Edge.thy ===== *)
theory Edge
  imports Model "HOL-Library.AList"
begin

text \<open>
  \<open>server/internal/edge\<close>: the \<open>Client\<close> interface as a dictionary of operations on the state
  \<open>'e\<close> of the boxes, its contract as a locale, and the in-memory \<open>Fake\<close> of \<open>fake.go\<close>,
  which meets the contract.
\<close>

section \<open>The interface\<close>

record edge_peer =
  ep_public_key :: string
  ep_tunnel_ip :: ipv4
  ep_replaces :: string
  ep_revision :: int

record health =
  h_ok :: bool
  h_boot_id :: string
  h_peer_count :: int
  h_wireguard :: bool

record 'e edge_client =
  apply_peer :: "server \<Rightarrow> edge_peer \<Rightarrow> 'e \<Rightarrow> (goerr + unit) \<times> 'e"
  remove_peer :: "server \<Rightarrow> string \<Rightarrow> 'e \<Rightarrow> (goerr + unit) \<times> 'e"
  sync_peers :: "server \<Rightarrow> edge_peer list \<Rightarrow> 'e \<Rightarrow> (goerr + unit) \<times> 'e"
  get_health :: "server \<Rightarrow> 'e \<Rightarrow> (goerr + health) \<times> 'e"

text \<open>
  The documented contract. \<open>box\<close> identifies the machine a server record talks to, \<open>held e b k\<close>
  says that box \<open>b\<close> has the key \<open>k\<close> installed, and \<open>up e s\<close> that a call to \<open>s\<close> gets
  through. A successful call has exactly its effect on its own box; a failed one changes nothing.
\<close>

locale edge_contract =
  fixes cl :: "'e edge_client"
    and box :: "server \<Rightarrow> 'b"
    and held :: "'e \<Rightarrow> 'b \<Rightarrow> string \<Rightarrow> bool"
    and up :: "'e \<Rightarrow> server \<Rightarrow> bool"
  assumes apply_up: "up e s \<Longrightarrow> fst (apply_peer cl s p e) = Inr ()"
    and remove_up: "up e s \<Longrightarrow> fst (remove_peer cl s k e) = Inr ()"
    and sync_up: "up e s \<Longrightarrow> fst (sync_peers cl s ps e) = Inr ()"
    and apply_held: "fst (apply_peer cl s p e) = Inr () \<Longrightarrow>
      held (snd (apply_peer cl s p e)) b k \<longleftrightarrow>
        (if b = box s then k = ep_public_key p \<or>
           (held e b k \<and> \<not> (ep_replaces p \<noteq> [] \<and> k = ep_replaces p))
         else held e b k)"
    and remove_held: "fst (remove_peer cl s k' e) = Inr () \<Longrightarrow>
      held (snd (remove_peer cl s k' e)) b k \<longleftrightarrow> held e b k \<and> \<not> (b = box s \<and> k = k')"
    and sync_held: "fst (sync_peers cl s ps e) = Inr () \<Longrightarrow>
      held (snd (sync_peers cl s ps e)) b k \<longleftrightarrow>
        (if b = box s then k \<in> ep_public_key ` set ps else held e b k)"
    and apply_fail: "fst (apply_peer cl s p e) = Inl err \<Longrightarrow> held (snd (apply_peer cl s p e)) = held e"
    and remove_fail: "fst (remove_peer cl s k' e) = Inl err \<Longrightarrow> held (snd (remove_peer cl s k' e)) = held e"
    and sync_fail: "fst (sync_peers cl s ps e) = Inl err \<Longrightarrow> held (snd (sync_peers cl s ps e)) = held e"
    and apply_up_frame: "up (snd (apply_peer cl s p e)) = up e"
    and remove_up_frame: "up (snd (remove_peer cl s k' e)) = up e"
    and sync_up_frame: "up (snd (sync_peers cl s ps e)) = up e"
begin

lemma sum_unit_cases: "(\<And>err. x = Inl err \<Longrightarrow> P) \<Longrightarrow> (x = Inr () \<Longrightarrow> P) \<Longrightarrow> P"
  for x :: "goerr + unit"
  by (cases x) auto

lemma apply_idempotent:
  assumes "fst (apply_peer cl s p e) = Inr ()" and "fst (apply_peer cl s p (snd (apply_peer cl s p e))) = Inr ()"
  shows "held (snd (apply_peer cl s p (snd (apply_peer cl s p e)))) = held (snd (apply_peer cl s p e))"
  using assms by (intro ext) (auto simp: apply_held)

lemma remove_absent:
  assumes "fst (remove_peer cl s k e) = Inr ()" and "\<not> held e (box s) k"
  shows "held (snd (remove_peer cl s k e)) = held e"
  using assms by (intro ext) (auto simp: remove_held)

lemma apply_installs:
  "up e s \<Longrightarrow> held (snd (apply_peer cl s p e)) (box s) (ep_public_key p)"
  using apply_up [of e s p] by (simp add: apply_held)

lemma apply_replaces:
  "up e s \<Longrightarrow> ep_replaces p \<noteq> [] \<Longrightarrow> ep_replaces p \<noteq> ep_public_key p \<Longrightarrow>
   \<not> held (snd (apply_peer cl s p e)) (box s) (ep_replaces p)"
  using apply_up [of e s p] by (simp add: apply_held)

lemma remove_uninstalls: "up e s \<Longrightarrow> \<not> held (snd (remove_peer cl s k e)) (box s) k"
  using remove_up [of e s k] by (simp add: remove_held)

lemma sync_exact:
  "up e s \<Longrightarrow> held (snd (sync_peers cl s ps e)) (box s) k \<longleftrightarrow> k \<in> ep_public_key ` set ps"
  using sync_up [of e s ps] by (simp add: sync_held)

end

section \<open>The in-memory fake\<close>

record fake =
  fk_peers :: "(string \<times> (string \<times> int) list) list"
  fk_fail_with :: "goerr option"
  fk_fail_for :: "(string \<times> goerr) list"
  fk_boot_ids :: "(string \<times> string) list"
  fk_calls :: "string list"
  fk_synced_at :: "(string \<times> nat) list"

definition new_fake :: fake where
  "new_fake = \<lparr>fk_peers = [], fk_fail_with = None, fk_fail_for = [], fk_boot_ids = [],
               fk_calls = [], fk_synced_at = []\<rparr>"

text \<open>Reading a missing key of a Go map gives the zero value: here, a nil map.\<close>

definition fake_box :: "fake \<Rightarrow> string \<Rightarrow> (string \<times> int) list" where
  "fake_box f code = coalesce (map_of (fk_peers f) code) []"

definition set_box :: "string \<Rightarrow> (string \<times> int) list \<Rightarrow> fake \<Rightarrow> fake" where
  "set_box code m f = f\<lparr>fk_peers := AList.update code m (fk_peers f)\<rparr>"

definition record_call :: "string \<Rightarrow> fake \<Rightarrow> fake" where
  "record_call c f = f\<lparr>fk_calls := fk_calls f @ [c]\<rparr>"

definition fake_fail :: "fake \<Rightarrow> server \<Rightarrow> goerr option" where
  "fake_fail f srv =
     (case fk_fail_with f of
        Some e \<Rightarrow> Some (Wrap [] e '': fake failure'')
      | None \<Rightarrow> (case map_of (fk_fail_for f) (s_code srv) of
                   Some e \<Rightarrow> Some (Wrap [] e ('': fake failure for '' @ s_code srv))
                 | None \<Rightarrow> None))"

definition fake_apply_peer :: "server \<Rightarrow> edge_peer \<Rightarrow> fake \<Rightarrow> (goerr + unit) \<times> fake" where
  "fake_apply_peer srv p f0 =
     (let f = record_call (''apply:'' @ s_code srv @ '':'' @ ep_public_key p) f0 in
      case fake_fail f srv of
        Some e \<Rightarrow> (Inl e, f)
      | None \<Rightarrow>
          (let m = fake_box f (s_code srv);
               m1 = (if ep_replaces p \<noteq> [] then AList.delete (ep_replaces p) m else m)
           in (Inr (), set_box (s_code srv) (AList.update (ep_public_key p) (ep_revision p) m1) f)))"

definition fake_remove_peer :: "server \<Rightarrow> string \<Rightarrow> fake \<Rightarrow> (goerr + unit) \<times> fake" where
  "fake_remove_peer srv key f0 =
     (let f = record_call (''remove:'' @ s_code srv @ '':'' @ key) f0 in
      case fake_fail f srv of
        Some e \<Rightarrow> (Inl e, f)
      | None \<Rightarrow>
          (Inr (), (case map_of (fk_peers f) (s_code srv) of
                      None \<Rightarrow> f
                    | Some m \<Rightarrow> set_box (s_code srv) (AList.delete key m) f)))"

definition peer_set :: "edge_peer list \<Rightarrow> (string \<times> int) list" where
  "peer_set ps = fold (\<lambda>p. AList.update (ep_public_key p) (ep_revision p)) ps []"

definition fake_sync_peers :: "server \<Rightarrow> edge_peer list \<Rightarrow> fake \<Rightarrow> (goerr + unit) \<times> fake" where
  "fake_sync_peers srv ps f0 =
     (let f = record_call (''sync:'' @ s_code srv) f0 in
      case fake_fail f srv of
        Some e \<Rightarrow> (Inl e, f)
      | None \<Rightarrow>
          (Inr (), (set_box (s_code srv) (peer_set ps) f)\<lparr>fk_synced_at :=
             AList.update (s_code srv) (coalesce (map_of (fk_synced_at f) (s_code srv)) 0 + 1) (fk_synced_at f)\<rparr>))"

definition fake_health :: "server \<Rightarrow> fake \<Rightarrow> (goerr + health) \<times> fake" where
  "fake_health srv f =
     (case fake_fail f srv of
        Some e \<Rightarrow> (Inl e, f)
      | None \<Rightarrow>
          (let b = coalesce (map_of (fk_boot_ids f) (s_code srv)) [] in
           (Inr \<lparr>h_ok = True, h_boot_id = (if b = [] then ''fake-boot'' else b),
                 h_peer_count = int (length (fake_box f (s_code srv))), h_wireguard = True\<rparr>, f)))"

definition fake_has_peer :: "fake \<Rightarrow> string \<Rightarrow> string \<Rightarrow> bool" where
  "fake_has_peer f code key \<longleftrightarrow> map_of (fake_box f code) key \<noteq> None"

definition fake_peer_count :: "fake \<Rightarrow> string \<Rightarrow> nat" where
  "fake_peer_count f code = length (fake_box f code)"

definition fake_reset :: "fake \<Rightarrow> fake" where
  "fake_reset f = f\<lparr>fk_peers := [], fk_calls := [], fk_fail_with := None, fk_fail_for := []\<rparr>"

definition fake_client :: "fake edge_client" where
  "fake_client = \<lparr>apply_peer = fake_apply_peer, remove_peer = fake_remove_peer,
                  sync_peers = fake_sync_peers, get_health = fake_health\<rparr>"

definition fake_up :: "fake \<Rightarrow> server \<Rightarrow> bool" where
  "fake_up f srv \<longleftrightarrow> fake_fail f srv = None"

lemma fake_client_simps [simp]:
  "apply_peer fake_client = fake_apply_peer" "remove_peer fake_client = fake_remove_peer"
  "sync_peers fake_client = fake_sync_peers" "get_health fake_client = fake_health"
  by (simp_all add: fake_client_def)

lemma fake_fail_frame [simp]:
  "fake_fail (record_call c f) srv = fake_fail f srv"
  "fake_fail (set_box code m f) srv = fake_fail f srv"
  "fake_fail (f\<lparr>fk_synced_at := x\<rparr>) srv = fake_fail f srv"
  by (auto simp: fake_fail_def record_call_def set_box_def split: option.splits)

lemma fake_box_frame [simp]:
  "fake_box (record_call c f) code = fake_box f code"
  "fake_box (f\<lparr>fk_synced_at := x\<rparr>) code = fake_box f code"
  "fake_box (set_box c m f) code = (if code = c then m else fake_box f code)"
  "fk_peers (record_call c f) = fk_peers f"
  by (simp_all add: fake_box_def record_call_def set_box_def update_conv')

lemma map_of_peer_set: "map_of (peer_set ps) k \<noteq> None \<longleftrightarrow> k \<in> ep_public_key ` set ps"
proof -
  have "map_of (fold (\<lambda>p. AList.update (ep_public_key p) (ep_revision p)) ps m) k \<noteq> None
        \<longleftrightarrow> k \<in> ep_public_key ` set ps \<or> map_of m k \<noteq> None" for m
    by (induction ps arbitrary: m) (auto simp: update_conv')
  then show ?thesis by (simp add: peer_set_def)
qed

lemma fake_has_peer_box: "fake_box f c = fake_box g c \<Longrightarrow> fake_has_peer f c k = fake_has_peer g c k"
  by (simp add: fake_has_peer_def)

interpretation fake: edge_contract fake_client s_code fake_has_peer fake_up
proof unfold_locales
  fix e :: fake and s p b k
  assume "fst (apply_peer fake_client s p e) = Inr ()"
  then show "fake_has_peer (snd (apply_peer fake_client s p e)) b k \<longleftrightarrow>
        (if b = s_code s then k = ep_public_key p \<or>
           (fake_has_peer e b k \<and> \<not> (ep_replaces p \<noteq> [] \<and> k = ep_replaces p))
         else fake_has_peer e b k)"
    by (auto simp: fake_apply_peer_def Let_def fake_has_peer_def update_conv' delete_conv' split: option.splits)
next
  fix e :: fake and s k' b k
  assume "fst (remove_peer fake_client s k' e) = Inr ()"
  then show "fake_has_peer (snd (remove_peer fake_client s k' e)) b k \<longleftrightarrow>
      fake_has_peer e b k \<and> \<not> (b = s_code s \<and> k = k')"
    by (auto simp: fake_remove_peer_def Let_def fake_has_peer_def fake_box_def set_box_def record_call_def
        update_conv' delete_conv' split: option.splits)
next
  fix e :: fake and s ps b k
  assume "fst (sync_peers fake_client s ps e) = Inr ()"
  then show "fake_has_peer (snd (sync_peers fake_client s ps e)) b k \<longleftrightarrow>
        (if b = s_code s then k \<in> ep_public_key ` set ps else fake_has_peer e b k)"
    using map_of_peer_set [of ps k]
    by (auto simp: fake_sync_peers_def Let_def fake_has_peer_def split: option.splits)
qed (auto simp: fake_apply_peer_def fake_remove_peer_def fake_sync_peers_def fake_up_def
    fake_has_peer_def fun_eq_iff Let_def split: option.splits)

end
