(* ===== verification/Addresses.thy ===== *)
theory Addresses
  imports Model
begin

text \<open>
  IPv4 addresses as text: what \<open>netip.Addr.String\<close> prints and what \<open>netip.ParseAddr\<close> and
  \<open>netip.ParsePrefix\<close> accept as IPv4. Text that is an IPv6 address parses to \<open>None\<close>: every caller
  treats it like text that is no address.
\<close>

definition addr_text :: "ipv4 \<Rightarrow> string" where
  "addr_text a = (let n = uint a in
     dec_text (n div 16777216) @ ''.'' @ dec_text (n div 65536 mod 256) @ ''.'' @
     dec_text (n div 256 mod 256) @ ''.'' @ dec_text (n mod 256))"

text \<open>A decimal number without sign and without leading zeros, up to a limit.\<close>

definition digits_value :: "string \<Rightarrow> int" where
  "digits_value s = foldl (\<lambda>v c. v * 10 + (of_char c - 48)) 0 s"

definition parse_small :: "int \<Rightarrow> string \<Rightarrow> int option" where
  "parse_small limit s =
     (if s \<noteq> [] \<and> list_all is_digit s \<and> (length s = 1 \<or> hd s \<noteq> CHR ''0'') \<and> digits_value s \<le> limit
      then Some (digits_value s) else None)"

definition parse_addr4 :: "string \<Rightarrow> ipv4 option" where
  "parse_addr4 s =
     (case split_on (CHR 0x2E) s of
        [a, b, c, d] \<Rightarrow>
          (case (parse_small 255 a, parse_small 255 b, parse_small 255 c, parse_small 255 d) of
             (Some p, Some q, Some r, Some u) \<Rightarrow>
               Some (word_of_int (p * 16777216 + q * 65536 + r * 256 + u))
           | _ \<Rightarrow> None)
      | _ \<Rightarrow> None)"

definition parse_prefix4 :: "string \<Rightarrow> (ipv4 \<times> nat) option" where
  "parse_prefix4 s =
     (case split_on (CHR 0x2F) s of
        [a, b] \<Rightarrow>
          (case (parse_addr4 a, parse_small 32 b) of
             (Some ip, Some n) \<Rightarrow> Some (ip, nat n)
           | _ \<Rightarrow> None)
      | _ \<Rightarrow> None)"

definition prefix_text :: "ipv4 \<times> nat \<Rightarrow> string" where
  "prefix_text p = addr_text (fst p) @ ''/'' @ dec_text (int (snd p))"

section \<open>Reading back what was printed\<close>

lemma split_on_append: "c \<notin> set s \<Longrightarrow> split_on c (s @ c # rest) = s # split_on c rest"
  by (induction s) auto

lemma split_on_none: "c \<notin> set s \<Longrightarrow> split_on c s = [s]"
  by (induction s) auto

text \<open>The characters of a printed number, address or prefix.\<close>

definition addr_char :: "char \<Rightarrow> bool" where
  "addr_char c \<longleftrightarrow> is_digit c \<or> c = CHR 0x2E \<or> c = CHR 0x2F"

lemma is_digit_digit_char: "0 \<le> n \<Longrightarrow> n < 10 \<Longrightarrow> is_digit (digit_char n)"
  by (simp add: is_digit_def digit_char_def)

lemma dec_text_digits: "0 \<le> n \<Longrightarrow> \<forall>c \<in> set (dec_text n). is_digit c"
proof (induction n rule: dec_text.induct)
  case (1 n)
  then show ?case
    by (subst dec_text.simps) (auto simp: is_digit_digit_char)
qed

lemma digits_value_snoc: "digits_value (s @ [c]) = digits_value s * 10 + (of_char c - 48)"
  by (simp add: digits_value_def)

lemma dec_text_value: "0 \<le> n \<Longrightarrow> digits_value (dec_text n) = n"
proof (induction n rule: dec_text.induct)
  case (1 n)
  have d: "(of_char (digit_char m) :: int) = 48 + m" if "0 \<le> m" "m < 10" for m
    using that by (simp add: digit_char_def)
  show ?case
  proof (cases "n < 10")
    case True
    with 1 show ?thesis by (subst dec_text.simps) (simp add: digits_value_def d)
  next
    case False
    with 1 show ?thesis by (subst dec_text.simps) (simp add: digits_value_snoc d)
  qed
qed

lemma dec_text_lead: "0 \<le> n \<Longrightarrow> dec_text n \<noteq> [] \<and> (length (dec_text n) = 1 \<or> hd (dec_text n) \<noteq> CHR ''0'')"
proof (induction n rule: dec_text.induct)
  case (1 n)
  show ?case
  proof (cases "n < 10")
    case True
    then show ?thesis by (subst (1 2 3) dec_text.simps) simp
  next
    case False
    let ?m = "n div 10"
    have IH: "dec_text ?m \<noteq> [] \<and> (length (dec_text ?m) = 1 \<or> hd (dec_text ?m) \<noteq> CHR ''0'')"
      using 1 False by simp
    have "hd (dec_text ?m) \<noteq> CHR ''0''"
    proof
      assume z: "hd (dec_text ?m) = CHR ''0''"
      with IH have "dec_text ?m = [CHR ''0'']" by (cases "dec_text ?m") auto
      then have "digits_value (dec_text ?m) = 0" by (simp add: digits_value_def)
      moreover have "digits_value (dec_text ?m) = ?m" using 1 False by (intro dec_text_value) simp
      ultimately show False using False by simp
    qed
    then show ?thesis using False IH by (subst (1 2 3) dec_text.simps) simp
  qed
qed

lemma parse_small_dec_text: "0 \<le> n \<Longrightarrow> n \<le> limit \<Longrightarrow> parse_small limit (dec_text n) = Some n"
  using dec_text_lead [of n] dec_text_digits [of n] dec_text_value [of n]
  by (auto simp: parse_small_def list_all_iff)

lemma not_digit_marks: "\<not> is_digit (CHR 0x2E)" "\<not> is_digit (CHR 0x2F)"
  by (simp_all add: is_digit_def)

lemma dec_text_marks: "0 \<le> n \<Longrightarrow> CHR 0x2E \<notin> set (dec_text n) \<and> CHR 0x2F \<notin> set (dec_text n)"
  using dec_text_digits [of n] not_digit_marks by blast

lemma octets:
  fixes n :: int
  assumes "0 \<le> n" "n < 4294967296"
  shows "n div 16777216 * 16777216 + n div 65536 mod 256 * 65536 + n div 256 mod 256 * 256 + n mod 256 = n"
    "0 \<le> n div 16777216" "n div 16777216 \<le> 255" "0 \<le> n div 65536 mod 256" "n div 65536 mod 256 \<le> 255"
    "0 \<le> n div 256 mod 256" "n div 256 mod 256 \<le> 255" "0 \<le> n mod 256" "n mod 256 \<le> 255"
proof -
  have e: "n div 256 div 256 = n div 65536" "n div 65536 div 256 = n div 16777216"
    by (simp_all add: zdiv_zmult2_eq [symmetric])
  have d: "n div 256 * 256 + n mod 256 = n"
    "n div 65536 * 256 + n div 256 mod 256 = n div 256"
    "n div 16777216 * 256 + n div 65536 mod 256 = n div 65536"
    unfolding e(1) [symmetric] e(2) [symmetric] by (simp_all only: div_mult_mod_eq)
  then show "n div 16777216 * 16777216 + n div 65536 mod 256 * 65536 + n div 256 mod 256 * 256 + n mod 256 = n"
    by linarith
  show "0 \<le> n div 16777216" "n div 16777216 \<le> 255" using assms by auto
  have m: "0 \<le> k mod 256" "k mod 256 \<le> 255" for k :: int
    using pos_mod_bound [of 256 k] by auto
  show "0 \<le> n div 65536 mod 256" "n div 65536 mod 256 \<le> 255"
    "0 \<le> n div 256 mod 256" "n div 256 mod 256 \<le> 255" "0 \<le> n mod 256" "n mod 256 \<le> 255"
    by (rule m)+
qed

lemma parse_addr_text: "parse_addr4 (addr_text a) = Some a"
proof -
  let ?n = "uint a"
  have n: "0 \<le> ?n" "?n < 4294967296" using uint_lt2p [of a] by simp_all
  note o = octets [OF n]
  have "split_on (CHR 0x2E) (addr_text a) =
      [dec_text (?n div 16777216), dec_text (?n div 65536 mod 256), dec_text (?n div 256 mod 256), dec_text (?n mod 256)]"
    unfolding addr_text_def Let_def append_Cons append_Nil
    using dec_text_marks [OF o(2)] dec_text_marks [OF o(4)] dec_text_marks [OF o(6)] dec_text_marks [OF o(8)]
    by (simp only: split_on_append split_on_none simp_thms)
  then show ?thesis
    unfolding parse_addr4_def
    by (simp only: list.case parse_small_dec_text [OF o(2,3)] parse_small_dec_text [OF o(4,5)]
        parse_small_dec_text [OF o(6,7)] parse_small_dec_text [OF o(8,9)] option.case prod.case o(1) word_of_int_uint)
qed

lemma addr_text_chars: "\<forall>c \<in> set (addr_text a). is_digit c \<or> c = CHR 0x2E"
proof -
  have n: "0 \<le> uint a" "uint a < 4294967296" using uint_lt2p [of a] by simp_all
  note o = octets [OF n]
  show ?thesis
    unfolding addr_text_def Let_def
    using dec_text_digits [OF o(2)] dec_text_digits [OF o(4)] dec_text_digits [OF o(6)] dec_text_digits [OF o(8)]
    by auto
qed

lemma parse_prefix_text: "n \<le> 32 \<Longrightarrow> parse_prefix4 (prefix_text (a, n)) = Some (a, n)"
proof -
  assume n: "n \<le> 32"
  have "CHR 0x2F \<notin> set (addr_text a)" using addr_text_chars [of a] not_digit_marks(2) by force
  moreover have "CHR 0x2F \<notin> set (dec_text (int n))" using dec_text_marks [of "int n"] by simp
  ultimately have "split_on (CHR 0x2F) (prefix_text (a, n)) = [addr_text a, dec_text (int n)]"
    by (simp add: prefix_text_def split_on_append split_on_none)
  then show ?thesis
    using n by (simp add: parse_prefix4_def parse_addr_text parse_small_dec_text)
qed

lemma prefix_text_chars: "\<forall>c \<in> set (prefix_text p). addr_char c"
  using addr_text_chars [of "fst p"] dec_text_digits [of "int (snd p)"]
  by (auto simp: prefix_text_def addr_char_def)

end
