(* ===== verification/Provision.thy ===== *)
theory Provision
  imports Selector Backoff Edge Addresses
begin

text \<open>
  \<open>server/internal/provision/provision.go\<close>: the request path from a paying user to a tunnel. The
  edge client is the dictionary \<open>cl\<close>, any implementation of the interface; log lines are left out.
\<close>

section \<open>The configuration handed to the app\<close>

record fallback =
  fb_transport :: string
  fb_endpoint :: string
  fb_note :: string

record tunnel_config =
  tc_version :: int
  tc_assignment_id :: uuid
  tc_address :: string
  tc_dns :: "string list"
  tc_mtu :: int
  tc_allowed_ips :: "string list"
  tc_server_public_key :: string
  tc_endpoint :: string
  tc_persistent_keepalive :: int
  tc_fallbacks :: "fallback list"
  tc_obfuscation :: "(string \<times> any) list"
  tc_server_code :: string
  tc_server_display_name :: string
  tc_server_country_code :: string
  tc_server_region :: string
  tc_expires_at :: time

definition host_port :: "string \<Rightarrow> int \<Rightarrow> string" where
  "host_port host port = host @ '':'' @ int_text port"

text \<open>A type switch; converting a \<open>float64\<close> to \<open>int\<close> drops the fraction.\<close>

fun int_from_any :: "any option \<Rightarrow> int option" where
  "int_from_any (Some (AFloat64 x)) = Some (if 0 \<le> x then \<lfloor>x\<rfloor> else \<lceil>x\<rceil>)"
| "int_from_any (Some (AInt n)) = Some n"
| "int_from_any (Some (AInt64 n)) = Some n"
| "int_from_any _ = None"

definition fallbacks_for :: "server \<Rightarrow> fallback list" where
  "fallbacks_for srv =
     [\<lparr>fb_transport = ''udp'', fb_endpoint = host_port (s_endpoint_host srv) (s_endpoint_port srv),
       fb_note = ''primary''\<rparr>] @
     (case int_from_any (map_of (s_obfuscation srv) ''tcp_port'') of
        Some port \<Rightarrow> [\<lparr>fb_transport = ''tcp'', fb_endpoint = host_port (s_endpoint_host srv) port,
                       fb_note = ''udp blocked or throttled''\<rparr>]
      | None \<Rightarrow> []) @
     (case map_of (s_obfuscation srv) ''ws_host'' of
        Some (AString host) \<Rightarrow>
          (if host \<noteq> [] then [\<lparr>fb_transport = ''ws-tls'', fb_endpoint = host @ '':443'',
                             fb_note = ''deep packet inspection''\<rparr>] else [])
      | _ \<Rightarrow> [])"

definition build_config :: "peer_assignment \<Rightarrow> server \<Rightarrow> entitlement \<Rightarrow> tunnel_config" where
  "build_config a srv ent =
     \<lparr>tc_version = 1, tc_assignment_id = pa_id a, tc_address = addr_text (pa_tunnel_ip a) @ ''/32'',
      tc_dns = [''1.1.1.1'', ''1.0.0.1''], tc_mtu = 1280, tc_allowed_ips = [''0.0.0.0/0'', ''::/0''],
      tc_server_public_key = s_public_key srv,
      tc_endpoint = host_port (s_endpoint_host srv) (s_endpoint_port srv),
      tc_persistent_keepalive = 25, tc_fallbacks = fallbacks_for srv,
      tc_obfuscation = s_obfuscation srv, tc_server_code = s_code srv,
      tc_server_display_name = s_display_name srv, tc_server_country_code = s_country_code srv,
      tc_server_region = s_region srv, tc_expires_at = e_expires_at ent\<rparr>"

section \<open>One server\<close>

definition edge_peer_of :: "peer_assignment \<Rightarrow> edge_peer" where
  "edge_peer_of a = \<lparr>ep_public_key = pa_public_key a, ep_tunnel_ip = pa_tunnel_ip a,
     ep_replaces = pa_prev_public_key a, ep_revision = pa_revision a\<rparr>"

text \<open>Recording a failed push: the retry time is the clock plus the backoff of the next attempt.\<close>

definition record_failure :: "peer_assignment \<Rightarrow> goerr \<Rightarrow> ('e, unit) proc" where
  "record_failure a err = do {
     now \<leftarrow> clock;
     u \<leftarrow> float64_draw;
     _ \<leftarrow> store_mark_attempt_failed (pa_id a) (err_text err) (now + backoff u (pa_attempts a + 1));
     ret ()
   }"

definition provision_on ::
  "'e edge_client \<Rightarrow> device \<Rightarrow> server \<Rightarrow> entitlement \<Rightarrow> ('e, goerr + tunnel_config) proc" where
  "provision_on cl dev srv ent = do {
     r \<leftarrow> store_ensure_assignment (d_id dev) (s_id srv) (d_public_key dev);
     case r of
       Inl e \<Rightarrow> ret (Inl (Wrap ''ensure assignment: '' e []))
     | Inr a \<Rightarrow>
         (if \<not> applied a then do {
            res \<leftarrow> edge_call (apply_peer cl srv (edge_peer_of a));
            case res of
              Inl err \<Rightarrow> do {
                _ \<leftarrow> record_failure a err;
                ret (Inl err)
              }
            | Inr _ \<Rightarrow> do {
                _ \<leftarrow> store_mark_applied (pa_id a) (pa_revision a);
                ret (Inr (build_config a srv ent))
              }
          }
          else ret (Inr (build_config a srv ent)))
   }"

section \<open>The device limit\<close>

fun device_rank :: "device list \<Rightarrow> uuid \<Rightarrow> nat option" where
  "device_rank [] dev = None"
| "device_rank (v # vs) dev = (if d_id v = dev then Some 0 else map_option Suc (device_rank vs dev))"

definition check_device_limit :: "uuid \<Rightarrow> uuid \<Rightarrow> int \<Rightarrow> ('e, goerr + unit) proc" where
  "check_device_limit uid dev limit0 =
     (let limit = (if limit0 \<le> 0 then 1 else limit0) in do {
        r \<leftarrow> store_devices_by_user uid;
        case r of
          Inl e \<Rightarrow> ret (Inl (Wrap ''devices: '' e []))
        | Inr ds \<Rightarrow>
            (if int (length ds) \<le> limit then ret (Inr ())
             else case device_rank ds dev of
               Some i \<Rightarrow> (if int i < limit then ret (Inr ()) else ret (Inl (Sentinel ErrDeviceLimit)))
             | None \<Rightarrow> ret (Inl (Sentinel ErrDeviceLimit)))
      })"

section \<open>The request\<close>

definition max_inline_attempts :: nat where "max_inline_attempts = 2"

text \<open>The candidate loop; the result is a configuration or the last error seen, if any.\<close>

fun try_candidates ::
  "'e edge_client \<Rightarrow> device \<Rightarrow> entitlement \<Rightarrow> nat \<Rightarrow> goerr option \<Rightarrow> server list \<Rightarrow>
   ('e, goerr option + tunnel_config) proc" where
  "try_candidates cl dev ent i last_err [] = ret (Inl last_err)"
| "try_candidates cl dev ent i last_err (srv # rest) =
     (if max_inline_attempts \<le> i then ret (Inl last_err)
      else do {
        r \<leftarrow> provision_on cl dev srv ent;
        case r of
          Inr cfg \<Rightarrow> do {
            _ \<leftarrow> store_begin_revoke_other_servers (d_id dev) (s_id srv);
            ret (Inr cfg)
          }
        | Inl err \<Rightarrow>
            (if is_err err ErrRejected then ret (Inl (Some err))
             else try_candidates cl dev ent (Suc i) (Some err) rest)
      })"

text \<open>The inner error is printed with \<open>%v\<close>: only its text survives.\<close>

definition edge_unavailable :: "goerr \<Rightarrow> goerr" where
  "edge_unavailable last_err = Wrap [] (Sentinel ErrEdgeUnavailable) ('': '' @ err_text last_err)"

definition provision :: "'e edge_client \<Rightarrow> request \<Rightarrow> ('e, goerr + tunnel_config) proc" where
  "provision cl req = do {
     r \<leftarrow> store_entitlement (rq_user_id req);
     case r of
       Inl e \<Rightarrow> ret (Inl (Wrap ''entitlement: '' e []))
     | Inr ent \<Rightarrow>
         (if \<not> e_active ent then ret (Inl (Sentinel ErrNotEntitled))
          else do {
            rd \<leftarrow> store_device_by_id (rq_device_id req);
            case rd of
              Inl e \<Rightarrow> ret (Inl (Wrap ''device: '' e []))
            | Inr dev \<Rightarrow>
                (if d_user_id dev \<noteq> rq_user_id req \<or> d_revoked_at dev \<noteq> None
                 then ret (Inl (Wrap ''device: '' (Sentinel ErrNotFound) []))
                 else do {
                   rl \<leftarrow> check_device_limit (rq_user_id req) (d_id dev) (e_device_limit ent);
                   case rl of
                     Inl e \<Rightarrow> ret (Inl e)
                   | Inr _ \<Rightarrow> do {
                       rc \<leftarrow> candidates req;
                       case rc of
                         Inl e \<Rightarrow> ret (Inl e)
                       | Inr cands \<Rightarrow> do {
                           rt \<leftarrow> try_candidates cl dev ent 0 None cands;
                           case rt of
                             Inr cfg \<Rightarrow> ret (Inr cfg)
                           | Inl last_err \<Rightarrow>
                               (case last_err of
                                  None \<Rightarrow> ret (Inl (Sentinel ErrNoServer))
                                | Some err \<Rightarrow> ret (Inl (edge_unavailable err)))
                         }
                     }
                 })
          })
   }"

definition deprovision :: "uuid \<Rightarrow> ('e, goerr + nat) proc" where
  "deprovision uid = do {
     r \<leftarrow> store_begin_revoke_for_user uid;
     case r of Inl e \<Rightarrow> ret (Inl e) | Inr n \<Rightarrow> ret (Inr n)
   }"

definition deprovision_device :: "uuid \<Rightarrow> ('e, goerr + nat) proc" where
  "deprovision_device dev = store_begin_revoke_for_device dev"

section \<open>What every run keeps\<close>

lemma keeps_record_failure [keeps_intros]: "keeps (on_db peers_step) (record_failure a err)"
  unfolding record_failure_def by (intro keeps_intros preorder_on_db_peers_step preorder_peers_step)

lemma keeps_provision_on [keeps_intros]: "keeps (on_db peers_step) (provision_on cl dev srv ent)"
  unfolding provision_on_def
  by (intro keeps_intros preorder_on_db_peers_step preorder_peers_step)

lemma keeps_check_device_limit [keeps_intros]: "keeps (on_db peers_step) (check_device_limit uid dev n)"
  unfolding check_device_limit_def Let_def by (intro keeps_intros preorder_on_db_peers_step)

lemma keeps_try_candidates [keeps_intros]:
  "keeps (on_db peers_step) (try_candidates cl dev ent i last_err cands)"
  by (induction cands arbitrary: i last_err)
    (auto intro!: keeps_intros preorder_on_db_peers_step)

lemma keeps_provision [keeps_intros]: "keeps (on_db peers_step) (provision cl req)"
  unfolding provision_def by (intro keeps_intros preorder_on_db_peers_step)

text \<open>
  Whatever the edge boxes answer and whichever store calls fail, a
  provisioning request keeps the peer table's invariant (unique live row per device and server,
  unique live address per server, active rows confirmed at their current revision) and only lets
  rows evolve: addresses and owners are fixed, revisions never decrease, a key changes only with a
  new revision, and revoked rows stay revoked.
\<close>

theorem provision_keeps_table:
  assumes "wf_peers (w_db w)"
  shows "wf_peers (w_db (snd (run_state (provision cl req) w))) \<and>
    peers_evolve (w_db w) (w_db (snd (run_state (provision cl req) w)))"
  using keeps_provision [of cl req] assms by (auto simp: keeps_def on_db_def peers_step_def)

end
