(* ===== verification/Respond.thy ===== *)
theory Respond
  imports Provision
begin

text \<open>
  \<open>server/internal/api/respond.go\<close>: what a handler answers with, and the one place where domain
  errors become status codes. A reply is a status with a body, or an \<open>errorBody\<close>; a retry of
  \<open>0\<close> is omitted from the JSON. Decoding a request body happens before the handler models
  start: they take the decoded request.
\<close>

datatype 'a reply = Ok_reply int 'a | Fail_reply int string string int

fun reply_status :: "'a reply \<Rightarrow> int" where
  "reply_status (Ok_reply s x) = s"
| "reply_status (Fail_reply s c m t) = s"

fun reply_code :: "'a reply \<Rightarrow> string" where
  "reply_code (Ok_reply s x) = []"
| "reply_code (Fail_reply s c m t) = c"

definition write_error :: "int \<Rightarrow> string \<Rightarrow> string \<Rightarrow> 'a reply" where
  "write_error status code msg = Fail_reply status code msg 0"

definition decode_failure :: "'a reply" where
  "decode_failure = write_error 400 ''invalid_request'' ''could not parse request body''"

text \<open>The long dash of the messages, in UTF-8.\<close>

definition em_dash :: string where
  "em_dash = [CHR 0xE2, CHR 0x80, CHR 0x94]"

definition write_domain_error :: "goerr \<Rightarrow> 'a reply" where
  "write_domain_error err =
     (if is_err err ErrNotEntitled then write_error 402 ''not_entitled''
        (''no active subscription '' @ em_dash @ '' buy a pass to connect'')
      else if is_err err ErrDeviceLimit then write_error 409 ''device_limit''
        (''this plan'' @ [CHR 0x27] @ ''s device limit is reached '' @ em_dash @ '' remove a device or upgrade'')
      else if is_err err ErrNoServer then write_error 503 ''no_server'' ''no server is available right now''
      else if is_err err ErrEdgeUnavailable then Fail_reply 503 ''edge_unavailable''
        (''could not reach a server '' @ em_dash @ '' retrying in the background'') 5
      else if is_err err ErrNotFound then write_error 404 ''not_found'' ''not found''
      else if is_err err ErrConflict then write_error 409 ''conflict'' ''already exists''
      else if is_err err ErrNoAddresses then write_error 503 ''server_full'' ''server is full''
      else if is_err err ErrRejected then write_error 502 ''edge_rejected'' ''server rejected the configuration''
      else write_error 500 ''internal'' ''something went wrong'')"

lemma reply_write_error [simp]:
  "reply_status (write_error s c m) = s" "reply_code (write_error s c m) = c"
  by (simp_all add: write_error_def)

text \<open>Every domain error is reported as an error: no status below 400.\<close>

lemma domain_error_status: "400 \<le> reply_status (write_domain_error e)"
  by (simp add: write_domain_error_def)

text \<open>Handlers answer one way on an error and go on with the value otherwise.\<close>

definition on_error ::
  "goerr + 'a \<Rightarrow> (goerr \<Rightarrow> 'r) \<Rightarrow> ('a \<Rightarrow> ('s, 'r) state) \<Rightarrow> ('s, 'r) state" where
  "on_error r bad good = (case r of Inl e \<Rightarrow> ret (bad e) | Inr x \<Rightarrow> good x)"

lemma on_error_simps [simp]:
  "on_error (Inl e) bad good = ret (bad e)" "on_error (Inr x) bad good = good x"
  by (simp_all add: on_error_def)

lemma keeps_on_error [keeps_intros]:
  "preorder R \<Longrightarrow> (\<And>x. r = Inr x \<Longrightarrow> keeps R (good x)) \<Longrightarrow> keeps R (on_error r bad good)"
  by (cases r) (auto intro: keeps_ret)

end
