(* ===== verification/Tokens.thy ===== *)
theory Tokens
  imports UrlBase64 Respond
begin

text \<open>
  \<open>server/internal/auth/auth.go\<close> and the authentication wrappers of \<open>api/middleware.go\<close>. The HMAC,
  bcrypt and JSON functions are parameters; unpadded URL-safe base64 is that of \<open>UrlBase64\<close>.
\<close>

section \<open>Access tokens\<close>

record claims =
  cl_subject :: string
  cl_device_id :: string
  cl_issued_at :: int
  cl_expires :: int

text \<open>
  The parameters of the signer: the keyed HMAC, the header's JSON, the claims' JSON and their decoders.
\<close>

record signer =
  sg_mac :: "string \<Rightarrow> int list"
  sg_ttl :: duration
  sg_header :: "int list"
  sg_alg_of :: "int list \<Rightarrow> string option"
  sg_claims_json :: "claims \<Rightarrow> int list"
  sg_claims_of :: "int list \<Rightarrow> claims option"

datatype token_error = InvalidToken | ExpiredToken

definition unix :: "time \<Rightarrow> int" where
  "unix t = t div second"

definition issue :: "signer \<Rightarrow> time \<Rightarrow> string \<Rightarrow> string \<Rightarrow> string \<times> time" where
  "issue s now uid dev =
     (let expires = now + sg_ttl s;
          c = \<lparr>cl_subject = uid, cl_device_id = dev, cl_issued_at = unix now, cl_expires = unix expires\<rparr>;
          signing = url_encode (sg_header s) @ ''.'' @ url_encode (sg_claims_json s c)
      in (signing @ ''.'' @ url_encode (sg_mac s signing), expires))"

definition verify :: "signer \<Rightarrow> time \<Rightarrow> string \<Rightarrow> token_error + claims" where
  "verify s now token =
     (case split_on (CHR 0x2E) token of
        [p0, p1, p2] \<Rightarrow>
          (case url_decode p2 of
             None \<Rightarrow> Inl InvalidToken
           | Some sig \<Rightarrow>
               (if sig \<noteq> sg_mac s (p0 @ ''.'' @ p1) then Inl InvalidToken
                else case url_decode p0 of
                  None \<Rightarrow> Inl InvalidToken
                | Some raw_header \<Rightarrow>
                    (if sg_alg_of s raw_header \<noteq> Some ''HS256'' then Inl InvalidToken
                     else case url_decode p1 of
                       None \<Rightarrow> Inl InvalidToken
                     | Some raw_claims \<Rightarrow>
                         (case sg_claims_of s raw_claims of
                            None \<Rightarrow> Inl InvalidToken
                          | Some c \<Rightarrow>
                              (if cl_subject c = [] then Inl InvalidToken
                               else if cl_expires c \<le> unix now then Inl ExpiredToken
                               else Inr c)))))
      | _ \<Rightarrow> Inl InvalidToken)"

text \<open>
  What the signer relies on: byte strings, and JSON that decodes to what was encoded, for plain ASCII
  identifiers (\<open>encoding/json\<close> replaces bytes that are not valid UTF-8).
\<close>

definition ascii :: "string \<Rightarrow> bool" where
  "ascii s \<longleftrightarrow> (\<forall>c \<in> set s. (of_char c :: int) < 128)"

definition signer_ok :: "signer \<Rightarrow> bool" where
  "signer_ok s \<longleftrightarrow> (\<forall>m. bytes (sg_mac s m)) \<and> bytes (sg_header s) \<and> sg_alg_of s (sg_header s) = Some ''HS256'' \<and>
     (\<forall>c. bytes (sg_claims_json s c) \<and>
        (ascii (cl_subject c) \<and> ascii (cl_device_id c) \<longrightarrow> sg_claims_of s (sg_claims_json s c) = Some c))"

text \<open>
  C23 (issued_token_verifies). A token the server issues is accepted back, with the user and device it
  was issued for, until its lifetime is over, and is reported as expired (never as invalid) from then
  on: the app can tell a refresh from a logout.
\<close>

theorem issued_token_verifies:
  assumes "signer_ok s" and "uid \<noteq> []" and "ascii uid" and "ascii dev"
  shows "verify s later (fst (issue s now uid dev)) =
    (if unix later < unix (now + sg_ttl s)
     then Inr \<lparr>cl_subject = uid, cl_device_id = dev, cl_issued_at = unix now, cl_expires = unix (now + sg_ttl s)\<rparr>
     else Inl ExpiredToken)"
proof -
  let ?c = "\<lparr>cl_subject = uid, cl_device_id = dev, cl_issued_at = unix now, cl_expires = unix (now + sg_ttl s)\<rparr>"
  let ?h = "url_encode (sg_header s)" and ?b = "url_encode (sg_claims_json s ?c)"
  let ?g = "url_encode (sg_mac s (?h @ ''.'' @ ?b))"
  have ok: "bytes (sg_header s)" "bytes (sg_claims_json s ?c)" "bytes (sg_mac s m)" for m
    using assms(1) by (auto simp: signer_ok_def)
  have "fst (issue s now uid dev) = ?h @ CHR 0x2E # ?b @ CHR 0x2E # ?g"
    by (simp add: issue_def Let_def)
  then have "split_on (CHR 0x2E) (fst (issue s now uid dev)) = [?h, ?b, ?g]"
    using url_encode_facts(2) [OF ok(1)] url_encode_facts(2) [OF ok(2)] url_encode_facts(2) [OF ok(3)]
    by (simp add: split_on_append split_on_none)
  then show ?thesis
    using assms url_encode_facts(1) [OF ok(1)] url_encode_facts(1) [OF ok(2)] url_encode_facts(1) [OF ok(3)]
    by (simp add: verify_def signer_ok_def)
qed

section \<open>Passwords\<close>

definition hash_password :: "(string \<Rightarrow> goerr + string) \<Rightarrow> string \<Rightarrow> goerr + string" where
  "hash_password bcrypt plain =
     (if length plain < 8 then Inl (Sentinel (OtherError ''auth: password must be at least 8 characters''))
      else if 72 < length plain then Inl (Sentinel (OtherError ''auth: password must be at most 72 bytes''))
      else bcrypt plain)"

text \<open>\<open>check\<close> is \<open>bcrypt.CompareHashAndPassword\<close>: its error, or \<open>None\<close> when the password fits.\<close>

definition check_password :: "(string \<Rightarrow> string \<Rightarrow> goerr option) \<Rightarrow> string \<Rightarrow> string \<Rightarrow> bool" where
  "check_password compare hash plain \<longleftrightarrow> compare hash plain = None"

section \<open>Refresh tokens\<close>

definition hash_refresh_token :: "(string \<Rightarrow> string) \<Rightarrow> string \<Rightarrow> string" where
  "hash_refresh_token sha token = sha token"

definition new_refresh_token :: "(string \<Rightarrow> string) \<Rightarrow> goerr + int list \<Rightarrow> goerr + (string \<times> string)" where
  "new_refresh_token sha random =
     (case random of
        Inl e \<Rightarrow> Inl (Wrap ''auth: generate refresh token: '' e [])
      | Inr buf \<Rightarrow> (let token = url_encode buf in Inr (token, hash_refresh_token sha token)))"

section \<open>The wrappers\<close>

definition bearer_token :: "string \<Rightarrow> string" where
  "bearer_token h =
     (if length h < 7 \<or> \<not> equal_fold (take 7 h) ''bearer '' then [] else trim_space (drop 7 h))"

text \<open>\<open>authenticated\<close>: the claims the handler runs with, or the answer that keeps the caller out.\<close>

definition authenticated :: "signer \<Rightarrow> time \<Rightarrow> string \<Rightarrow> 'a reply + claims" where
  "authenticated s now h =
     (let token = bearer_token h in
      if token = [] then Inl (write_error 401 ''unauthorized'' ''missing bearer token'')
      else case verify s now token of
             Inr c \<Rightarrow> Inr c
           | Inl e \<Rightarrow> Inl (write_error 401 (if e = ExpiredToken then ''token_expired'' else ''unauthorized'')
                           ''invalid or expired token''))"

definition admin_only :: "string \<Rightarrow> string \<Rightarrow> 'a reply option" where
  "admin_only admin_token h =
     (if admin_token = [] then Some (write_error 404 ''not_found'' ''not found'')
      else if bearer_token h \<noteq> admin_token then Some (write_error 401 ''unauthorized'' ''admin token required'')
      else None)"

lemma admin_only_passes: "admin_only admin h = None \<longleftrightarrow> admin \<noteq> [] \<and> bearer_token h = admin"
  by (auto simp: admin_only_def)

end
