(* ===== verification/Identifier.thy ===== *)
theory Identifier
  imports Model "HOL-Library.AList"
begin

text \<open>
  \<open>server/internal/api/identifier.go\<close>: what a user may type to name an account, and the fixed-window
  rate limiter of \<open>middleware.go\<close> that guards the credential endpoints.
\<close>

section \<open>Identifiers\<close>

definition bad_identifier :: goerr where
  "bad_identifier = Sentinel (OtherError ''identifier must be an email address or a phone number'')"

definition digits_of :: "string \<Rightarrow> string" where
  "digits_of raw = filter is_digit raw"

definition normalize_phone :: "string \<Rightarrow> goerr + string" where
  "normalize_phone raw =
     (let plus = has_prefix (trim_space raw) ''+''; d = digits_of raw in
      if plus then (if length d < 8 \<or> 15 < length d then Inl bad_identifier else Inr (''+'' @ d))
      else if has_prefix d ''234'' \<and> length d = 13 then Inr (''+'' @ d)
      else if has_prefix d ''0'' \<and> length d = 11 then Inr (''+234'' @ tl d)
      else if length d = 10 then Inr (''+234'' @ d)
      else Inl bad_identifier)"

definition split_identifier :: "string \<Rightarrow> goerr + (string \<times> string)" where
  "split_identifier raw =
     (let v = trim_space raw in
      if v = [] then Inl bad_identifier
      else if contains v ''@'' then
        (let e = to_lower v in
         if length e < 5 \<or> has_prefix e ''@'' \<or> has_suffix e ''@'' \<or> \<not> contains e ''.''
         then Inl bad_identifier else Inr (e, []))
      else (case normalize_phone v of Inl e \<Rightarrow> Inl e | Inr p \<Rightarrow> Inr ([], p)))"

subsection \<open>Characters\<close>

lemma digit_not_space: "is_digit c \<Longrightarrow> \<not> is_space c"
  by (auto simp: is_digit_def is_space_def Let_def)

lemma digit_char_facts: "\<not> is_digit CHR 0x2B" "\<not> is_digit CHR 0x40" "\<not> is_space CHR 0x2B"
  by code_simp+

lemma digits_of_digits [simp]: "\<forall>c \<in> set d. is_digit c \<Longrightarrow> digits_of d = d"
  by (simp add: digits_of_def filter_id_conv)

lemma set_digits_of: "\<forall>c \<in> set (digits_of s). is_digit c"
  by (simp add: digits_of_def)

lemma trim_digits: "\<forall>c \<in> set d. is_digit c \<Longrightarrow> trim_space d = d"
  by (rule trim_space_id) (auto simp: digit_not_space)

lemma trim_plus_digits: "d \<noteq> [] \<Longrightarrow> \<forall>c \<in> set d. is_digit c \<Longrightarrow> trim_space (CHR 0x2B # d) = CHR 0x2B # d"
  by (rule trim_space_id) (auto simp: digit_not_space digit_char_facts)

lemma no_at_digits: "\<forall>c \<in> set d. is_digit c \<Longrightarrow> CHR 0x40 \<notin> set d"
  using digit_char_facts(2) by blast

text \<open>A normalized phone number: a plus sign and at least eight digits.\<close>

lemma normalize_phone_shape:
  assumes "normalize_phone raw = Inr p"
  shows "\<exists>d. p = CHR 0x2B # d \<and> (\<forall>c \<in> set d. is_digit c) \<and> 8 \<le> length d \<and> length d \<le> 15"
proof -
  let ?d = "digits_of raw"
  have s: "\<forall>c \<in> set ?d. is_digit c" by (rule set_digits_of)
  have t: "\<forall>c \<in> set (tl ?d). is_digit c" using s by (cases ?d) simp_all
  have n: "is_digit CHR ''2''" "is_digit CHR ''3''" "is_digit CHR ''4''" by code_simp+
  consider "p = CHR 0x2B # ?d" "8 \<le> length ?d" "length ?d \<le> 15" | "p = CHR 0x2B # ''234'' @ tl ?d" "length ?d = 11"
    | "p = CHR 0x2B # ''234'' @ ?d" "length ?d = 10"
    using assms unfolding normalize_phone_def Let_def by (fastforce split: if_splits)
  then show ?thesis
  proof cases
    case 1
    then show ?thesis using s by blast
  next
    case 2
    then show ?thesis using t n by (intro exI [of _ "''234'' @ tl ?d"]) simp
  next
    case 3
    then show ?thesis using s n by (intro exI [of _ "''234'' @ ?d"]) simp
  qed
qed

lemma normalize_plus:
  "\<forall>c \<in> set d. is_digit c \<Longrightarrow> 8 \<le> length d \<Longrightarrow> length d \<le> 15 \<Longrightarrow> normalize_phone (CHR 0x2B # d) = Inr (CHR 0x2B # d)"
proof -
  assume d: "\<forall>c \<in> set d. is_digit c" "8 \<le> length d" "length d \<le> 15"
  then have "trim_space (CHR 0x2B # d) = CHR 0x2B # d" by (intro trim_plus_digits) auto
  moreover have "digits_of (CHR 0x2B # d) = d"
    using d(1) by (simp add: digits_of_def digit_char_facts filter_id_conv)
  ultimately show ?thesis using d by (simp add: normalize_phone_def Let_def has_prefix_def)
qed

text \<open>
  The stored form of an identifier is a fixed point: splitting the email
  or phone number an account was stored under gives the same email or phone number again, so whatever
  form was accepted once logs in to the same account when typed back.
\<close>

theorem identifier_normal_form:
  assumes "split_identifier raw = Inr (e, p)"
  shows "split_identifier (e @ p) = Inr (e, p) \<and> (e = [] \<longleftrightarrow> p \<noteq> [])"
proof (cases "contains (trim_space raw) ''@''")
  case True
  let ?v = "trim_space raw"
  from assms True have v: "?v \<noteq> []" "e = to_lower ?v" "p = []" "5 \<le> length e" "\<not> has_prefix e ''@''"
      "\<not> has_suffix e ''@''" "contains e ''.''"
    by (auto simp: split_identifier_def Let_def split: if_splits)
  have lower_space: "is_space (lower_char c) = is_space c" for c
    by (auto simp: is_space_def lower_char_def Let_def)
  have at: "lower_char CHR 0x40 = CHR 0x40" by code_simp
  have "trim_space e = e"
  proof (rule trim_space_id)
    have "trim_space ?v = ?v" by simp
    note ends = this
    show "\<not> is_space (hd e)"
    proof -
      have "hd e = lower_char (hd ?v)" using v(1,2) by (simp add: to_lower_def hd_map)
      moreover have "\<not> is_space (hd ?v)"
        using v(1) dropWhile_hd [of is_space raw] trim_space_hd [of raw] by auto
      ultimately show ?thesis by (simp add: lower_space)
    qed
    show "\<not> is_space (last e)"
    proof -
      have "last e = lower_char (last ?v)" using v(1,2) by (simp add: to_lower_def last_map)
      moreover have "\<not> is_space (last ?v)" using v(1) trim_space_last [of raw] by auto
      ultimately show ?thesis by (simp add: lower_space)
    qed
  qed
  moreover have "contains e ''@''"
    using True v(2) at unfolding contains_single to_lower_def by (metis imageI list.set_map)
  moreover have "to_lower e = e" using v(2) by simp
  ultimately show ?thesis
    using v by (auto simp: split_identifier_def Let_def)
next
  case False
  with assms have ph: "normalize_phone (trim_space raw) = Inr p" "e = []"
    by (auto simp: split_identifier_def Let_def split: if_splits sum.splits)
  from normalize_phone_shape [OF ph(1)] obtain d where d: "p = CHR 0x2B # d" "\<forall>c \<in> set d. is_digit c"
    "8 \<le> length d" "length d \<le> 15" by blast
  have "trim_space p = p" unfolding d(1) using d by (intro trim_plus_digits) auto
  moreover have "\<not> contains p ''@''"
    using no_at_digits [OF d(2)] by (simp add: contains_single d(1))
  ultimately show ?thesis
    using normalize_plus [OF d(2-4)] ph(2) d(1) by (simp add: split_identifier_def Let_def)
qed

text \<open>
  The four ways a Nigerian number is typed name one account: the ten-digit
  number, the same with a leading 0, with 234, and with +234.
\<close>

theorem phone_spellings_agree:
  assumes "length d = 10" and "\<forall>c \<in> set d. is_digit c"
  shows "split_identifier d = Inr ([], ''+234'' @ d) \<and> split_identifier (''0'' @ d) = Inr ([], ''+234'' @ d) \<and>
    split_identifier (''234'' @ d) = Inr ([], ''+234'' @ d) \<and> split_identifier (''+234'' @ d) = Inr ([], ''+234'' @ d)"
proof -
  have n: "is_digit CHR ''0''" "is_digit CHR ''2''" "is_digit CHR ''3''" "is_digit CHR ''4''" by code_simp+
  have plain: "split_identifier s = (case normalize_phone s of Inl e \<Rightarrow> Inl e | Inr p \<Rightarrow> Inr ([], p))"
    if "s \<noteq> []" "\<forall>c \<in> set s. is_digit c" for s
    using that trim_digits [OF that(2)] no_at_digits [OF that(2)]
    by (simp add: split_identifier_def contains_single)
  have noplus: "\<not> has_prefix (trim_space s) ''+''" if "\<forall>c \<in> set s. is_digit c" for s
    using that trim_digits [OF that] digit_char_facts(1) by (cases s) (auto simp: has_prefix_single)
  have all: "\<forall>c \<in> set (''0'' @ d). is_digit c" "\<forall>c \<in> set (''234'' @ d). is_digit c"
    using assms(2) n by auto
  have d: "d \<noteq> []" using assms(1) by auto
  have "normalize_phone d = Inr (''+234'' @ d)"
    using noplus [OF assms(2)] assms by (simp add: normalize_phone_def Let_def)
  moreover have "normalize_phone (''0'' @ d) = Inr (''+234'' @ d)"
    using noplus [OF all(1)] digits_of_digits [OF all(1)] assms(1)
    by (simp add: normalize_phone_def Let_def has_prefix_def)
  moreover have "normalize_phone (''234'' @ d) = Inr (''+234'' @ d)"
    using noplus [OF all(2)] digits_of_digits [OF all(2)] assms(1)
    by (simp add: normalize_phone_def Let_def has_prefix_def)
  moreover have "split_identifier (''+234'' @ d) = Inr ([], ''+234'' @ d)"
    using normalize_plus [of "''234'' @ d"] all(2) assms(1) trim_plus_digits [of "''234'' @ d"] no_at_digits [OF all(2)]
    by (auto simp: split_identifier_def Let_def contains_single)
  ultimately show ?thesis
    using plain [OF d assms(2)] plain [OF _ all(1)] plain [OF _ all(2)] by simp
qed

section \<open>The rate limiter\<close>

record window =
  wn_count :: int
  wn_start :: time

record limiter =
  rl_limit :: int
  rl_window :: duration
  rl_hits :: "(string \<times> window) list"

definition new_limiter :: "int \<Rightarrow> duration \<Rightarrow> limiter" where
  "new_limiter n per = \<lparr>rl_limit = n, rl_window = per, rl_hits = []\<rparr>"

definition evict :: "time \<Rightarrow> limiter \<Rightarrow> (string \<times> window) list" where
  "evict now r =
     (if 10000 < length (rl_hits r) then filter (\<lambda>(k, w). \<not> rl_window r < now - wn_start w) (rl_hits r)
      else rl_hits r)"

definition allow :: "time \<Rightarrow> string \<Rightarrow> limiter \<Rightarrow> bool \<times> limiter" where
  "allow now key r =
     (if key = [] then (True, r)
      else
        let hits = evict now r;
            open_window = (True, r\<lparr>rl_hits := AList.update key \<lparr>wn_count = 1, wn_start = now\<rparr> hits\<rparr>)
        in case map_of hits key of
             None \<Rightarrow> open_window
           | Some w \<Rightarrow>
               (if rl_window r < now - wn_start w then open_window
                else let n = wn_count w + 1
                     in (n \<le> rl_limit r, r\<lparr>rl_hits := AList.update key (w\<lparr>wn_count := n\<rparr>) hits\<rparr>)))"

text \<open>The answers a sequence of calls gives to one key.\<close>

fun answers :: "string \<Rightarrow> (time \<times> string) list \<Rightarrow> limiter \<Rightarrow> bool list" where
  "answers k [] r = []"
| "answers k ((t, key) # cs) r =
     (case allow t key r of (b, r') \<Rightarrow> (if key = k then b # answers k cs r' else answers k cs r'))"

lemma map_of_filter_keep: "distinct (map fst xs) \<Longrightarrow> map_of xs k = Some w \<Longrightarrow> P (k, w) \<Longrightarrow> map_of (filter P xs) k = Some w"
  by (induction xs) (auto split: if_splits dest: map_of_SomeD)

lemma map_of_filter_sub: "distinct (map fst xs) \<Longrightarrow> map_of (filter P xs) k = None \<or> map_of (filter P xs) k = map_of xs k"
  by (induction xs) (auto simp: map_of_eq_None_iff)

definition limiter_ok :: "limiter \<Rightarrow> bool" where
  "limiter_ok r \<longleftrightarrow> distinct (map fst (rl_hits r))"

lemma allow_ok: "limiter_ok r \<Longrightarrow> limiter_ok (snd (allow now key r))"
  by (auto simp: allow_def limiter_ok_def Let_def evict_def distinct_update distinct_map_filter
      split: option.splits)

lemma allow_frame [simp]:
  "rl_limit (snd (allow now key r)) = rl_limit r" "rl_window (snd (allow now key r)) = rl_window r"
  by (auto simp: allow_def Let_def split: option.splits)

text \<open>Inside its window a key is counted, and other keys do not disturb it.\<close>

lemma allow_in_window:
  assumes "limiter_ok r" "k \<noteq> []" "map_of (rl_hits r) k = Some w" "now - wn_start w \<le> rl_window r"
  shows "map_of (rl_hits (snd (allow now key r))) k = Some (if key = k then w\<lparr>wn_count := wn_count w + 1\<rparr> else w) \<and>
    (key = k \<longrightarrow> fst (allow now key r) = (wn_count w + 1 \<le> rl_limit r))"
proof -
  have "map_of (evict now r) k = Some w"
    using assms by (auto simp: evict_def limiter_ok_def intro!: map_of_filter_keep)
  with assms(2-4) show ?thesis
    by (auto simp: allow_def Let_def update_conv' split: option.splits)
qed

lemma answers_in_window:
  assumes "limiter_ok r" "k \<noteq> []" "map_of (rl_hits r) k = Some w"
    and "\<And>t key. (t, key) \<in> set cs \<Longrightarrow> t - wn_start w \<le> rl_window r"
  shows "count_list (answers k cs r) True \<le> nat (rl_limit r - wn_count w)"
  using assms
proof (induction cs arbitrary: r w)
  case (Cons c cs)
  obtain t key where c: "c = (t, key)" by (cases c)
  obtain b r' where al: "allow t key r = (b, r')" by (cases "allow t key r")
  have r': "limiter_ok r'" "rl_limit r' = rl_limit r" "rl_window r' = rl_window r"
    using allow_ok [OF Cons.prems(1), of t key] allow_frame [of t key r] al by simp_all
  have step: "map_of (rl_hits r') k = Some (if key = k then w\<lparr>wn_count := wn_count w + 1\<rparr> else w)"
    "key = k \<longrightarrow> b = (wn_count w + 1 \<le> rl_limit r)"
    using allow_in_window [OF Cons.prems(1-3), of t key] Cons.prems(4) [of t key] c al by auto
  have "count_list (answers k cs r') True \<le> nat (rl_limit r' - wn_count (if key = k then w\<lparr>wn_count := wn_count w + 1\<rparr> else w))"
    by (rule Cons.IH [OF r'(1) Cons.prems(2) step(1)]) (use Cons.prems(4) r'(3) in auto)
  then show ?case
    using step(2) r'(2) c al by auto
qed simp

text \<open>
  C35 (rate_limit_holds). Once a window has opened for a key, the calls for that key within the window
  are allowed at most up to the limit, counting the one that opened it, however they interleave with
  calls for other keys and with evictions.
\<close>

theorem rate_limit_holds:
  assumes "limiter_ok r" and "key \<noteq> []" and "1 \<le> rl_limit r"
    and "map_of (rl_hits r) key = None \<or> (\<exists>w. map_of (rl_hits r) key = Some w \<and> rl_window r < t - wn_start w)"
    and "\<And>u k. (u, k) \<in> set cs \<Longrightarrow> u - t \<le> rl_window r"
  shows "count_list (answers key ((t, key) # cs) r) True \<le> nat (rl_limit r)"
proof -
  obtain b r' where al: "allow t key r = (b, r')" by (cases "allow t key r")
  have "map_of (evict t r) key = None \<or> (\<exists>w. map_of (evict t r) key = Some w \<and> rl_window r < t - wn_start w)"
    using assms(1,4) map_of_filter_sub [of "rl_hits r" "\<lambda>(k, w). \<not> rl_window r < t - wn_start w" key]
    by (auto simp: evict_def limiter_ok_def)
  then have "map_of (rl_hits r') key = Some \<lparr>wn_count = 1, wn_start = t\<rparr>"
    using al assms(2) by (auto simp: allow_def Let_def update_conv' split: option.splits if_splits)
  moreover have "limiter_ok r'" "rl_limit r' = rl_limit r" "rl_window r' = rl_window r"
    using allow_ok [OF assms(1), of t key] allow_frame [of t key r] al by simp_all
  ultimately have "count_list (answers key cs r') True \<le> nat (rl_limit r - 1)"
    using answers_in_window [of r' key "\<lparr>wn_count = 1, wn_start = t\<rparr>" cs] assms(2,5) by auto
  then show ?thesis using al assms(3) by auto
qed

end
