(* ===== verification/BillingLaws.thy ===== *)
theory BillingLaws
  imports Billing
begin

text \<open>
  Prepaid time: how blocks stack, what a purchase does to the time and the entitlement a user
  already has, and which users the expiry sweep finds.
\<close>

section \<open>Stacking\<close>

lemma foldr_max_le: "x \<in> set xs \<Longrightarrow> x \<le> foldr max xs (a :: int)"
  by (induction xs) auto

lemma foldr_max_base: "a \<le> foldr max xs (a :: int)"
  by (induction xs) auto

lemma foldr_max_mem: "foldr max xs (a :: int) \<in> insert a (set xs)"
  by (induction xs) (auto simp: max_def)

lemma block_start_simps:
  "block_start now uid d = foldr max (map sb_expires_at (open_blocks now uid d)) now"
  by (simp add: block_start_def max_absorb2 foldr_max_base)

lemma block_start_ge: "now \<le> block_start now uid d"
  by (simp add: block_start_def)

lemma open_block_ends: "s \<in> set (open_blocks now uid d) \<Longrightarrow> sb_expires_at s \<le> block_start now uid d"
  by (simp add: block_start_simps foldr_max_le)

lemma foldr_max_pull: "foldr max xs (max a b) = max a (foldr max xs (b :: int))"
  by (induction xs) (auto simp: max.left_commute)

text \<open>The time a user's unrevoked blocks cover.\<close>

definition paid_time :: "uuid \<Rightarrow> db \<Rightarrow> time set" where
  "paid_time uid d = {t. covered t uid d}"

definition unrevoked :: "uuid \<Rightarrow> db \<Rightarrow> subscription list" where
  "unrevoked uid d = filter (\<lambda>s. sb_user_id s = uid \<and> sb_revoked_at s = None) (subscriptions d)"

lemma unrevoked_ends: "s \<in> set (unrevoked uid d) \<Longrightarrow> sb_expires_at s \<le> block_start now uid d"
  using open_block_ends [of s now uid d] block_start_ge [of now uid d]
  by (cases "now < sb_expires_at s") (auto simp: unrevoked_def open_blocks_def)

lemma grant_Inr:
  assumes "grant_time_block now uid code source d = (Inr s, d')"
  shows "\<exists>p. find (\<lambda>p. pl_code p = code) (plans d) = Some p \<and> 0 < pl_duration p \<and>
    sb_user_id s = uid \<and> sb_plan_code s = code \<and> sb_revoked_at s = None \<and> sb_source s = source \<and>
    sb_starts_at s = block_start now uid d \<and> sb_expires_at s = block_start now uid d + pl_duration p \<and>
    d' = d\<lparr>subscriptions := subscriptions d @ [s], next_id := Suc (next_id d)\<rparr>"
proof (cases "find (\<lambda>p. pl_code p = code) (plans d)")
  case None
  with assms show ?thesis by (simp add: grant_time_block_def)
next
  case (Some p)
  have "pl_code p = code" using find_Some_iff_set [OF Some] by simp
  with assms Some show ?thesis
    by (intro exI [of _ p]) (auto simp: grant_time_block_def Let_def split: if_splits)
qed

lemma covered_append:
  "covered t uid (d\<lparr>subscriptions := subscriptions d @ [s], next_id := n\<rparr>) \<longleftrightarrow>
   covered t uid d \<or> (sb_user_id s = uid \<and> running t s)"
  by (auto simp: covered_def)

text \<open>
  C27 (blocks_stack). A purchase never eats into time already paid for: the new block starts no
  earlier than now and no earlier than the end of any unrevoked block of the user, it lasts exactly
  the plan's duration, and it adds exactly its own window to the time the user has paid for, all of
  it new. Other users' time is untouched.
\<close>

theorem blocks_stack:
  assumes "grant_time_block now uid code source d = (Inr s, d')"
  shows "now \<le> sb_starts_at s \<and> (\<forall>b \<in> set (unrevoked uid d). sb_expires_at b \<le> sb_starts_at s) \<and>
    (\<exists>p \<in> set (plans d). pl_code p = code \<and> sb_expires_at s = sb_starts_at s + pl_duration p) \<and>
    paid_time uid d' = paid_time uid d \<union> {sb_starts_at s ..< sb_expires_at s} \<and>
    paid_time uid d \<inter> {sb_starts_at s ..< sb_expires_at s} = {} \<and>
    (\<forall>v. v \<noteq> uid \<longrightarrow> paid_time v d' = paid_time v d)"
proof -
  obtain p where p: "find (\<lambda>p. pl_code p = code) (plans d) = Some p" "sb_user_id s = uid" "sb_revoked_at s = None"
    "sb_starts_at s = block_start now uid d" "sb_expires_at s = block_start now uid d + pl_duration p"
    "d' = d\<lparr>subscriptions := subscriptions d @ [s], next_id := Suc (next_id d)\<rparr>"
    using grant_Inr [OF assms] by blast
  have ends: "sb_expires_at b \<le> sb_starts_at s" if "b \<in> set (unrevoked uid d)" for b
    using unrevoked_ends [OF that] p(4) by simp
  then have "paid_time uid d \<inter> {sb_starts_at s ..< sb_expires_at s} = {}"
    by (force simp: paid_time_def covered_def list_ex_iff running_def unrevoked_def)
  moreover have "p \<in> set (plans d) \<and> pl_code p = code" using find_Some_iff_set [OF p(1)] .
  ultimately show ?thesis
    using p block_start_ge [of now uid d] ends
    by (auto simp: paid_time_def covered_append running_def)
qed

text \<open>
  Topping up early leaves no gap: if the user was covered from now to the
  end of the last block, then after the purchase the user is covered from now until exactly the
  plan's duration later than before.
\<close>

theorem top_up_is_seamless:
  assumes "grant_time_block now uid code source d = (Inr s, d')"
    and "{now ..< block_start now uid d} \<subseteq> paid_time uid d"
  shows "{now ..< block_start now uid d'} \<subseteq> paid_time uid d' \<and>
    (\<exists>p \<in> set (plans d). pl_code p = code \<and> block_start now uid d' = block_start now uid d + pl_duration p)"
proof -
  obtain p where p: "find (\<lambda>p. pl_code p = code) (plans d) = Some p" "0 < pl_duration p" "sb_user_id s = uid" "sb_revoked_at s = None"
    "sb_starts_at s = block_start now uid d" "sb_expires_at s = block_start now uid d + pl_duration p"
    "d' = d\<lparr>subscriptions := subscriptions d @ [s], next_id := Suc (next_id d)\<rparr>"
    using grant_Inr [OF assms(1)] by blast
  have o: "open_blocks now uid d' = open_blocks now uid d @ [s]"
    using p block_start_ge [of now uid d] by (simp add: open_blocks_def)
  have "block_start now uid d' = max (sb_expires_at s) (block_start now uid d)"
    unfolding block_start_simps o by (simp add: foldr_max_pull)
  then have b: "block_start now uid d' = block_start now uid d + pl_duration p"
    using p by simp
  have "t \<in> paid_time uid d'" if "now \<le> t" "t < block_start now uid d + pl_duration p" for t
    using that assms(2) p
    by (cases "t < block_start now uid d") (auto simp: paid_time_def covered_append running_def)
  moreover have "p \<in> set (plans d) \<and> pl_code p = code" using find_Some_iff_set [OF p(1)] .
  ultimately show ?thesis using b by auto
qed

section \<open>Entitlement\<close>

definition block_key :: "subscription \<times> plan \<Rightarrow> int \<times> int" where
  "block_key x = (- pl_device_limit (snd x), - sb_expires_at (fst x))"

lemma entitlement_cases:
  "(running_blocks now uid d = [] \<and> entitlement_of now uid d = no_entitlement) \<or>
   (\<exists>x \<in> set (running_blocks now uid d).
      entitlement_of now uid d = \<lparr>e_active = True, e_plan_code = sb_plan_code (fst x), e_expires_at = sb_expires_at (fst x),
        e_device_limit = pl_device_limit (snd x)\<rparr> \<and>
      (\<forall>y \<in> set (running_blocks now uid d). block_key x \<le> block_key y))"
proof -
  have key: "(\<lambda>(s, p). (- pl_device_limit p, - sb_expires_at s)) = block_key"
    by (simp add: fun_eq_iff block_key_def)
  show ?thesis
  proof (cases "sort_key block_key (running_blocks now uid d)")
    case Nil
    then have "running_blocks now uid d = []" by (metis length_0_conv length_sort)
    then show ?thesis by (simp add: entitlement_of_def)
  next
    case (Cons x rest)
    have set: "set (running_blocks now uid d) = set (x # rest)" by (metis Cons set_sort)
    have "sorted (map block_key (x # rest))" by (metis Cons sorted_sort_key)
    then have "\<forall>y \<in> set (running_blocks now uid d). block_key x \<le> block_key y" unfolding set by auto
    moreover have "entitlement_of now uid d = \<lparr>e_active = True, e_plan_code = sb_plan_code (fst x),
        e_expires_at = sb_expires_at (fst x), e_device_limit = pl_device_limit (snd x)\<rparr>"
      unfolding entitlement_of_def key Cons by (simp add: case_prod_beta)
    moreover have "x \<in> set (running_blocks now uid d)" unfolding set by simp
    ultimately show ?thesis by blast
  qed
qed

text \<open>
  C32 (entitlement_is_best_block). A user is entitled exactly while some unrevoked block with a known
  plan is running; the entitlement is one of those blocks, none of the others allows more devices,
  and none that allows as many runs longer.
\<close>

theorem entitlement_is_best_block:
  "(e_active (entitlement_of now uid d) \<longleftrightarrow> running_blocks now uid d \<noteq> []) \<and>
   (e_active (entitlement_of now uid d) \<longrightarrow>
     (\<exists>b \<in> set (running_blocks now uid d).
        e_plan_code (entitlement_of now uid d) = sb_plan_code (fst b) \<and>
        e_expires_at (entitlement_of now uid d) = sb_expires_at (fst b) \<and>
        e_device_limit (entitlement_of now uid d) = pl_device_limit (snd b)) \<and>
     (\<forall>b \<in> set (running_blocks now uid d).
        pl_device_limit (snd b) \<le> e_device_limit (entitlement_of now uid d) \<and>
        (pl_device_limit (snd b) = e_device_limit (entitlement_of now uid d) \<longrightarrow>
           sb_expires_at (fst b) \<le> e_expires_at (entitlement_of now uid d))))"
  using entitlement_cases [of now uid d]
proof
  assume "running_blocks now uid d = [] \<and> entitlement_of now uid d = no_entitlement"
  then show ?thesis by (simp add: no_entitlement_def)
next
  assume "\<exists>x \<in> set (running_blocks now uid d). entitlement_of now uid d = \<lparr>e_active = True,
      e_plan_code = sb_plan_code (fst x), e_expires_at = sb_expires_at (fst x), e_device_limit = pl_device_limit (snd x)\<rparr> \<and>
      (\<forall>y \<in> set (running_blocks now uid d). block_key x \<le> block_key y)"
  then obtain x where x: "x \<in> set (running_blocks now uid d)" "entitlement_of now uid d = \<lparr>e_active = True,
      e_plan_code = sb_plan_code (fst x), e_expires_at = sb_expires_at (fst x), e_device_limit = pl_device_limit (snd x)\<rparr>"
      and best: "\<And>y. y \<in> set (running_blocks now uid d) \<Longrightarrow> block_key x \<le> block_key y" by blast
  have "running_blocks now uid d \<noteq> []" using x(1) by auto
  with x best show ?thesis by (fastforce simp: block_key_def less_eq_prod_def)
qed

text \<open>
  While a user is entitled, buying another block, of whatever
  plan, leaves the current entitlement as it is: the device limit of a bigger plan applies only when
  the stacked block starts.
\<close>

theorem purchase_does_not_upgrade_now:
  assumes "e_active (entitlement_of now uid d)" and "grant_time_block now uid code source d = (Inr s, d')"
  shows "entitlement_of now uid d' = entitlement_of now uid d"
proof -
  obtain p where p: "sb_user_id s = uid" "sb_starts_at s = block_start now uid d"
    "d' = d\<lparr>subscriptions := subscriptions d @ [s], next_id := Suc (next_id d)\<rparr>"
    using grant_Inr [OF assms(2)] by blast
  have "running_blocks now uid d \<noteq> []"
    using assms(1) entitlement_cases [of now uid d] by (auto simp: no_entitlement_def)
  then obtain b where b: "b \<in> set (subscriptions d)" "sb_user_id b = uid" "running now b"
    by (auto simp: running_blocks_def filter_empty_conv)
  then have "b \<in> set (open_blocks now uid d)" by (simp add: open_blocks_def running_def)
  then have "now < sb_starts_at s"
    using open_block_ends [of b now uid d] b(3) p(2) by (simp add: running_def)
  then have "running_blocks now uid d' = running_blocks now uid d"
    using p by (simp add: running_blocks_def running_def)
  then show ?thesis by (simp add: entitlement_of_def)
qed

end
