(* ===== verification/Paystack.thy ===== *)
theory Paystack
  imports Model UrlBase64
begin

text \<open>
  \<open>server/internal/payments/paystack/paystack.go\<close>: the payment provider's client. The signature
  function, the JSON decoders and the transport are parameters.
\<close>

section \<open>Events\<close>

record paystack_metadata =
  md_user_id :: "uuid option"
  md_plan_code :: string

record paystack_event =
  ev_event :: string
  ev_id :: int
  ev_reference :: string
  ev_status :: string
  ev_amount :: int
  ev_metadata :: paystack_metadata

definition event_id :: "paystack_event \<Rightarrow> string" where
  "event_id e = (if ev_id e \<noteq> 0 then ev_event e @ '':'' @ int_text (ev_id e)
                 else ev_event e @ '':'' @ ev_reference e)"

text \<open>\<open>mac key body\<close> is the hexadecimal HMAC-SHA512 of the body.\<close>

record paystack_client =
  pc_secret_key :: string
  pc_webhook_key :: string

definition new_paystack :: "string \<Rightarrow> string \<Rightarrow> paystack_client" where
  "new_paystack secret webhook =
     \<lparr>pc_secret_key = secret, pc_webhook_key = (if webhook = [] then secret else webhook)\<rparr>"

definition verify_signature :: "(string \<Rightarrow> string \<Rightarrow> string) \<Rightarrow> paystack_client \<Rightarrow> string \<Rightarrow> string \<Rightarrow> bool" where
  "verify_signature mac c body sig \<longleftrightarrow> mac (pc_webhook_key c) body = sig"

text \<open>The error of \<open>ParseEvent\<close>; \<open>unmarshal\<close> is the JSON decoder.\<close>

definition parse_event :: "(string \<Rightarrow> goerr + paystack_event) \<Rightarrow> string \<Rightarrow> goerr + paystack_event" where
  "parse_event unmarshal body =
     (case unmarshal body of
        Inl e \<Rightarrow> Inl (Wrap ''paystack: decode event: '' e [])
      | Inr ev \<Rightarrow> (if ev_event ev = [] then Inl (Sentinel (OtherError ''paystack: event missing type'')) else Inr ev))"

text \<open>
  \<open>Metadata.UnmarshalJSON\<close>, from the value \<open>m\<close> the field had: an object, or an object inside a JSON
  string; anything else leaves the value as it was.
\<close>

definition unmarshal_metadata ::
  "(string \<Rightarrow> paystack_metadata option) \<Rightarrow> (string \<Rightarrow> string option) \<Rightarrow> string \<Rightarrow> paystack_metadata \<Rightarrow> paystack_metadata" where
  "unmarshal_metadata as_object as_string b m =
     (if b = [] \<or> b = ''null'' \<or> b = [CHR 0x22, CHR 0x22] then m
      else case as_object b of
        Some direct \<Rightarrow> direct
      | None \<Rightarrow>
          (case as_string b of
             None \<Rightarrow> m
           | Some s \<Rightarrow> (case as_object s of None \<Rightarrow> m | Some nested \<Rightarrow> nested)))"

section \<open>Calls\<close>

record checkout_params =
  cp_email :: string
  cp_amount_kobo :: int
  cp_reference :: string
  cp_callback_url :: string
  cp_metadata :: paystack_metadata
  cp_channels :: "string list"

record checkout_result =
  co_authorization_url :: string
  co_access_code :: string
  co_reference :: string

definition api_base :: string where
  "api_base = ''https://api.paystack.co''"

record pay_request =
  pr_method :: string
  pr_url :: string
  pr_headers :: "(string \<times> string) list"
  pr_body :: "any option"

text \<open>The response's status line and what reading its body gives; at most a megabyte is read.\<close>

record pay_response =
  pp_status :: string
  pp_body :: "goerr + string"

definition read_limit :: nat where "read_limit = 1048576"

definition metadata_json :: "(uuid \<Rightarrow> string) \<Rightarrow> paystack_metadata \<Rightarrow> any" where
  "metadata_json uid_text m =
     AMap [(''user_id'', AString (case md_user_id m of None \<Rightarrow> [] | Some u \<Rightarrow> uid_text u)),
           (''plan_code'', AString (md_plan_code m))]"

definition initialize_payload :: "(uuid \<Rightarrow> string) \<Rightarrow> checkout_params \<Rightarrow> any" where
  "initialize_payload uid_text p =
     AMap ([(''email'', AString (cp_email p)), (''amount'', AInt64 (cp_amount_kobo p)), (''reference'', AString (cp_reference p)),
            (''metadata'', metadata_json uid_text (cp_metadata p)), (''currency'', AString ''NGN'')] @
           (if cp_callback_url p \<noteq> [] then [(''callback_url'', AString (cp_callback_url p))] else []) @
           (if cp_channels p \<noteq> [] then [(''channels'', ASlice (map AString (cp_channels p)))] else []))"

text \<open>
  \<open>decode\<close> reads the envelope: its status, its message and its data. \<open>bad_url\<close> is the error of
  building the request, if the URL is none.
\<close>

definition paystack_initialize ::
  "(uuid \<Rightarrow> string) \<Rightarrow> (string \<Rightarrow> goerr + (bool \<times> string \<times> checkout_result)) \<Rightarrow> (string \<Rightarrow> goerr option) \<Rightarrow>
   (pay_request \<Rightarrow> goerr + pay_response) \<Rightarrow> paystack_client \<Rightarrow> checkout_params \<Rightarrow> goerr + checkout_result" where
  "paystack_initialize uid_text decode bad_url http c p =
     (let url = api_base @ ''/transaction/initialize'' in
      case bad_url url of
        Some e \<Rightarrow> Inl e
      | None \<Rightarrow>
          (case http \<lparr>pr_method = ''POST'', pr_url = url,
                 pr_headers = [(''Authorization'', ''Bearer '' @ pc_secret_key c), (''Content-Type'', ''application/json'')],
                 pr_body = Some (initialize_payload uid_text p)\<rparr> of
             Inl e \<Rightarrow> Inl (Wrap ''paystack: initialize: '' e [])
           | Inr resp \<Rightarrow>
               (case pp_body resp of
                  Inl e \<Rightarrow> Inl e
                | Inr raw \<Rightarrow>
                    (case decode (take read_limit raw) of
                       Inl e \<Rightarrow> Inl (Wrap (''paystack: decode initialize response ('' @ pp_status resp @ ''): '') e [])
                     | Inr (ok, msg, data) \<Rightarrow>
                         (if \<not> ok then Inl (Sentinel (OtherError (''paystack: initialize rejected: '' @ msg)))
                          else Inr data)))))"

text \<open>\<open>decode_data\<close> reads the transaction into an event that says nothing yet.\<close>

definition empty_event :: paystack_event where
  "empty_event = \<lparr>ev_event = ''charge.success'', ev_id = 0, ev_reference = [], ev_status = [], ev_amount = 0,
     ev_metadata = \<lparr>md_user_id = None, md_plan_code = []\<rparr>\<rparr>"

definition paystack_verify ::
  "(string \<Rightarrow> goerr + (bool \<times> string)) \<Rightarrow> (string \<Rightarrow> paystack_event \<Rightarrow> goerr + paystack_event) \<Rightarrow> (string \<Rightarrow> goerr option) \<Rightarrow>
   (pay_request \<Rightarrow> goerr + pay_response) \<Rightarrow> paystack_client \<Rightarrow> string \<Rightarrow> goerr + paystack_event" where
  "paystack_verify decode decode_data bad_url http c reference =
     (let url = api_base @ ''/transaction/verify/'' @ reference in
      case bad_url url of
        Some e \<Rightarrow> Inl e
      | None \<Rightarrow>
          (case http \<lparr>pr_method = ''GET'', pr_url = url, pr_headers = [(''Authorization'', ''Bearer '' @ pc_secret_key c)],
                 pr_body = None\<rparr> of
             Inl e \<Rightarrow> Inl (Wrap ''paystack: verify: '' e [])
           | Inr resp \<Rightarrow>
               (case pp_body resp of
                  Inl e \<Rightarrow> Inl e
                | Inr raw \<Rightarrow>
                    (case decode (take read_limit raw) of
                       Inl e \<Rightarrow> Inl (Wrap (''paystack: decode verify response ('' @ pp_status resp @ ''): '') e [])
                     | Inr (ok, data) \<Rightarrow>
                         (if \<not> ok then Inl (Sentinel (OtherError (''paystack: verify failed for '' @ reference)))
                          else decode_data data empty_event)))))"

end
