(* ===== verification/Checkout.thy ===== *)
theory Checkout
  imports Respond BillingLaws Paystack
begin

text \<open>
  \<open>server/internal/api/payment_handlers.go\<close>: opening a checkout, the client-triggered verification, the
  webhook, and the one place where a settled payment becomes time. The calls to Paystack are
  parameters, to be filled with the client of \<open>Paystack\<close>.
\<close>

section \<open>Settling\<close>

text \<open>The store calls of the payment handlers.\<close>

definition store_payment_by_ref :: "string \<Rightarrow> string \<Rightarrow> ('e, goerr + payment_row) proc" where
  "store_payment_by_ref provider ref = db_call (\<lambda>now. payment_by_ref provider ref)"

definition store_settle_payment :: "string \<Rightarrow> string \<Rightarrow> string \<Rightarrow> ('e, goerr + (payment_row \<times> bool)) proc" where
  "store_settle_payment provider ref payload = db_call (\<lambda>now. settle_payment provider ref payload)"

definition store_grant_time_block :: "uuid \<Rightarrow> string \<Rightarrow> string \<Rightarrow> ('e, goerr + subscription) proc" where
  "store_grant_time_block uid code source = db_call (\<lambda>now. grant_time_block now uid code source)"

definition store_record_webhook_event :: "string \<Rightarrow> string \<Rightarrow> string \<Rightarrow> string \<Rightarrow> ('e, goerr + bool) proc" where
  "store_record_webhook_event provider i typ payload = db_call (\<lambda>now. record_webhook_event provider i typ payload)"

definition store_mark_webhook_handled :: "string \<Rightarrow> string \<Rightarrow> ('e, goerr + unit) proc" where
  "store_mark_webhook_handled provider i = db_call (\<lambda>now. mark_webhook_handled now provider i)"

definition store_upsert_payment :: "payment_row \<Rightarrow> ('e, goerr + uuid) proc" where
  "store_upsert_payment p = db_call (\<lambda>now. upsert_payment p)"

definition store_plan :: "string \<Rightarrow> ('e, goerr + plan) proc" where
  "store_plan code = db_call (\<lambda>now. plan_by_code code)"

definition store_user_by_id :: "uuid \<Rightarrow> ('e, goerr + user_row) proc" where
  "store_user_by_id i = db_call (\<lambda>now. user_by_id i)"

lemmas pay_store_defs = store_payment_by_ref_def store_settle_payment_def store_grant_time_block_def
  store_record_webhook_event_def store_mark_webhook_handled_def store_upsert_payment_def store_plan_def
  store_user_by_id_def

text \<open>
  The end of \<open>settleCharge\<close>: the block for a payment that has just been settled, for the recorded
  user and plan, or those of the event where nothing is recorded. An empty plan code is no plan.
\<close>

definition grant_settled :: "paystack_event \<Rightarrow> payment_row \<Rightarrow> ('e, goerr + bool) proc" where
  "grant_settled ev settled =
     (let uid = (case py_user_id settled of Some u \<Rightarrow> Some u | None \<Rightarrow> md_user_id (ev_metadata ev));
          recorded = coalesce (py_plan_code settled) [];
          code = (if recorded = [] then md_plan_code (ev_metadata ev) else recorded)
      in if uid = None \<or> code = []
         then ret (Inl (Sentinel (OtherError (''settled payment '' @ ev_reference ev @ '' has no user/plan to grant''))))
         else do {
           rg \<leftarrow> store_grant_time_block (the uid) code ''paystack'';
           case rg of
             Inl e \<Rightarrow> ret (Inl (Wrap ''grant time block: '' e []))
           | Inr sub \<Rightarrow> ret (Inr True)
         })"

text \<open>\<open>marshal\<close> re-serialises the event for the payment's payload.\<close>

definition settle_charge ::
  "(paystack_event \<Rightarrow> string) \<Rightarrow> paystack_event \<Rightarrow> ('e, goerr + bool) proc" where
  "settle_charge marshal ev =
     (if ev_reference ev = [] then ret (Inl (Sentinel (OtherError ''charge.success without a reference'')))
      else do {
        rp \<leftarrow> store_payment_by_ref ''paystack'' (ev_reference ev);
        case rp of
          Inl e \<Rightarrow> ret (Inr False)
        | Inr payment \<Rightarrow>
            (if ev_amount ev < py_amount_kobo payment then ret (Inr False)
             else do {
               rs \<leftarrow> store_settle_payment ''paystack'' (ev_reference ev) (marshal ev);
               case rs of
                 Inl e \<Rightarrow> ret (Inl e)
               | Inr (settled, first_time) \<Rightarrow>
                   (if \<not> first_time then ret (Inr False) else grant_settled ev settled)
             })
      })"

definition process_webhook ::
  "(paystack_event \<Rightarrow> string) \<Rightarrow> paystack_event \<Rightarrow> string \<Rightarrow> ('e, goerr + unit) proc" where
  "process_webhook marshal ev body = do {
     rf \<leftarrow> store_record_webhook_event ''paystack'' (event_id ev) (ev_event ev) body;
     case rf of
       Inl e \<Rightarrow> ret (Inl e)
     | Inr fresh \<Rightarrow>
         (if \<not> fresh then ret (Inr ())
          else do {
            rs \<leftarrow> (if ev_event ev = ''charge.success'' then settle_charge marshal ev else ret (Inr False));
            case rs of
              Inl e \<Rightarrow> ret (Inl e)
            | Inr _ \<Rightarrow> store_mark_webhook_handled ''paystack'' (event_id ev)
          })
   }"

text \<open>
  The webhook handler: \<open>Inl\<close> is an answer given before anything is processed, \<open>Inr\<close> the event
  that is acknowledged and processed in the background.
\<close>

definition handle_paystack_webhook ::
  "(string \<Rightarrow> string \<Rightarrow> string) \<Rightarrow> (string \<Rightarrow> goerr + paystack_event) \<Rightarrow> paystack_client \<Rightarrow> string \<Rightarrow> string \<Rightarrow>
   unit reply + paystack_event" where
  "handle_paystack_webhook mac unmarshal c body sig =
     (if \<not> verify_signature mac c body sig
      then Inl (write_error 401 ''bad_signature'' ''signature verification failed'')
      else case parse_event unmarshal body of
             Inl e \<Rightarrow> Inl (write_error 400 ''invalid_event'' ''could not parse event'')
           | Inr ev \<Rightarrow> Inr ev)"

definition webhook ::
  "(string \<Rightarrow> string \<Rightarrow> string) \<Rightarrow> (string \<Rightarrow> goerr + paystack_event) \<Rightarrow> (paystack_event \<Rightarrow> string) \<Rightarrow>
   paystack_client \<Rightarrow> string \<Rightarrow> string \<Rightarrow> ('e, unit reply) proc" where
  "webhook mac unmarshal marshal c body sig =
     (case handle_paystack_webhook mac unmarshal c body sig of
        Inl answer \<Rightarrow> ret answer
      | Inr ev \<Rightarrow> do { _ \<leftarrow> process_webhook marshal ev body; ret (Ok_reply 200 ()) })"

section \<open>Verification and checkout\<close>

record verify_body =
  vb_status :: string
  vb_granted :: bool
  vb_entitlement :: "entitlement option"

text \<open>\<open>verify\<close> is the answer of Paystack's verify endpoint for a reference.\<close>

definition handle_verify_payment ::
  "(string \<Rightarrow> goerr + paystack_event) \<Rightarrow> (paystack_event \<Rightarrow> string) \<Rightarrow> uuid \<Rightarrow> string \<Rightarrow> ('e, verify_body reply) proc" where
  "handle_verify_payment verify marshal uid ref =
     (if ref = [] then ret (write_error 400 ''invalid_request'' ''reference is required'')
      else do {
        rp \<leftarrow> store_payment_by_ref ''paystack'' ref;
        on_error rp (\<lambda>_. write_error 404 ''unknown_reference'' ''no such payment'') (\<lambda>payment.
          if py_user_id payment \<noteq> Some uid
          then ret (write_error 404 ''unknown_reference'' ''no such payment'')
          else on_error (verify ref)
            (\<lambda>_. write_error 502 ''payment_provider_error'' ''could not verify the payment'') (\<lambda>ev.
              if ev_status ev \<noteq> ''success''
              then ret (Ok_reply 200 \<lparr>vb_status = ev_status ev, vb_granted = False, vb_entitlement = None\<rparr>)
              else do {
                rg \<leftarrow> settle_charge marshal ev;
                on_error rg write_domain_error (\<lambda>granted. do {
                  re \<leftarrow> store_entitlement uid;
                  on_error re write_domain_error (\<lambda>ent.
                    ret (Ok_reply 200 \<lparr>vb_status = ''success'', vb_granted = granted, vb_entitlement = Some ent\<rparr>))
                })
              }))
      })"

record checkout_body =
  cb_result :: checkout_result
  cb_amount_kobo :: int
  cb_plan_code :: string

text \<open>\<open>newReference\<close>, from the outcome of the random source.\<close>

definition new_reference :: "goerr + int list \<Rightarrow> goerr + string" where
  "new_reference random =
     (case random of
        Inl e \<Rightarrow> Inl e
      | Inr buf \<Rightarrow> Inr (''pxf_'' @ url_encode buf))"

text \<open>
  \<open>fresh\<close> is the outcome of \<open>newReference\<close> and \<open>init\<close> Paystack's answer to the checkout
  request; \<open>uid_text\<close> prints a user id.
\<close>

definition handle_initialize_payment ::
  "(uuid \<Rightarrow> string) \<Rightarrow> goerr + string \<Rightarrow> (checkout_params \<Rightarrow> goerr + checkout_result) \<Rightarrow>
   uuid \<Rightarrow> string \<Rightarrow> string \<Rightarrow> ('e, checkout_body reply) proc" where
  "handle_initialize_payment uid_text fresh init uid plan_code callback = do {
     rp \<leftarrow> store_plan plan_code;
     on_error rp (\<lambda>_. write_error 404 ''unknown_plan'' ''no such plan'') (\<lambda>p.
       if pl_is_free p \<or> pl_price_kobo p = 0
       then ret (write_error 400 ''not_purchasable'' ''that plan is not purchasable'')
       else do {
         ru \<leftarrow> store_user_by_id uid;
         on_error ru write_domain_error (\<lambda>user.
           let email = (if coalesce (u_email user) [] = [] then uid_text uid @ ''@users.proxify.ng''
                        else coalesce (u_email user) [])
           in on_error fresh write_domain_error (\<lambda>reference. do {
                rs \<leftarrow> store_upsert_payment \<lparr>py_id = 0, py_user_id = Some uid, py_provider = ''paystack'',
                  py_provider_ref = reference, py_plan_code = Some (pl_code p), py_amount_kobo = pl_price_kobo p,
                  py_currency = pl_currency p, py_status = PayPending, py_payload = []\<rparr>;
                on_error rs write_domain_error (\<lambda>_.
                  on_error (init \<lparr>cp_email = email, cp_amount_kobo = pl_price_kobo p, cp_reference = reference,
                      cp_callback_url = callback,
                      cp_metadata = \<lparr>md_user_id = Some uid, md_plan_code = pl_code p\<rparr>,
                      cp_channels = [''card'', ''bank'', ''ussd'', ''bank_transfer'', ''mobile_money'']\<rparr>)
                    (\<lambda>_. write_error 502 ''payment_provider_error'' ''could not start the payment'') (\<lambda>res.
                      ret (Ok_reply 200 \<lparr>cb_result = res, cb_amount_kobo = pl_price_kobo p,
                        cb_plan_code = pl_code p\<rparr>)))
              }))
       })
   }"

end
