(* ===== verification/Sessions.thy ===== *)
theory Sessions
  imports Tokens Identifier Checkout
begin

text \<open>
  \<open>server/internal/api/auth_handlers.go\<close>: signup, login, refresh, logout and the account view, over
  the world of \<open>Store\<close> and the two rate limiters of the server.
\<close>

section \<open>The server\<close>

text \<open>The parameters of a server: its signer, its configuration, and the hash functions.\<close>

record session_env =
  se_signer :: signer
  se_refresh_ttl :: duration
  se_free_plan :: bool
  se_sha :: "string \<Rightarrow> string"
  se_bcrypt :: "string \<Rightarrow> goerr + string"
  se_compare :: "string \<Rightarrow> string \<Rightarrow> goerr option"
  se_id_text :: "uuid \<Rightarrow> string"

record 'e api =
  ap_world :: "'e world"
  ap_login :: limiter
  ap_signup :: limiter

type_synonym ('e, 'a) handler = "('e api, 'a reply) state"

definition new_server :: "'e world \<Rightarrow> 'e api" where
  "new_server w = \<lparr>ap_world = w, ap_login = new_limiter 10 minute, ap_signup = new_limiter 5 (10 * minute)\<rparr>"

definition on_world :: "('e, 'a) proc \<Rightarrow> ('e api, 'a) state" where
  "on_world m = State (\<lambda>s. case run_state m (ap_world s) of (r, w) \<Rightarrow> (r, s\<lparr>ap_world := w\<rparr>))"

definition login_allowed :: "string \<Rightarrow> ('e api, bool) state" where
  "login_allowed key = State (\<lambda>s. case allow (w_now (ap_world s)) key (ap_login s) of (b, l) \<Rightarrow> (b, s\<lparr>ap_login := l\<rparr>))"

definition signup_allowed :: "string \<Rightarrow> ('e api, bool) state" where
  "signup_allowed key = State (\<lambda>s. case allow (w_now (ap_world s)) key (ap_signup s) of (b, l) \<Rightarrow> (b, s\<lparr>ap_signup := l\<rparr>))"

text \<open>The store calls of these handlers.\<close>

definition store_create_user :: "string \<Rightarrow> string \<Rightarrow> string \<Rightarrow> ('e, goerr + user_row) proc" where
  "store_create_user email phone hash = db_call (\<lambda>now. create_user now email phone hash)"

definition store_user_by_identifier :: "string \<Rightarrow> ('e, goerr + user_row) proc" where
  "store_user_by_identifier ident = db_call (\<lambda>now. user_by_identifier ident)"

definition store_create_refresh_token :: "uuid \<Rightarrow> uuid option \<Rightarrow> string \<Rightarrow> time \<Rightarrow> ('e, goerr + uuid) proc" where
  "store_create_refresh_token uid dev hash expires = db_call (\<lambda>now. create_refresh_token uid dev hash expires)"

definition store_rotate_refresh_token :: "string \<Rightarrow> string \<Rightarrow> time \<Rightarrow> ('e, goerr + (uuid \<times> uuid option)) proc" where
  "store_rotate_refresh_token old_hash new_hash expires = db_call (\<lambda>now. rotate_refresh_token now old_hash new_hash expires)"

definition store_revoke_refresh_token :: "string \<Rightarrow> ('e, goerr + unit) proc" where
  "store_revoke_refresh_token hash = db_call (\<lambda>now. revoke_refresh_token now hash)"

lemmas session_store_defs = store_create_user_def store_user_by_identifier_def store_create_refresh_token_def
  store_rotate_refresh_token_def store_revoke_refresh_token_def

section \<open>Handlers\<close>

record token_response =
  tk_access :: string
  tk_refresh :: string
  tk_expires_at :: time
  tk_user_id :: uuid

definition device_text :: "session_env \<Rightarrow> uuid option \<Rightarrow> string" where
  "device_text env dev = (case dev of None \<Rightarrow> [] | Some i \<Rightarrow> se_id_text env i)"

text \<open>\<open>random\<close> is what the random source gives for the refresh token of the answer.\<close>

definition issue_tokens :: "session_env \<Rightarrow> goerr + int list \<Rightarrow> uuid \<Rightarrow> uuid option \<Rightarrow> ('e, token_response reply) proc" where
  "issue_tokens env random uid dev = do {
     now \<leftarrow> clock;
     let (access, access_exp) = issue (se_signer env) now (se_id_text env uid) (device_text env dev);
     on_error (new_refresh_token (se_sha env) random) write_domain_error (\<lambda>(refresh, refresh_hash). do {
       rc \<leftarrow> store_create_refresh_token uid dev refresh_hash (now + se_refresh_ttl env);
       on_error rc write_domain_error (\<lambda>_.
         ret (Ok_reply 200 \<lparr>tk_access = access, tk_refresh = refresh, tk_expires_at = access_exp, tk_user_id = uid\<rparr>))
     })
   }"

definition handle_signup ::
  "session_env \<Rightarrow> goerr + int list \<Rightarrow> string \<Rightarrow> string \<Rightarrow> ('e, token_response) handler" where
  "handle_signup env random ident password =
     on_error (split_identifier ident) (\<lambda>e. write_error 400 ''invalid_identifier'' (err_text e)) (\<lambda>(email, phone). do {
       ok \<leftarrow> signup_allowed (email @ phone);
       if \<not> ok then ret (write_error 429 ''rate_limited'' ''too many attempts, try again later'')
       else on_error (hash_password (se_bcrypt env) password) (\<lambda>e. write_error 400 ''weak_password'' (err_text e)) (\<lambda>hash. do {
         ru \<leftarrow> on_world (store_create_user email phone hash);
         on_error ru (\<lambda>e. if is_err e ErrConflict
                          then write_error 409 ''account_exists'' ''an account with that identifier already exists''
                          else write_domain_error e) (\<lambda>user. do {
           _ \<leftarrow> (if se_free_plan env
                 then do { _ \<leftarrow> on_world (store_grant_time_block (u_id user) ''free'' ''free''); ret () }
                 else ret ());
           on_world (issue_tokens env random (u_id user) None)
         })
       })
     })"

definition login_identifier :: "string \<times> string \<Rightarrow> string" where
  "login_identifier x = (if fst x = [] then snd x else fst x)"

definition invalid_credentials :: "'a reply" where
  "invalid_credentials = write_error 401 ''invalid_credentials'' ''wrong identifier or password''"

definition handle_login ::
  "session_env \<Rightarrow> goerr + int list \<Rightarrow> string \<Rightarrow> string \<Rightarrow> ('e, token_response) handler" where
  "handle_login env random ident password =
     on_error (split_identifier ident) (\<lambda>e. write_error 400 ''invalid_identifier'' (err_text e)) (\<lambda>x. do {
       ok \<leftarrow> login_allowed (login_identifier x);
       if \<not> ok then ret (write_error 429 ''rate_limited'' ''too many attempts, try again later'')
       else do {
         ru \<leftarrow> on_world (store_user_by_identifier (login_identifier x));
         on_error ru (\<lambda>e. if is_err e ErrNotFound then invalid_credentials else write_domain_error e) (\<lambda>user.
           if \<not> check_password (se_compare env) (u_password_hash user) password then ret invalid_credentials
           else if u_status user \<noteq> UserActive
           then ret (write_error 403 ''account_suspended'' ''this account is suspended'')
           else on_world (issue_tokens env random (u_id user) None))
       }
     })"

definition handle_refresh :: "session_env \<Rightarrow> goerr + int list \<Rightarrow> string \<Rightarrow> ('e, token_response) handler" where
  "handle_refresh env random token =
     (if token = [] then ret (write_error 400 ''invalid_request'' ''refresh_token is required'')
      else on_error (new_refresh_token (se_sha env) random) write_domain_error (\<lambda>(new_token, new_hash). do {
        now \<leftarrow> on_world clock;
        rr \<leftarrow> on_world (store_rotate_refresh_token (hash_refresh_token (se_sha env) token) new_hash (now + se_refresh_ttl env));
        on_error rr (\<lambda>_. write_error 401 ''invalid_refresh'' ''refresh token is invalid or expired'') (\<lambda>(uid, dev).
          let (access, access_exp) = issue (se_signer env) now (se_id_text env uid) (device_text env dev) in
          ret (Ok_reply 200 \<lparr>tk_access = access, tk_refresh = new_token, tk_expires_at = access_exp, tk_user_id = uid\<rparr>))
      }))"

definition handle_logout :: "session_env \<Rightarrow> string \<Rightarrow> ('e, unit) handler" where
  "handle_logout env token = do {
     _ \<leftarrow> (if token \<noteq> [] then do {
             _ \<leftarrow> on_world (store_revoke_refresh_token (hash_refresh_token (se_sha env) token));
             ret ()
           } else ret ());
     ret (Ok_reply 204 ())
   }"

record device_view =
  dv_id :: uuid
  dv_name :: string
  dv_platform :: string
  dv_created_at :: time
  dv_last_seen :: "time option"

record subscription_view =
  sb_view_active :: bool
  sb_view_plan_code :: string
  sb_view_expires_at :: time
  sb_view_device_limit :: int

record me_view =
  me_id :: uuid
  me_email :: string
  me_phone :: string
  me_created_at :: time
  me_subscription :: subscription_view
  me_devices :: "device_view list"

definition view_device :: "device \<Rightarrow> device_view" where
  "view_device v = \<lparr>dv_id = d_id v, dv_name = d_name v, dv_platform = d_platform v,
     dv_created_at = d_created_at v, dv_last_seen = d_last_seen_at v\<rparr>"

definition view_entitlement :: "entitlement \<Rightarrow> subscription_view" where
  "view_entitlement ent = \<lparr>sb_view_active = e_active ent, sb_view_plan_code = e_plan_code ent,
     sb_view_expires_at = e_expires_at ent, sb_view_device_limit = e_device_limit ent\<rparr>"

definition handle_me :: "uuid \<Rightarrow> ('e, me_view) handler" where
  "handle_me uid = on_world (do {
     ru \<leftarrow> store_user_by_id uid;
     on_error ru write_domain_error (\<lambda>user. do {
       re \<leftarrow> store_entitlement uid;
       on_error re write_domain_error (\<lambda>ent. do {
         rd \<leftarrow> store_devices_by_user uid;
         on_error rd write_domain_error (\<lambda>ds.
           ret (Ok_reply 200 \<lparr>me_id = u_id user, me_email = coalesce (u_email user) [], me_phone = coalesce (u_phone user) [],
             me_created_at = u_created_at user, me_subscription = view_entitlement ent, me_devices = map view_device ds\<rparr>))
       })
     })
   })"

text \<open>\<open>authenticated\<close> around a handler: \<open>parse_id\<close> reads the user id out of the token's subject.\<close>

definition with_user ::
  "session_env \<Rightarrow> (string \<Rightarrow> uuid option) \<Rightarrow> string \<Rightarrow> (uuid \<Rightarrow> ('e, 'a) handler) \<Rightarrow> ('e, 'a) handler \<Rightarrow> ('e, 'a) handler" where
  "with_user env parse_id h act unknown = do {
     now \<leftarrow> on_world clock;
     case authenticated (se_signer env) now h of
       Inl answer \<Rightarrow> ret answer
     | Inr c \<Rightarrow> (case parse_id (cl_subject c) of None \<Rightarrow> unknown | Some uid \<Rightarrow> act uid)
   }"

section \<open>Running on the world\<close>

lemma run_on_world [simp]:
  "run_state (on_world m) s = (fst (run_state m (ap_world s)), s\<lparr>ap_world := snd (run_state m (ap_world s))\<rparr>)"
  by (simp add: on_world_def split: prod.splits)

definition on_api :: "('e world \<Rightarrow> 'e world \<Rightarrow> bool) \<Rightarrow> 'e api \<Rightarrow> 'e api \<Rightarrow> bool" where
  "on_api R s t \<longleftrightarrow> R (ap_world s) (ap_world t)"

lemma preorder_on_api: "preorder R \<Longrightarrow> preorder (on_api R)"
  unfolding preorder_def on_api_def by blast

lemma keeps_on_world [keeps_intros]: "keeps R m \<Longrightarrow> keeps (on_api R) (on_world m)"
  by (simp add: keeps_def on_api_def)

lemma keeps_limits [keeps_intros]:
  "preorder R \<Longrightarrow> keeps (on_api R) (login_allowed k)" "preorder R \<Longrightarrow> keeps (on_api R) (signup_allowed k)"
  by (auto simp: keeps_def on_api_def login_allowed_def signup_allowed_def preorder_def split: prod.splits)

end
