(* ===== verification/Reconciler.thy ===== *)
theory Reconciler
  imports Provision
begin

text \<open>
  \<open>server/internal/provision/reconciler.go\<close>: the loop that drives the desired state onto the
  boxes. \<open>apply_due\<close> is the batch processed in order, one worker at a time; the concurrent pool
  of the source is the step relation \<open>pool_step\<close> at the end, where workers and request handlers
  interleave in any order.
\<close>

record reconciler =
  rc_batch_size :: nat
  rc_expiry_batch :: nat
  rc_concurrency :: nat
  rc_boot_ids :: "(uuid \<times> string) list"

definition new_reconciler :: reconciler where
  "new_reconciler = \<lparr>rc_batch_size = 100, rc_expiry_batch = 200, rc_concurrency = 8, rc_boot_ids = []\<rparr>"

section \<open>One pass\<close>

definition sweep_expired :: "reconciler \<Rightarrow> ('e, goerr + unit) proc" where
  "sweep_expired rc = do {
     r \<leftarrow> store_expired_user_ids (rc_expiry_batch rc);
     case r of
       Inl e \<Rightarrow> ret (Inl e)
     | Inr ids \<Rightarrow> do {
         _ \<leftarrow> for_each ids (\<lambda>i. do { _ \<leftarrow> store_begin_revoke_for_user i; ret () });
         ret (Inr ())
       }
   }"

text \<open>The push for a row, and what is recorded once the box has confirmed it.\<close>

definition push_row ::
  "'e edge_client \<Rightarrow> peer_assignment \<Rightarrow> server \<Rightarrow> ('e, goerr + unit) proc" where
  "push_row cl a srv =
     (if pa_state a = PeerPending then edge_call (apply_peer cl srv (edge_peer_of a))
      else edge_call (remove_peer cl srv (pa_public_key a)))"

definition confirm_row :: "peer_assignment \<Rightarrow> ('e, goerr + unit) proc" where
  "confirm_row a =
     (if pa_state a = PeerPending then store_mark_applied (pa_id a) (pa_revision a)
      else store_mark_revoked (pa_id a) (pa_revision a))"

definition apply_one :: "'e edge_client \<Rightarrow> peer_assignment \<Rightarrow> server \<Rightarrow> ('e, unit) proc" where
  "apply_one cl a srv =
     (if pa_state a \<noteq> PeerPending \<and> pa_state a \<noteq> PeerRevoking then ret ()
      else do {
        r \<leftarrow> push_row cl a srv;
        r \<leftarrow> (case r of Inl e \<Rightarrow> ret (Inl e) | Inr _ \<Rightarrow> confirm_row a);
        case r of
          Inr _ \<Rightarrow> ret ()
        | Inl e \<Rightarrow> record_failure a e
      })"

definition apply_due :: "'e edge_client \<Rightarrow> reconciler \<Rightarrow> ('e, goerr + unit) proc" where
  "apply_due cl rc = do {
     r \<leftarrow> store_due_assignments (rc_batch_size rc);
     case r of
       Inl e \<Rightarrow> ret (Inl e)
     | Inr batch \<Rightarrow> do {
         _ \<leftarrow> for_each batch (\<lambda>(a, srv). apply_one cl a srv);
         ret (Inr ())
       }
   }"

definition once :: "'e edge_client \<Rightarrow> reconciler \<Rightarrow> ('e, goerr + unit) proc" where
  "once cl rc = do {
     r \<leftarrow> sweep_expired rc;
     case r of Inl e \<Rightarrow> ret (Inl e) | Inr _ \<Rightarrow> apply_due cl rc
   }"

section \<open>Rebuilt boxes\<close>

definition resync_peer :: "peer_assignment \<Rightarrow> edge_peer" where
  "resync_peer a = \<lparr>ep_public_key = pa_public_key a, ep_tunnel_ip = pa_tunnel_ip a, ep_replaces = [],
     ep_revision = pa_revision a\<rparr>"

definition resync :: "'e edge_client \<Rightarrow> server \<Rightarrow> ('e, goerr + unit) proc" where
  "resync cl srv = do {
     r \<leftarrow> store_live_peers_for_server (s_id srv);
     case r of
       Inl e \<Rightarrow> ret (Inl e)
     | Inr ps \<Rightarrow> do {
         s \<leftarrow> edge_call (sync_peers cl srv (map resync_peer ps));
         case s of
           Inl e \<Rightarrow> ret (Inl e)
         | Inr _ \<Rightarrow> do {
             _ \<leftarrow> for_each (filter (\<lambda>a. pa_state a = PeerPending) ps)
                    (\<lambda>a. do { _ \<leftarrow> store_mark_applied (pa_id a) (pa_revision a); ret () });
             ret (Inr ())
           }
       }
   }"

text \<open>One server of the sweep. The boot identifiers are returned updated.\<close>

definition health_check ::
  "'e edge_client \<Rightarrow> server \<Rightarrow> (uuid \<times> string) list \<Rightarrow> ('e, (uuid \<times> string) list) proc" where
  "health_check cl srv boots = do {
     r \<leftarrow> edge_call (get_health cl srv);
     case r of
       Inl e \<Rightarrow> ret boots
     | Inr h \<Rightarrow>
         (let previous = map_of boots (s_id srv);
              boots' = AList.update (s_id srv) (h_boot_id h) boots in
          case previous of
            Some b \<Rightarrow>
              (if b = h_boot_id h then ret boots'
               else do { _ \<leftarrow> resync cl srv; ret boots' })
          | None \<Rightarrow> do {
              l \<leftarrow> store_live_peers_for_server (s_id srv);
              case l of
                Inl e \<Rightarrow> ret boots'
              | Inr ps \<Rightarrow>
                  (if h_peer_count h \<ge> int (length ps) then ret boots'
                   else do { _ \<leftarrow> resync cl srv; ret boots' })
            })
   }"

fun health_checks ::
  "'e edge_client \<Rightarrow> server list \<Rightarrow> (uuid \<times> string) list \<Rightarrow> ('e, (uuid \<times> string) list) proc" where
  "health_checks cl [] boots = ret boots"
| "health_checks cl (srv # ss) boots = do {
     boots' \<leftarrow> health_check cl srv boots;
     health_checks cl ss boots'
   }"

definition health_sweep ::
  "'e edge_client \<Rightarrow> reconciler \<Rightarrow> ('e, (goerr + unit) \<times> reconciler) proc" where
  "health_sweep cl rc = do {
     r \<leftarrow> store_servers False;
     case r of
       Inl e \<Rightarrow> ret (Inl e, rc)
     | Inr ss \<Rightarrow> do {
         boots \<leftarrow> health_checks cl ss (rc_boot_ids rc);
         ret (Inr (), rc\<lparr>rc_boot_ids := boots\<rparr>)
       }
   }"

section \<open>What a pass keeps\<close>

lemma keeps_apply_one [keeps_intros]: "keeps (on_db peers_step) (apply_one cl a srv)"
  unfolding apply_one_def push_row_def confirm_row_def by (intro keeps_intros preorder_on_db_peers_step preorder_peers_step)

lemma keeps_sweep [keeps_intros]: "keeps (on_db peers_step) (sweep_expired rc)"
  unfolding sweep_expired_def by (intro keeps_intros preorder_on_db_peers_step preorder_peers_step)

lemma keeps_apply_due [keeps_intros]: "keeps (on_db peers_step) (apply_due cl rc)"
  unfolding apply_due_def by (auto intro!: keeps_intros preorder_on_db_peers_step preorder_peers_step)

lemma keeps_resync [keeps_intros]: "keeps (on_db peers_step) (resync cl srv)"
  unfolding resync_def by (intro keeps_intros preorder_on_db_peers_step preorder_peers_step)

lemma keeps_health_check [keeps_intros]: "keeps (on_db peers_step) (health_check cl srv boots)"
  unfolding health_check_def Let_def by (intro keeps_intros preorder_on_db_peers_step preorder_peers_step)

lemma keeps_health_checks [keeps_intros]: "keeps (on_db peers_step) (health_checks cl ss boots)"
  by (induction ss arbitrary: boots) (auto intro!: keeps_intros preorder_on_db_peers_step preorder_peers_step)

lemma keeps_once: "keeps (on_db peers_step) (once cl rc)"
  unfolding once_def by (intro keeps_intros preorder_on_db_peers_step preorder_peers_step)

lemma keeps_health_sweep: "keeps (on_db peers_step) (health_sweep cl rc)"
  unfolding health_sweep_def by (intro keeps_intros preorder_on_db_peers_step preorder_peers_step)

text \<open>
  A reconciler pass and a health sweep keep the peer table's invariant
  and only let rows evolve, whatever the boxes answer and whichever store calls fail.
\<close>

theorem reconciler_keeps_table:
  assumes "wf_peers (w_db w)" and "w' = snd (run_state (once cl rc) w) \<or> w' = snd (run_state (health_sweep cl rc) w)"
  shows "wf_peers (w_db w') \<and> peers_evolve (w_db w) (w_db w')"
  using keeps_once [of cl rc] keeps_health_sweep [of cl rc] assms
  by (auto simp: keeps_def on_db_def peers_step_def)

end
