(* ===== verification/Api.thy ===== *)
theory Api
  imports Sessions Reconciler
begin

text \<open>
  The handlers behind a session or the operator's token: \<open>device_handlers.go\<close>,
  \<open>tunnel_handlers.go\<close> and \<open>admin_handlers.go\<close> of \<open>server/internal/api\<close>. Path and body values are
  text; \<open>parse_id\<close> reads a uuid as the database does.
\<close>

definition bad_uuid :: goerr where
  "bad_uuid = Sentinel (OtherError ''ERROR: invalid input syntax for type uuid (SQLSTATE 22P02)'')"

definition or_default :: "string \<Rightarrow> string \<Rightarrow> string" where
  "or_default v def = (if v = [] then def else v)"

text \<open>A loop that collects one value per element.\<close>

fun collect :: "'x list \<Rightarrow> ('x \<Rightarrow> ('s, 'y) state) \<Rightarrow> ('s, 'y list) state" where
  "collect [] f = ret []"
| "collect (x # xs) f = do { y \<leftarrow> f x; ys \<leftarrow> collect xs f; ret (y # ys) }"

text \<open>The store calls of these handlers.\<close>

definition store_device_by_ref :: "(string \<Rightarrow> uuid option) \<Rightarrow> string \<Rightarrow> ('e, goerr + device) proc" where
  "store_device_by_ref parse_id ref =
     (case parse_id ref of None \<Rightarrow> db_call (\<lambda>now d. (Inl bad_uuid, d)) | Some i \<Rightarrow> store_device_by_id i)"

definition store_upsert_device :: "uuid \<Rightarrow> string \<Rightarrow> string \<Rightarrow> string \<Rightarrow> string \<Rightarrow> ('e, goerr + device) proc" where
  "store_upsert_device uid name platform key version = db_call (\<lambda>now. upsert_device now uid name platform key version)"

definition store_rotate_device_key :: "uuid \<Rightarrow> string \<Rightarrow> ('e, goerr + unit) proc" where
  "store_rotate_device_key dev key = db_call (\<lambda>now. rotate_device_key dev key)"

definition store_revoke_device :: "uuid \<Rightarrow> ('e, goerr + unit) proc" where
  "store_revoke_device dev = db_call (\<lambda>now. revoke_device now dev)"

definition store_touch_device :: "uuid \<Rightarrow> ('e, goerr + unit) proc" where
  "store_touch_device dev = db_call (\<lambda>now. touch_device dev now)"

definition store_assignments_for_device :: "uuid \<Rightarrow> ('e, goerr + peer_assignment list) proc" where
  "store_assignments_for_device dev = db_call (\<lambda>now. assignments_for_device dev)"

definition store_plans :: "('e, goerr + plan list) proc" where
  "store_plans = db_call (\<lambda>now. list_plans)"

definition store_ping :: "('e, goerr + unit) proc" where
  "store_ping = db_call (\<lambda>now d. (Inr (), d))"

definition store_upsert_server :: "server_row \<Rightarrow> ('e, goerr + server) proc" where
  "store_upsert_server p = db_call (\<lambda>now. upsert_server p)"

definition store_set_server_status :: "string \<Rightarrow> server_status \<Rightarrow> ('e, goerr + unit) proc" where
  "store_set_server_status code status = db_call (\<lambda>now. set_server_status code status)"

lemmas api_store_defs = store_upsert_device_def store_rotate_device_key_def store_revoke_device_def store_touch_device_def
  store_assignments_for_device_def store_plans_def store_ping_def store_upsert_server_def store_set_server_status_def

section \<open>Devices\<close>

definition invalid_public_key :: "'a reply" where
  "invalid_public_key = write_error 400 ''invalid_public_key'' ''public_key must be a base64 WireGuard key''"

definition device_not_found :: "'a reply" where
  "device_not_found = write_error 404 ''not_found'' ''device not found''"

record registered_device =
  rg_id :: uuid
  rg_name :: string
  rg_platform :: string
  rg_public_key :: string
  rg_created_at :: time

definition handle_register_device ::
  "uuid \<Rightarrow> string \<Rightarrow> string \<Rightarrow> string \<Rightarrow> string \<Rightarrow> ('e, registered_device reply) proc" where
  "handle_register_device uid name platform public_key version =
     (case wgkey_validate public_key of
        None \<Rightarrow> ret invalid_public_key
      | Some key \<Rightarrow> do {
          rd \<leftarrow> store_upsert_device uid (or_default name ''Android device'') (or_default platform ''android'') key version;
          on_error rd (\<lambda>e. if is_err e ErrConflict
                           then write_error 409 ''key_in_use'' ''that public key is registered to another account''
                           else write_domain_error e) (\<lambda>dev.
            ret (Ok_reply 200 \<lparr>rg_id = d_id dev, rg_name = d_name dev, rg_platform = d_platform dev,
              rg_public_key = d_public_key dev, rg_created_at = d_created_at dev\<rparr>))
        })"

record listed_device =
  ld_id :: uuid
  ld_name :: string
  ld_platform :: string
  ld_last_seen :: "time option"

definition handle_list_devices :: "uuid \<Rightarrow> ('e, listed_device list reply) proc" where
  "handle_list_devices uid = do {
     rd \<leftarrow> store_devices_by_user uid;
     on_error rd write_domain_error (\<lambda>ds. 
       ret (Ok_reply 200 (map (\<lambda>v. \<lparr>ld_id = d_id v, ld_name = d_name v, ld_platform = d_platform v,
         ld_last_seen = d_last_seen_at v\<rparr>) ds)))
   }"

text \<open>The device of a request, if it is the caller's.\<close>

definition own_device ::
  "(string \<Rightarrow> uuid option) \<Rightarrow> uuid \<Rightarrow> string \<Rightarrow> (device \<Rightarrow> ('e, 'a reply) proc) \<Rightarrow> ('e, 'a reply) proc" where
  "own_device parse_id uid ref act = do {
     rd \<leftarrow> store_device_by_ref parse_id ref;
     case rd of
       Inl e \<Rightarrow> ret device_not_found
     | Inr dev \<Rightarrow> (if d_user_id dev \<noteq> uid then ret device_not_found else act dev)
   }"

definition handle_delete_device :: "(string \<Rightarrow> uuid option) \<Rightarrow> uuid \<Rightarrow> string \<Rightarrow> ('e, unit reply) proc" where
  "handle_delete_device parse_id uid ref = own_device parse_id uid ref (\<lambda>dev. do {
     rn \<leftarrow> deprovision_device (d_id dev);
     on_error rn write_domain_error (\<lambda>_. do {
       rr \<leftarrow> store_revoke_device (d_id dev);
       on_error rr write_domain_error (\<lambda>_. ret (Ok_reply 204 ()))
     })
   })"

definition handle_rotate_key :: "(string \<Rightarrow> uuid option) \<Rightarrow> uuid \<Rightarrow> string \<Rightarrow> string \<Rightarrow> ('e, (uuid \<times> string \<times> bool) reply) proc" where
  "handle_rotate_key parse_id uid ref public_key =
     (case wgkey_validate public_key of
        None \<Rightarrow> ret invalid_public_key
      | Some key \<Rightarrow> own_device parse_id uid ref (\<lambda>dev. do {
          rr \<leftarrow> store_rotate_device_key (d_id dev) key;
          on_error rr (\<lambda>e. if is_err e ErrConflict
                           then write_error 409 ''key_in_use'' ''that public key is already registered''
                           else write_domain_error e) (\<lambda>_. ret (Ok_reply 200 (d_id dev, key, True)))
        }))"

section \<open>Tunnels\<close>

definition device_id_required :: "'a reply" where
  "device_id_required = write_error 400 ''invalid_request'' ''device_id is required''"

text \<open>
  The engine's request for a device given as text: text that is no uuid fails in the device lookup,
  after the entitlement check.
\<close>

definition provision_ref ::
  "'e edge_client \<Rightarrow> (string \<Rightarrow> uuid option) \<Rightarrow> uuid \<Rightarrow> string \<Rightarrow> string \<Rightarrow> string \<Rightarrow> ('e, goerr + tunnel_config) proc" where
  "provision_ref cl parse_id uid ref server_code country =
     (case parse_id ref of
        Some i \<Rightarrow> provision cl \<lparr>rq_user_id = uid, rq_device_id = i, rq_server_code = server_code, rq_client_country = country\<rparr>
      | None \<Rightarrow> do {
          r \<leftarrow> store_entitlement uid;
          case r of
            Inl e \<Rightarrow> ret (Inl (Wrap ''entitlement: '' e []))
          | Inr ent \<Rightarrow>
              (if \<not> e_active ent then ret (Inl (Sentinel ErrNotEntitled))
               else do {
                 rd \<leftarrow> store_device_by_ref parse_id ref;
                 case rd of Inl e \<Rightarrow> ret (Inl (Wrap ''device: '' e [])) | Inr _ \<Rightarrow> ret (Inl bad_uuid)
               })
        })"

definition touch_ref :: "(string \<Rightarrow> uuid option) \<Rightarrow> string \<Rightarrow> ('e, unit) proc" where
  "touch_ref parse_id ref =
     (case parse_id ref of None \<Rightarrow> ret () | Some i \<Rightarrow> do { _ \<leftarrow> store_touch_device i; ret () })"

definition handle_provision ::
  "'e edge_client \<Rightarrow> (string \<Rightarrow> uuid option) \<Rightarrow> uuid \<Rightarrow> string \<Rightarrow> string \<Rightarrow> string \<Rightarrow> ('e, tunnel_config reply) proc" where
  "handle_provision cl parse_id uid ref server_code country =
     (if ref = [] then ret device_id_required
      else do {
        rc \<leftarrow> provision_ref cl parse_id uid ref server_code country;
        on_error rc write_domain_error (\<lambda>cfg. do {
          _ \<leftarrow> touch_ref parse_id ref;
          ret (Ok_reply 200 cfg)
        })
      })"

definition handle_release :: "(string \<Rightarrow> uuid option) \<Rightarrow> uuid \<Rightarrow> string \<Rightarrow> ('e, nat reply) proc" where
  "handle_release parse_id uid ref = own_device parse_id uid ref (\<lambda>dev. do {
     rn \<leftarrow> deprovision_device (d_id dev);
     on_error rn write_domain_error (\<lambda>n. ret (Ok_reply 200 n))
   })"

record status_view =
  sv_server_code :: string
  sv_state :: peer_state
  sv_ready :: bool
  sv_tunnel_ip :: string

definition handle_tunnel_status :: "(string \<Rightarrow> uuid option) \<Rightarrow> uuid \<Rightarrow> string \<Rightarrow> ('e, status_view list reply) proc" where
  "handle_tunnel_status parse_id uid ref =
     (if ref = [] then ret device_id_required
      else own_device parse_id uid ref (\<lambda>dev. do {
        ra \<leftarrow> store_assignments_for_device (d_id dev);
        on_error ra write_domain_error (\<lambda>as. do {
          views \<leftarrow> collect as (\<lambda>a. do {
            rs \<leftarrow> store_server_by_id (pa_server_id a);
            ret \<lparr>sv_server_code = (case rs of Inl _ \<Rightarrow> [] | Inr srv \<Rightarrow> s_code srv), sv_state = pa_state a,
              sv_ready = applied a, sv_tunnel_ip = addr_text (pa_tunnel_ip a)\<rparr>
          });
          ret (Ok_reply 200 views)
        })
      }))"

section \<open>The catalogue\<close>

text \<open>The ratio of two \<open>int\<close>s as \<open>float64\<close>, compared with \<open>0.5\<close> and \<open>0.85\<close>.\<close>

definition load_bucket :: "server \<Rightarrow> string" where
  "load_bucket srv =
     (if s_capacity_peers srv \<le> 0 then ''unknown''
      else let ratio = rat_of_int (s_live_peers srv) / rat_of_int (s_capacity_peers srv) in
        if ratio < 1/2 then ''low'' else if ratio < 85/100 then ''medium'' else ''high'')"

record server_view =
  vw_code :: string
  vw_display_name :: string
  vw_country_code :: string
  vw_region :: string
  vw_load :: string

definition handle_list_servers :: "('e, server_view list reply) proc" where
  "handle_list_servers = do {
     rs \<leftarrow> store_servers True;
     on_error rs write_domain_error (\<lambda>ss.
       ret (Ok_reply 200 (map (\<lambda>srv. \<lparr>vw_code = s_code srv, vw_display_name = s_display_name srv,
         vw_country_code = s_country_code srv, vw_region = s_region srv, vw_load = load_bucket srv\<rparr>) ss)))
   }"

text \<open>Integer division in Go drops the fraction, also of a negative number.\<close>

definition go_div :: "int \<Rightarrow> int \<Rightarrow> int" where
  "go_div a b = (if 0 \<le> a then a div b else - (- a div b))"

record plan_view =
  pv_code :: string
  pv_name :: string
  pv_duration_days :: int
  pv_price_kobo :: int
  pv_price_naira :: int
  pv_currency :: string
  pv_data_cap_bytes :: "int option"
  pv_device_limit :: int
  pv_is_free :: bool

definition view_plan :: "plan \<Rightarrow> plan_view" where
  "view_plan p = \<lparr>pv_code = pl_code p, pv_name = pl_name p, pv_duration_days = go_div (pl_duration p) (86400 * second),
     pv_price_kobo = pl_price_kobo p, pv_price_naira = go_div (pl_price_kobo p) 100, pv_currency = pl_currency p,
     pv_data_cap_bytes = pl_data_cap_bytes p, pv_device_limit = pl_device_limit p, pv_is_free = pl_is_free p\<rparr>"

definition handle_list_plans :: "('e, plan_view list reply) proc" where
  "handle_list_plans = do {
     rp \<leftarrow> store_plans;
     on_error rp write_domain_error (\<lambda>ps. ret (Ok_reply 200 (map view_plan ps)))
   }"

definition handle_health_check :: "('e, unit reply) proc" where
  "handle_health_check = ret (Ok_reply 200 ())"

text \<open>The body of the readiness answer is whether the database answered.\<close>

definition handle_ready :: "('e, bool reply) proc" where
  "handle_ready = do {
     rp \<leftarrow> store_ping;
     ret (case rp of Inl _ \<Rightarrow> Ok_reply 503 False | Inr _ \<Rightarrow> Ok_reply 200 True)
   }"

end
