(* ===== verification/Admin.thy ===== *)
theory Admin
  imports Api
begin

text \<open>\<open>server/internal/api/admin_handlers.go\<close>: the operator's endpoints.\<close>

fun status_text :: "server_status \<Rightarrow> string" where
  "status_text ServerActive = ''active''"
| "status_text ServerDraining = ''draining''"
| "status_text ServerDown = ''down''"
| "status_text ServerMaintenance = ''maintenance''"

definition status_of_text :: "string \<Rightarrow> server_status option" where
  "status_of_text s =
     find (\<lambda>st. status_text st = s) [ServerActive, ServerDraining, ServerDown, ServerMaintenance]"

record upsert_server_request =
  us_code :: string
  us_display_name :: string
  us_country_code :: string
  us_region :: string
  us_endpoint_host :: string
  us_endpoint_port :: int
  us_public_key :: string
  us_obfuscation :: "(string \<times> any) list"
  us_tunnel_subnet :: string
  us_agent_url :: string
  us_agent_token :: string
  us_status :: string
  us_capacity_peers :: int
  us_priority :: int

definition or_number :: "int \<Rightarrow> int \<Rightarrow> int" where
  "or_number v def = (if v = 0 then def else v)"

text \<open>
  The row of a request; \<open>parse_cidr\<close> is the database's reading of a network. A network or a status the
  schema does not accept is an error of the statement.
\<close>

definition server_of_request ::
  "(string \<Rightarrow> cidr option) \<Rightarrow> string \<Rightarrow> upsert_server_request \<Rightarrow> goerr + server_row" where
  "server_of_request parse_cidr key r =
     (case parse_cidr (us_tunnel_subnet r) of
        None \<Rightarrow> Inl (Sentinel (OtherError ''ERROR: invalid input syntax for type cidr (SQLSTATE 22P02)''))
      | Some net \<Rightarrow>
          (case status_of_text (or_default (us_status r) ''draining'') of
             None \<Rightarrow> Inl check_violation
           | Some st \<Rightarrow>
               Inr \<lparr>s_id = 0, s_code = us_code r, s_display_name = or_default (us_display_name r) (us_code r),
                 s_country_code = us_country_code r, s_region = us_region r, s_endpoint_host = us_endpoint_host r,
                 s_endpoint_port = or_number (us_endpoint_port r) 51820, s_public_key = key,
                 s_obfuscation = us_obfuscation r, s_tunnel_subnet = net, s_agent_url = us_agent_url r,
                 s_agent_token = us_agent_token r, s_status = st,
                 s_capacity_peers = or_number (us_capacity_peers r) 500, s_priority = or_number (us_priority r) 100,
                 s_last_seen_at = None\<rparr>))"

definition store_upsert_request ::
  "(string \<Rightarrow> cidr option) \<Rightarrow> string \<Rightarrow> upsert_server_request \<Rightarrow> ('e, goerr + server) proc" where
  "store_upsert_request parse_cidr key r =
     (case server_of_request parse_cidr key r of
        Inl e \<Rightarrow> db_call (\<lambda>now d. (Inl e, d))
      | Inr row \<Rightarrow> store_upsert_server row)"

definition handle_upsert_server ::
  "(string \<Rightarrow> cidr option) \<Rightarrow> upsert_server_request \<Rightarrow> ('e, (uuid \<times> string \<times> server_status) reply) proc" where
  "handle_upsert_server parse_cidr r =
     (case wgkey_validate (us_public_key r) of
        None \<Rightarrow> ret invalid_public_key
      | Some key \<Rightarrow>
          (if us_code r = [] \<or> us_endpoint_host r = [] \<or> us_tunnel_subnet r = [] \<or> us_agent_url r = []
           then ret (write_error 400 ''invalid_request'' ''code, endpoint_host, tunnel_subnet and agent_url are required'')
           else do {
             rs \<leftarrow> store_upsert_request parse_cidr key r;
             on_error rs write_domain_error (\<lambda>srv. ret (Ok_reply 200 (s_id srv, s_code srv, s_status srv)))
           }))"

definition handle_server_status :: "string \<Rightarrow> string \<Rightarrow> ('e, (string \<times> string) reply) proc" where
  "handle_server_status code status =
     (case status_of_text status of
        None \<Rightarrow> ret (write_error 400 ''invalid_status'' ''unknown status'')
      | Some st \<Rightarrow> do {
          rs \<leftarrow> store_set_server_status code st;
          on_error rs write_domain_error (\<lambda>_. ret (Ok_reply 200 (code, status)))
        })"

definition handle_resync :: "'e edge_client \<Rightarrow> string \<Rightarrow> ('e, string reply) proc" where
  "handle_resync cl code = do {
     rs \<leftarrow> store_server_by_code code;
     on_error rs write_domain_error (\<lambda>srv. do {
       rr \<leftarrow> resync cl srv;
       on_error rr (\<lambda>e. write_error 502 ''resync_failed'' (err_text e)) (\<lambda>_. ret (Ok_reply 200 (s_code srv)))
     })
   }"

definition handle_reconcile_now :: "'e edge_client \<Rightarrow> reconciler \<Rightarrow> ('e, unit reply) proc" where
  "handle_reconcile_now cl rc = do {
     rr \<leftarrow> once cl rc;
     on_error rr (\<lambda>e. write_error 500 ''reconcile_failed'' (err_text e)) (\<lambda>_. ret (Ok_reply 200 ()))
   }"

record grant_view =
  gv_user_id :: uuid
  gv_plan_code :: string
  gv_expires_at :: time

definition handle_grant :: "string \<Rightarrow> string \<Rightarrow> ('e, grant_view reply) proc" where
  "handle_grant ident plan_code =
     on_error (split_identifier ident) (\<lambda>e. write_error 400 ''invalid_identifier'' (err_text e)) (\<lambda>x. do {
       ru \<leftarrow> store_user_by_identifier (login_identifier x);
       on_error ru write_domain_error (\<lambda>user. do {
         rs \<leftarrow> store_grant_time_block (u_id user) plan_code ''manual'';
         on_error rs write_domain_error (\<lambda>sub.
           ret (Ok_reply 200 \<lparr>gv_user_id = u_id user, gv_plan_code = sb_plan_code sub, gv_expires_at = sb_expires_at sub\<rparr>))
       })
     })"

section \<open>Operators\<close>

lemma status_of_text_text [simp]: "status_of_text (status_text st) = Some st"
  by (cases st) (simp_all add: status_of_text_def)

lemma status_text_of_text: "status_of_text s = Some st \<Longrightarrow> status_text st = s"
  unfolding status_of_text_def by (drule find_Some_iff_set) simp

text \<open>A box registered without a status is drained, also when it was active before.\<close>

lemma registered_box_is_draining:
  "us_status r = [] \<Longrightarrow> server_of_request parse_cidr key r = Inr row \<Longrightarrow> s_status row = ServerDraining \<and> s_code row = us_code r"
  using status_of_text_text [of ServerDraining]
  by (auto simp: server_of_request_def or_default_def split: option.splits)

text \<open>A status change is accepted for the four documented words only.\<close>

lemma unknown_status_is_refused:
  "status \<notin> range status_text \<Longrightarrow> run_state (handle_server_status code status) w =
     (write_error 400 ''invalid_status'' ''unknown status'', w)"
  using status_text_of_text [of status] by (cases "status_of_text status") (auto simp: handle_server_status_def)

end
