(* ===== verification/Fixtures.thy ===== *)
theory Fixtures
  imports Provision
begin

text \<open>
  A small deployment for the witnesses: the plans of \<open>0001_init.sql\<close>, one paying user with a
  device, servers in the shape of \<open>infra/fleet.json\<close>, and the in-memory edge of \<open>fake.go\<close>.
\<close>

definition day :: duration where "day = 86400 * second"

definition mk_plan :: "string \<Rightarrow> string \<Rightarrow> duration \<Rightarrow> int \<Rightarrow> int option \<Rightarrow> int \<Rightarrow> bool \<Rightarrow> int \<Rightarrow> plan" where
  "mk_plan code name dur price cap limit free pos =
     \<lparr>pl_code = code, pl_name = name, pl_duration = dur, pl_price_kobo = price, pl_currency = ''NGN'',
      pl_data_cap_bytes = cap, pl_device_limit = limit, pl_is_free = free, pl_active = True,
      pl_sort_order = pos\<rparr>"

definition initial_plans :: "plan list" where
  "initial_plans =
     [mk_plan ''free'' ''Free'' (30 * day) 0 (Some 2147483648) 1 True 0,
      mk_plan ''daily'' ''Day Pass'' (1 * day) 20000 None 1 False 1,
      mk_plan ''weekly'' ''Week Pass'' (7 * day) 70000 None 2 False 2,
      mk_plan ''monthly'' ''Month Pass'' (30 * day) 200000 None 3 False 3]"

definition mk_server :: "uuid \<Rightarrow> string \<Rightarrow> string \<Rightarrow> int \<Rightarrow> int \<Rightarrow> server_row" where
  "mk_server i code country prio cap =
     \<lparr>s_id = i, s_code = code, s_display_name = code, s_country_code = country, s_region = ''eu'',
      s_endpoint_host = ''host'', s_endpoint_port = 51820, s_public_key = ''srvkey'',
      s_obfuscation = [], s_tunnel_subnet = Cidr4 0x0A4D0000 16, s_agent_url = ''https://agent'',
      s_agent_token = ''tok'', s_status = ServerActive, s_capacity_peers = cap, s_priority = prio,
      s_last_seen_at = None\<rparr>"

definition demo_user :: user_row where
  "demo_user = \<lparr>u_id = 1, u_email = Some ''a@b.ng'', u_phone = None, u_password_hash = ''h'',
     u_status = UserActive, u_created_at = 0\<rparr>"

definition demo_device :: device where
  "demo_device = \<lparr>d_id = 2, d_user_id = 1, d_name = ''phone'', d_platform = ''android'',
     d_public_key = ''keyA'', d_app_version = None, d_created_at = 0, d_last_seen_at = None,
     d_revoked_at = None\<rparr>"

definition demo_block :: subscription where
  "demo_block = \<lparr>sb_id = 3, sb_user_id = 1, sb_plan_code = ''daily'', sb_source = ''paystack'',
     sb_starts_at = 0, sb_expires_at = day, sb_data_cap_bytes = None, sb_revoked_at = None\<rparr>"

definition demo_db :: "server_row list \<Rightarrow> db" where
  "demo_db ss = \<lparr>users = [demo_user], devices = [demo_device], plans = initial_plans,
     subscriptions = [demo_block], payments = [], webhook_events = [], refresh_tokens = [],
     servers = ss, peers = [], next_id = 100\<rparr>"

definition demo_world :: "server_row list \<Rightarrow> fake world" where
  "demo_world ss = \<lparr>w_db = demo_db ss, w_edge = new_fake, w_now = second, w_faults = [], w_draws = []\<rparr>"

definition demo_request :: "string \<Rightarrow> request" where
  "demo_request code = \<lparr>rq_user_id = 1, rq_device_id = 2, rq_server_code = code, rq_client_country = []\<rparr>"

definition lon :: server_row where "lon = mk_server 10 ''uk-lon-1'' ''GB'' 10 500"
definition fra :: server_row where "fra = mk_server 11 ''de-fra-1'' ''DE'' 20 400"

end
