(* ===== verification/CheckoutLaws.thy ===== *)
theory CheckoutLaws
  imports Checkout Fixtures
begin

text \<open>
  Payments: a payment is turned into time at most once whatever store calls fail and however often the
  event is delivered, an underpaid or unknown charge grants nothing, and a charge that is delivered
  while the database answers grants exactly the block that was paid for.
\<close>

section \<open>One store call\<close>

lemma db_call_outcome:
  assumes "run_state (db_call f) w = (r, w')"
  shows "(r = fst (f (w_now w) (w_db w)) \<and> w_db w' = snd (f (w_now w) (w_db w)) \<or>
     r = Inl driver_error \<and> (w_db w' = w_db w \<or> w_db w' = snd (f (w_now w) (w_db w)))) \<and>
    w_now w' = w_now w \<and> w_edge w' = w_edge w"
  using assms by (auto simp: db_call_def Let_def split: prod.splits list.splits fault.splits)

section \<open>Payments that are settled\<close>

definition known_payment :: "string \<Rightarrow> db \<Rightarrow> bool" where
  "known_payment ref d \<longleftrightarrow> (\<exists>p \<in> set (payments d). is_payment ''paystack'' ref p)"

definition paid :: "string \<Rightarrow> db \<Rightarrow> bool" where
  "paid ref d \<longleftrightarrow> (\<forall>p \<in> set (payments d). is_payment ''paystack'' ref p \<longrightarrow> py_status p = PaySuccess)"

definition unpaid_count :: "db \<Rightarrow> nat" where
  "unpaid_count d = count_where (\<lambda>p. py_status p \<noteq> PaySuccess) (payments d)"

lemma settle_simps [simp]:
  "py_status (settle b p) = PaySuccess" "is_payment prov ref (settle b p) = is_payment prov ref p"
  "py_user_id (settle b p) = py_user_id p" "py_plan_code (settle b p) = py_plan_code p"
  "py_amount_kobo (settle b p) = py_amount_kobo p"
  by (simp_all add: settle_def is_payment_def)

lemma count_update_where_less:
  assumes "p \<in> set rs" and "c p" and "\<And>q. c q \<Longrightarrow> l q \<and> \<not> l (f q)"
  shows "count_where l (update_where c f rs) < count_where l rs"
proof -
  have le: "count_where l (update_where c f xs) \<le> count_where l xs" for xs
    using assms(3) by (induction xs) (auto simp: count_where_def)
  from assms(1) obtain xs ys where "rs = xs @ p # ys" by (meson split_list)
  then show ?thesis
    using le [of xs] le [of ys] assms(2) assms(3) [OF assms(2)]
    by (simp add: update_where_def count_where_def)
qed

lemma settle_payment_first:
  assumes "settle_payment ''paystack'' ref body d = (Inr (p, True), d')"
  shows "unpaid_count d' < unpaid_count d \<and> subscriptions d' = subscriptions d \<and> \<not> paid ref d \<and> paid ref d' \<and>
    (\<exists>q \<in> set (payments d). is_payment ''paystack'' ref q \<and> py_user_id p = py_user_id q \<and> py_plan_code p = py_plan_code q)"
proof -
  let ?c = "\<lambda>p. is_payment ''paystack'' ref p \<and> py_status p \<noteq> PaySuccess"
  let ?b = "if body = [] then ''{}'' else body"
  obtain q where q: "find ?c (payments d) = Some q" "p = settle ?b q"
    "d' = d\<lparr>payments := update_where ?c (settle ?b) (payments d)\<rparr>"
    using assms by (auto simp: settle_payment_def Let_def split: option.splits sum.splits prod.splits)
  have m: "q \<in> set (payments d)" "?c q" using find_Some_iff_set [OF q(1)] by auto
  have "count_where (\<lambda>p. py_status p \<noteq> PaySuccess) (update_where ?c (settle ?b) (payments d))
      < count_where (\<lambda>p. py_status p \<noteq> PaySuccess) (payments d)"
    by (rule count_update_where_less [where c = ?c, OF m]) simp
  then have "unpaid_count d' < unpaid_count d" by (simp add: unpaid_count_def q(3))
  moreover have "paid ref d'"
    unfolding q(3) paid_def by (simp add: set_update_where ball_Un)
  moreover have "\<not> paid ref d" using m by (auto simp: paid_def)
  moreover have "subscriptions d' = subscriptions d" by (simp add: q(3))
  moreover have "\<exists>q \<in> set (payments d). is_payment ''paystack'' ref q \<and> py_user_id p = py_user_id q \<and> py_plan_code p = py_plan_code q"
    using m q(2) by (intro bexI [of _ q]) simp_all
  ultimately show ?thesis by simp
qed

lemma settle_payment_keeps:
  "subscriptions (snd (settle_payment prov ref body d)) = subscriptions d \<and>
   unpaid_count (snd (settle_payment prov ref body d)) \<le> unpaid_count d \<and>
   (paid r d \<longrightarrow> paid r (snd (settle_payment prov ref body d)))"
proof -
  let ?c = "\<lambda>p. is_payment prov ref p \<and> py_status p \<noteq> PaySuccess"
  let ?b = "if body = [] then ''{}'' else body"
  have "count_where (\<lambda>p. py_status p \<noteq> PaySuccess) (update_where ?c (settle ?b) xs) \<le> count_where (\<lambda>p. py_status p \<noteq> PaySuccess) xs" for xs
    by (induction xs) (auto simp: count_where_def)
  then show ?thesis
    by (auto simp: settle_payment_def payment_by_ref_def Let_def unpaid_count_def paid_def set_update_where
        split: option.splits sum.splits prod.splits if_splits)
qed

lemma settle_payment_again:
  "paid ref d \<Longrightarrow> settle_payment ''paystack'' ref body d = (r, d') \<Longrightarrow> d' = d \<and> (\<forall>p. r \<noteq> Inr (p, True))"
  by (auto simp: settle_payment_def payment_by_ref_def Let_def paid_def find_None_set
      split: option.splits sum.splits prod.splits dest: find_Some_iff_set)

lemma grant_keeps_payments: "payments (snd (grant_time_block now uid code source d)) = payments d"
  by (simp add: grant_time_block_def Let_def split: option.splits)

lemma grant_one_block: "length (subscriptions (snd (grant_time_block now uid code source d))) \<le> Suc (length (subscriptions d))"
  by (simp add: grant_time_block_def Let_def split: option.splits)

section \<open>At most once\<close>

text \<open>Blocks and open payments together never grow: a block is bought with a payment.\<close>

definition no_free_time :: "db \<Rightarrow> db \<Rightarrow> bool" where
  "no_free_time d d' \<longleftrightarrow>
     length (subscriptions d') + unpaid_count d' \<le> length (subscriptions d) + unpaid_count d \<and>
     (\<forall>ref. paid ref d \<longrightarrow> paid ref d')"

lemma no_free_time_trans: "no_free_time d e \<Longrightarrow> no_free_time e f \<Longrightarrow> no_free_time d f"
  unfolding no_free_time_def by (meson le_trans)

lemma preorder_no_free_time: "preorder no_free_time"
  by (rule preorderI) (auto simp: no_free_time_def elim: le_trans)

lemma paid_payments: "payments d' = payments d \<Longrightarrow> paid ref d' = paid ref d"
  by (simp add: paid_def)

lemma unpaid_payments: "payments d' = payments d \<Longrightarrow> unpaid_count d' = unpaid_count d"
  by (simp add: unpaid_count_def)

lemma grant_settled_run:
  assumes "run_state (grant_settled ev y) w = (r, w')"
  shows "payments (w_db w') = payments (w_db w) \<and>
    length (subscriptions (w_db w')) \<le> Suc (length (subscriptions (w_db w))) \<and>
    (r = Inr True \<longrightarrow> length (subscriptions (w_db w')) = Suc (length (subscriptions (w_db w))))"
proof -
  let ?uid = "case py_user_id y of Some u \<Rightarrow> Some u | None \<Rightarrow> md_user_id (ev_metadata ev)"
  let ?code = "if coalesce (py_plan_code y) [] = [] then md_plan_code (ev_metadata ev) else coalesce (py_plan_code y) []"
  show ?thesis
  proof (cases "?uid = None \<or> ?code = []")
    case True
    then show ?thesis using assms by (auto simp: grant_settled_def Let_def)
  next
    case False
    obtain g w1 where g: "run_state (store_grant_time_block (the ?uid) ?code ''paystack'') w = (g, w1)"
      by (cases "run_state (store_grant_time_block (the ?uid) ?code ''paystack'') w")
    let ?g = "grant_time_block (w_now w) (the ?uid) ?code ''paystack'' (w_db w)"
    have w1: "g = fst ?g \<and> w_db w1 = snd ?g \<or> g = Inl driver_error \<and> (w_db w1 = w_db w \<or> w_db w1 = snd ?g)"
      using db_call_outcome [OF g [unfolded store_grant_time_block_def]] by auto
    have r: "w' = w1" "r = Inr True \<longrightarrow> \<not> isl g"
      using assms False g by (auto simp: grant_settled_def Let_def split: sum.splits)
    have "length (subscriptions (w_db w')) = Suc (length (subscriptions (w_db w)))" if t: "r = Inr True"
    proof -
      from t r(2) obtain sub where "g = Inr sub" by (cases g) auto
      with w1 have "?g = (Inr sub, w_db w1)" by (simp add: prod_eq_iff driver_error_def)
      from grant_Inr [OF this] r(1) show ?thesis by auto
    qed
    then show ?thesis
      using w1 r(1) grant_keeps_payments [of "w_now w" "the ?uid" ?code "''paystack''" "w_db w"]
        grant_one_block [of "w_now w" "the ?uid" ?code "''paystack''" "w_db w"] by auto
  qed
qed

text \<open>The run of \<^const>\<open>settle_charge\<close>, call by call.\<close>

lemma settle_charge_run:
  assumes "run_state (settle_charge marshal ev) w = (r, w')"
  shows "no_free_time (w_db w) (w_db w') \<and>
    (paid (ev_reference ev) (w_db w) \<longrightarrow> w_db w' = w_db w \<and> r \<noteq> Inr True) \<and>
    (r = Inr True \<longrightarrow> known_payment (ev_reference ev) (w_db w) \<and> \<not> paid (ev_reference ev) (w_db w) \<and>
       paid (ev_reference ev) (w_db w') \<and>
       length (subscriptions (w_db w')) = Suc (length (subscriptions (w_db w)))) \<and>
    (subscriptions (w_db w') = subscriptions (w_db w) \<or>
       paid (ev_reference ev) (w_db w') \<and> length (subscriptions (w_db w')) \<le> Suc (length (subscriptions (w_db w))))"
proof -
  let ?ref = "ev_reference ev"
  have nf: "no_free_time d d" for d by (simp add: no_free_time_def)
  obtain rp w1 where p: "run_state (store_payment_by_ref ''paystack'' ?ref) w = (rp, w1)"
    by (cases "run_state (store_payment_by_ref ''paystack'' ?ref) w") auto
  have w1: "w_db w1 = w_db w"
    using db_call_outcome [OF p [unfolded store_payment_by_ref_def]] by (auto simp: payment_by_ref_def)
  show ?thesis
  proof (cases "?ref = [] \<or> (\<forall>x. rp \<noteq> Inr x) \<or> (\<exists>x. rp = Inr x \<and> ev_amount ev < py_amount_kobo x)")
    case True
    then have "w_db w' = w_db w \<and> r \<noteq> Inr True"
      using assms p w1 by (cases rp) (auto simp: settle_charge_def split: if_splits)
    then show ?thesis by (simp add: nf)
  next
    case False
    then obtain x where x: "rp = Inr x" "\<not> ev_amount ev < py_amount_kobo x" by blast
    obtain rs w2 where s: "run_state (store_settle_payment ''paystack'' ?ref (marshal ev)) w1 = (rs, w2)"
      by (cases "run_state (store_settle_payment ''paystack'' ?ref (marshal ev)) w1")
    let ?s = "settle_payment ''paystack'' ?ref (marshal ev) (w_db w)"
    have w2: "rs = fst ?s \<and> w_db w2 = snd ?s \<or> rs = Inl driver_error \<and> (w_db w2 = w_db w \<or> w_db w2 = snd ?s)"
      using db_call_outcome [OF s [unfolded store_settle_payment_def]] w1 by auto
    have keep: "no_free_time (w_db w) (w_db w2)" "paid ?ref (w_db w) \<Longrightarrow> w_db w2 = w_db w"
      "subscriptions (w_db w2) = subscriptions (w_db w)"
      using w2 settle_payment_keeps [of "''paystack''" ?ref "marshal ev" "w_db w"]
        settle_payment_again [of ?ref "w_db w" "marshal ev" "fst ?s" "snd ?s"] nf
      by (auto simp: no_free_time_def)
    show ?thesis
    proof (cases "\<exists>y. rs = Inr (y, True)")
      case no: False
      then have "w_db w' = w_db w2 \<and> r \<noteq> Inr True"
        using assms p s x False by (cases rs) (auto simp: settle_charge_def split: if_splits)
      with keep show ?thesis by simp
    next
      case True
      then obtain y where y: "rs = Inr (y, True)" by blast
      with w2 have "?s = (Inr (y, True), w_db w2)" by (simp add: prod_eq_iff driver_error_def)
      note first = settle_payment_first [OF this]
      have tail: "run_state (grant_settled ev y) w2 = (r, w')"
        using assms p s x y False by (simp add: settle_charge_def)
      note tail = grant_settled_run [OF tail]
      have pay: "paid x (w_db w') = paid x (w_db w2)" "unpaid_count (w_db w') = unpaid_count (w_db w2)" for x
        using tail paid_payments unpaid_payments by blast+
      have known: "known_payment ?ref (w_db w)" using first unfolding known_payment_def by blast
      have "no_free_time (w_db w) (w_db w')"
        using first tail keep(1) unfolding no_free_time_def pay by auto
      moreover have "length (subscriptions (w_db w')) = Suc (length (subscriptions (w_db w)))" if "r = Inr True"
        using that first tail by simp
      ultimately show ?thesis using first known pay(1) tail by auto
    qed
  qed
qed

section \<open>Deliveries\<close>

text \<open>
  What reaches the server about a payment: a webhook event with its body, or a user asking to verify a
  reference together with Paystack's answer.
\<close>

datatype delivery = Hook paystack_event string | Check uuid string "goerr + paystack_event"

definition deliver :: "(paystack_event \<Rightarrow> string) \<Rightarrow> delivery \<Rightarrow> ('e, unit) proc" where
  "deliver marshal x = (case x of
     Hook ev body \<Rightarrow> do { _ \<leftarrow> process_webhook marshal ev body; ret () }
   | Check uid ref answer \<Rightarrow> do { _ \<leftarrow> handle_verify_payment (\<lambda>_. answer) marshal uid ref; ret () })"

fun about :: "string \<Rightarrow> delivery \<Rightarrow> bool" where
  "about ref (Hook ev body) = (ev_reference ev = ref)"
| "about ref (Check uid r answer) = (case answer of Inl e \<Rightarrow> True | Inr ev \<Rightarrow> ev_reference ev = ref)"

definition one_block :: "string \<Rightarrow> db \<Rightarrow> db \<Rightarrow> bool" where
  "one_block ref d d' \<longleftrightarrow>
     (paid ref d \<longrightarrow> paid ref d' \<and> length (subscriptions d') \<le> length (subscriptions d)) \<and>
     length (subscriptions d') \<le> Suc (length (subscriptions d)) \<and>
     (length (subscriptions d) < length (subscriptions d') \<longrightarrow> paid ref d')"

lemma preorder_one_block: "preorder (one_block ref)"
proof (rule preorderI)
  fix d e f assume de: "one_block ref d e" and ef: "one_block ref e f"
  show "one_block ref d f"
  proof (cases "length (subscriptions d) < length (subscriptions e)")
    case True
    with de ef show ?thesis unfolding one_block_def by auto
  next
    case False
    with de ef show ?thesis unfolding one_block_def by auto
  qed
qed (auto simp: one_block_def)

lemma one_block_same: "payments d' = payments d \<Longrightarrow> subscriptions d' = subscriptions d \<Longrightarrow> one_block ref d d'"
  by (simp add: one_block_def paid_def)

lemma keeps_settle_one_block: "ev_reference ev = ref \<Longrightarrow> keeps (on_db (one_block ref)) (settle_charge marshal ev)"
proof (rule keepsI)
  fix w :: "'e world" and r w'
  assume "ev_reference ev = ref" "run_state (settle_charge marshal ev) w = (r, w')"
  then show "on_db (one_block ref) w w'"
    using settle_charge_run [of marshal ev w r w'] by (auto simp: on_db_def one_block_def no_free_time_def)
qed

lemma keeps_pay_calls [keeps_intros]:
  "keeps (on_db (one_block ref)) (store_record_webhook_event p i t b)"
  "keeps (on_db (one_block ref)) (store_mark_webhook_handled p i)"
  "keeps (on_db (one_block ref)) (store_payment_by_ref p r)"
  "keeps (on_db (one_block ref)) (store_entitlement uid)"
  unfolding pay_store_defs store_entitlement_def
  by (rule keeps_db_call [OF preorder_one_block], auto simp: record_webhook_event_def mark_webhook_handled_def
      payment_by_ref_def Let_def intro!: one_block_same)+

lemma keeps_deliver:
  assumes "about ref x"
  shows "keeps (on_db (one_block ref)) (deliver marshal x)"
proof -
  note pre = preorder_on_db [OF preorder_one_block]
  show ?thesis
  proof (cases x)
    case (Hook ev body)
    with assms show ?thesis
      unfolding deliver_def process_webhook_def
      by (auto intro!: keeps_intros pre keeps_settle_one_block)
  next
    case (Check uid r answer)
    with assms show ?thesis
      unfolding deliver_def handle_verify_payment_def
      by (auto intro!: keeps_intros pre keeps_settle_one_block)
  qed
qed

text \<open>
  C8 (payment_buys_at_most_one_block). However often a payment is delivered, by webhook retries and by
  users asking to verify it, in whatever order, and whichever store calls fail or lose their
  acknowledgement: all the deliveries of one reference together add at most one time block, and none
  once the payment counts as paid.
\<close>

theorem payment_buys_at_most_one_block:
  assumes "\<And>x. x \<in> set xs \<Longrightarrow> about ref x" and "run_state (for_each xs (deliver marshal)) w = (u, w')"
  shows "length (subscriptions (w_db w')) \<le> length (subscriptions (w_db w)) + (if paid ref (w_db w) then 0 else 1)"
proof -
  have "keeps (on_db (one_block ref)) (for_each xs (deliver marshal))"
    using assms(1) by (intro keeps_for_each preorder_on_db preorder_one_block keeps_deliver)
  from keepsD [OF this assms(2)] show ?thesis by (auto simp: on_db_def one_block_def)
qed

text \<open>
  C33 (underpaid_charge_grants_nothing). A charge below the price recorded at checkout, or for a
  reference the server never issued, changes nothing at all, whatever else the event claims.
\<close>

theorem underpaid_charge_grants_nothing:
  assumes "\<And>p. find (is_payment ''paystack'' (ev_reference ev)) (payments (w_db w)) = Some p \<Longrightarrow> ev_amount ev < py_amount_kobo p"
    and "run_state (settle_charge marshal ev) w = (r, w')"
  shows "w_db w' = w_db w \<and> r \<noteq> Inr True"
proof -
  let ?ref = "ev_reference ev"
  obtain rp w1 where p: "run_state (store_payment_by_ref ''paystack'' ?ref) w = (rp, w1)"
    by (cases "run_state (store_payment_by_ref ''paystack'' ?ref) w") auto
  have w1: "w_db w1 = w_db w" "\<And>x. rp = Inr x \<Longrightarrow> ev_amount ev < py_amount_kobo x"
    using db_call_outcome [OF p [unfolded store_payment_by_ref_def]] assms(1)
    by (auto simp: payment_by_ref_def driver_error_def split: option.splits)
  then show ?thesis
    using assms(2) p by (cases rp) (auto simp: settle_charge_def split: if_splits)
qed

section \<open>A payment that arrives\<close>

lemma find_and: "find P xs = Some x \<Longrightarrow> Q x \<Longrightarrow> find (\<lambda>x. P x \<and> Q x) xs = Some x"
  by (induction xs) (auto split: if_splits)

text \<open>The payment row of a checkout for a plan, and the accounts it refers to.\<close>

definition purchase :: "db \<Rightarrow> string \<Rightarrow> uuid \<Rightarrow> plan \<Rightarrow> payment_row \<Rightarrow> bool" where
  "purchase d ref uid pl p \<longleftrightarrow>
     find (is_payment ''paystack'' ref) (payments d) = Some p \<and> py_status p \<noteq> PaySuccess \<and>
     py_user_id p = Some uid \<and> py_plan_code p = Some (pl_code pl) \<and> pl_code pl \<noteq> [] \<and>
     find (\<lambda>q. pl_code q = pl_code pl) (plans d) = Some pl \<and> 0 < pl_duration pl \<and>
     list_ex (\<lambda>u. u_id u = uid) (users d)"

lemma grant_succeeds:
  assumes "find (\<lambda>q. pl_code q = pl_code pl) (plans d) = Some pl" and "0 < pl_duration pl"
    and "list_ex (\<lambda>u. u_id u = uid) (users d)" and "source \<in> set valid_sources"
  shows "\<exists>s d'. grant_time_block now uid (pl_code pl) source d = (Inr s, d')"
  using assms by (auto simp: grant_time_block_def Let_def)

lemma settle_charge_grants:
  assumes quiet: "w_faults w = []" and pur: "purchase (w_db w) (ev_reference ev) uid pl p"
    and amount: "py_amount_kobo p \<le> ev_amount ev" and ref: "ev_reference ev \<noteq> []"
  shows "\<exists>w' s. run_state (settle_charge marshal ev) w = (Inr True, w') \<and> paid (ev_reference ev) (w_db w') \<and>
    w_faults w' = [] \<and> w_now w' = w_now w \<and> sb_user_id s = uid \<and> sb_plan_code s = pl_code pl \<and> sb_revoked_at s = None \<and>
    sb_starts_at s = block_start (w_now w) uid (w_db w) \<and> sb_expires_at s = sb_starts_at s + pl_duration pl \<and>
    subscriptions (w_db w') = subscriptions (w_db w) @ [s] \<and> webhook_events (w_db w') = webhook_events (w_db w)"
proof -
  let ?d = "w_db w" and ?ref = "ev_reference ev"
  have find: "find (is_payment ''paystack'' ?ref) (payments ?d) = Some p" using pur by (simp add: purchase_def)
  obtain y d1 X where s: "settle_payment ''paystack'' ?ref (marshal ev) ?d = (Inr (y, True), d1)"
      "y = settle (if marshal ev = [] then ''{}'' else marshal ev) p" "d1 = ?d\<lparr>payments := X\<rparr>"
    using find_and [OF find, of "\<lambda>p. py_status p \<noteq> PaySuccess"] pur
    by (simp add: settle_payment_def Let_def purchase_def)
  note first = settle_payment_first [OF s(1)]
  have same: "plans d1 = plans ?d" "users d1 = users ?d" "subscriptions d1 = subscriptions ?d"
    "webhook_events d1 = webhook_events ?d"
    unfolding s(3) by simp_all
  obtain b d2 where g: "grant_time_block (w_now w) uid (pl_code pl) ''paystack'' d1 = (Inr b, d2)"
    using grant_succeeds [of pl d1 uid "''paystack''" "w_now w"] pur same by (auto simp: purchase_def valid_sources_def)
  obtain q where q: "find (\<lambda>p. pl_code p = pl_code pl) (plans d1) = Some q" "sb_user_id b = uid" "sb_plan_code b = pl_code pl"
      "sb_revoked_at b = None" "sb_starts_at b = block_start (w_now w) uid d1"
      "sb_expires_at b = block_start (w_now w) uid d1 + pl_duration q"
      "d2 = d1\<lparr>subscriptions := subscriptions d1 @ [b], next_id := Suc (next_id d1)\<rparr>"
    using grant_Inr [OF g] by blast
  have "q = pl" using q(1) pur same by (simp add: purchase_def)
  have "block_start (w_now w) uid d1 = block_start (w_now w) uid ?d"
    by (simp add: block_start_def open_blocks_def same)
  moreover have "paid ?ref d2" using first q(7) by (simp add: paid_def)
  moreover have "run_state (settle_charge marshal ev) w = (Inr True, w\<lparr>w_db := d2\<rparr>)"
    using quiet ref find amount s(1,2) g pur
    by (simp add: settle_charge_def grant_settled_def Let_def pay_store_defs payment_by_ref_def purchase_def)
  ultimately show ?thesis
    using quiet q \<open>q = pl\<close> same by (intro exI [of _ "w\<lparr>w_db := d2\<rparr>"] exI [of _ b]) simp
qed

text \<open>
  C15 (signed_charge_becomes_time). A correctly signed \<open>charge.success\<close> for a pending checkout, with
  the full amount and not seen before, is acknowledged and becomes time while the database answers: the
  payment is settled and exactly one block of the plan that was priced is added for the user who opened
  the checkout, starting where the paid time ends.
\<close>

theorem signed_charge_becomes_time:
  assumes "w_faults w = []" and "verify_signature mac c body sig" and "unmarshal body = Inr ev"
    and "ev_event ev = ''charge.success''" and "ev_reference ev \<noteq> []"
    and "\<And>r. r \<in> set (webhook_events (w_db w)) \<Longrightarrow> wh_event_id r \<noteq> event_id ev"
    and "purchase (w_db w) (ev_reference ev) uid pl p" and "py_amount_kobo p \<le> ev_amount ev"
  shows "\<exists>w' s. run_state (webhook mac unmarshal marshal c body sig) w = (Ok_reply 200 (), w') \<and>
    paid (ev_reference ev) (w_db w') \<and> subscriptions (w_db w') = subscriptions (w_db w) @ [s] \<and>
    sb_user_id s = uid \<and> sb_plan_code s = pl_code pl \<and>
    sb_starts_at s = block_start (w_now w) uid (w_db w) \<and> sb_expires_at s = sb_starts_at s + pl_duration pl \<and>
    (\<exists>r \<in> set (webhook_events (w_db w')). wh_event_id r = event_id ev \<and> wh_handled_at r = Some (w_now w))"
proof -
  let ?r = "\<lparr>wh_id = next_id (w_db w), wh_provider = ''paystack'', wh_event_id = event_id ev,
    wh_event_type = ev_event ev, wh_payload = body, wh_handled_at = None\<rparr>"
  let ?d = "(w_db w)\<lparr>webhook_events := webhook_events (w_db w) @ [?r], next_id := Suc (next_id (w_db w))\<rparr>"
  let ?w = "w\<lparr>w_db := ?d\<rparr>"
  have rec: "run_state (store_record_webhook_event ''paystack'' (event_id ev) (ev_event ev) body) w = (Inr True, ?w)"
    using assms(1,6) by (auto simp: pay_store_defs record_webhook_event_def list_ex_iff)
  have "purchase ?d (ev_reference ev) uid pl p" using assms(7) by (simp add: purchase_def)
  then obtain w1 s where w1: "run_state (settle_charge marshal ev) ?w = (Inr True, w1)" "paid (ev_reference ev) (w_db w1)"
      "w_faults w1 = []" and now: "w_now w1 = w_now w" and b: "sb_user_id s = uid" "sb_plan_code s = pl_code pl"
      "sb_starts_at s = block_start (w_now w) uid ?d" "sb_expires_at s = sb_starts_at s + pl_duration pl"
      "subscriptions (w_db w1) = subscriptions (w_db w) @ [s]" "webhook_events (w_db w1) = webhook_events (w_db w) @ [?r]"
    using settle_charge_grants [of ?w ev uid pl p marshal] assms(1,5,8) by auto
  have start: "block_start (w_now w) uid ?d = block_start (w_now w) uid (w_db w)"
    by (simp add: block_start_def open_blocks_def)
  let ?w2 = "w1\<lparr>w_db := snd (mark_webhook_handled (w_now w1) ''paystack'' (event_id ev) (w_db w1))\<rparr>"
  have "run_state (webhook mac unmarshal marshal c body sig) w = (Ok_reply 200 (), ?w2)"
    using assms(2-4) rec w1(1,3)
    by (simp add: webhook_def handle_paystack_webhook_def parse_event_def process_webhook_def
        store_mark_webhook_handled_def)
  moreover have "\<exists>r \<in> set (webhook_events (w_db ?w2)). wh_event_id r = event_id ev \<and> wh_handled_at r = Some (w_now w)"
    using b(6) now by (auto simp: mark_webhook_handled_def set_update_where intro!: bexI [of _ ?r])
  ultimately show ?thesis
    using w1 b start by (intro exI [of _ ?w2] exI [of _ s]) (simp add: mark_webhook_handled_def paid_def)
qed

definition demo_event :: paystack_event where
  "demo_event = \<lparr>ev_event = ''charge.success'', ev_id = 7, ev_reference = ''pxf_1'', ev_status = ''success'',
     ev_amount = 70000, ev_metadata = \<lparr>md_user_id = Some 1, md_plan_code = ''weekly''\<rparr>\<rparr>"

definition demo_payment :: payment_row where
  "demo_payment = \<lparr>py_id = 50, py_user_id = Some 1, py_provider = ''paystack'', py_provider_ref = ''pxf_1'',
     py_plan_code = Some ''weekly'', py_amount_kobo = 70000, py_currency = ''NGN'', py_status = PayPending,
     py_payload = ''{}''\<rparr>"

definition checkout_world :: "fake world" where
  "checkout_world = (demo_world [lon])\<lparr>w_db := (demo_db [lon])\<lparr>payments := [demo_payment]\<rparr>\<rparr>"

text \<open>
  The payment is marked paid before the block is added. When the grant is lost
  in between, no later webhook delivery and no verification adds it: the customer has paid, the payment
  counts as settled, and there is no block.
\<close>

theorem lost_grant_is_final:
  "let w1 = snd (run_state (deliver (\<lambda>_. ''{}'') (Hook demo_event ''{}''))
                  (checkout_world\<lparr>w_faults := [Fine, Fine, Fine, Lost]\<rparr>));
       w2 = snd (run_state (deliver (\<lambda>_. ''{}'') (Hook demo_event ''{}'')) w1);
       w3 = snd (run_state (deliver (\<lambda>_. ''{}'') (Check 1 ''pxf_1'' (Inr demo_event))) w2)
   in w_faults w1 = [] \<and> paid ''pxf_1'' (w_db w3) \<and> map sb_plan_code (subscriptions (w_db w3)) = [''daily'']"
  by code_simp

end
