(* ===== verification/SessionLaws.thy ===== *)
theory SessionLaws
  imports Sessions CheckoutLaws
begin

text \<open>What the session handlers guarantee: who gets tokens, and how often a refresh token works.\<close>

section \<open>Spent refresh tokens\<close>

text \<open>A token hash that is in the table and only on revoked rows.\<close>

definition spent :: "string \<Rightarrow> db \<Rightarrow> bool" where
  "spent h d \<longleftrightarrow> h \<in> set (map t_hash (refresh_tokens d)) \<and>
     (\<forall>t \<in> set (refresh_tokens d). t_hash t = h \<longrightarrow> t_revoked_at t \<noteq> None)"

lemma spent_same: "refresh_tokens d' = refresh_tokens d \<Longrightarrow> spent h d' = spent h d"
  by (simp add: spent_def)

lemma revoke_hashes: "map t_hash (update_where c (\<lambda>t. t\<lparr>t_revoked_at := v\<rparr>) ts) = map t_hash ts"
  by (rule map_update_where) simp

lemma spent_revoke: "spent h d \<Longrightarrow> spent h (d\<lparr>refresh_tokens := update_where c (\<lambda>t. t\<lparr>t_revoked_at := Some now\<rparr>) (refresh_tokens d)\<rparr>)"
  by (auto simp: spent_def set_update_where revoke_hashes simp del: set_map)

lemma spent_insert: "spent h d \<Longrightarrow> spent h (snd (insert_token uid dev k expires d))"
  by (auto simp: insert_token_def spent_def list_ex_iff)

lemma spent_rotate: "spent h d \<Longrightarrow> spent h (snd (rotate_refresh_token now old_hash k expires d))"
proof -
  assume s: "spent h d"
  let ?d1 = "d\<lparr>refresh_tokens := update_where (\<lambda>t. t_hash t = old_hash \<and> token_live now t)
      (\<lambda>t. t\<lparr>t_revoked_at := Some now\<rparr>) (refresh_tokens d)\<rparr>"
  have "spent h (snd (insert_token uid dev k expires ?d1))" for uid dev
    by (rule spent_insert [OF spent_revoke [OF s]])
  note i = this
  show ?thesis
  proof (cases "find (\<lambda>t. t_hash t = old_hash \<and> token_live now t) (refresh_tokens d)")
    case (Some t)
    obtain r d2 where ins: "insert_token (t_user_id t) (t_device_id t) k expires ?d1 = (r, d2)" by (rule prod.exhaust)
    from i [of "t_user_id t" "t_device_id t"] have "spent h d2" unfolding ins by simp
    with Some ins s show ?thesis by (cases r) (simp_all add: rotate_refresh_token_def Let_def)
  qed (use s in \<open>simp add: rotate_refresh_token_def\<close>)
qed

lemma grant_keeps_tokens: "refresh_tokens (snd (grant_time_block now uid code source d)) = refresh_tokens d"
  by (auto simp: grant_time_block_def Let_def split: option.splits)

lemma keeps_spent [keeps_intros]:
  "keeps (on_db (inv_rel (spent h))) (store_create_user e p k)"
  "keeps (on_db (inv_rel (spent h))) (store_grant_time_block uid code source)"
  "keeps (on_db (inv_rel (spent h))) (store_user_by_identifier ident)"
  "keeps (on_db (inv_rel (spent h))) (store_create_refresh_token uid dev k expires)"
  "keeps (on_db (inv_rel (spent h))) (store_rotate_refresh_token old_hash k expires)"
  "keeps (on_db (inv_rel (spent h))) (store_revoke_refresh_token k)"
  unfolding session_store_defs store_grant_time_block_def
  by (rule keeps_db_call [OF preorder_inv_rel],
      auto simp: inv_rel_def create_user_def Let_def user_by_identifier_def create_refresh_token_def revoke_refresh_token_def
        grant_keeps_tokens spent_insert spent_rotate spent_revoke intro: spent_same [THEN iffD2])+

lemma spent_never_rotates: "spent h d \<Longrightarrow> rotate_refresh_token now h k expires d = (Inl no_rows, d)"
proof -
  assume "spent h d"
  then have "find (\<lambda>t. t_hash t = h \<and> token_live now t) (refresh_tokens d) = None"
    by (auto simp: find_None_iff spent_def token_live_def)
  then show ?thesis by (simp add: rotate_refresh_token_def)
qed

lemma rotate_spends:
  assumes "rotate_refresh_token now h k expires d = (Inr x, d')" and "distinct (map t_hash (refresh_tokens d))"
  shows "spent h d'"
proof -
  obtain t where t: "find (\<lambda>t. t_hash t = h \<and> token_live now t) (refresh_tokens d) = Some t"
    using assms(1) by (auto simp: rotate_refresh_token_def split: option.splits)
  note mem = find_Some_iff_set [OF t]
  let ?d1 = "d\<lparr>refresh_tokens := update_where (\<lambda>t. t_hash t = h \<and> token_live now t)
      (\<lambda>t. t\<lparr>t_revoked_at := Some now\<rparr>) (refresh_tokens d)\<rparr>"
  have "s = t" if "s \<in> set (refresh_tokens d)" "t_hash s = h" for s
    using that mem assms(2) by (auto simp: distinct_map inj_on_def)
  moreover have "h \<in> set (map t_hash (refresh_tokens ?d1))" using mem by (auto simp: revoke_hashes)
  ultimately have "spent h ?d1" using mem by (auto simp: spent_def set_update_where simp del: set_map)
  then have "spent h (snd (insert_token (t_user_id t) (t_device_id t) k expires ?d1))" by (rule spent_insert)
  with assms(1) t show ?thesis
    by (auto simp: rotate_refresh_token_def Let_def split: prod.splits sum.splits)
qed

text \<open>The requests that touch tokens, and the clock moving between them.\<close>

datatype session_request =
    Signup "goerr + int list" string string
  | Login "goerr + int list" string string
  | Refresh "goerr + int list" string
  | Logout string
  | At time "fault list"

fun serve :: "session_env \<Rightarrow> session_request \<Rightarrow> ('e api, unit) state" where
  "serve env (Signup random ident pw) = do { _ \<leftarrow> handle_signup env random ident pw; ret () }"
| "serve env (Login random ident pw) = do { _ \<leftarrow> handle_login env random ident pw; ret () }"
| "serve env (Refresh random token) = do { _ \<leftarrow> handle_refresh env random token; ret () }"
| "serve env (Logout token) = do { _ \<leftarrow> handle_logout env token; ret () }"
| "serve env (At now faults) = State (\<lambda>s. ((), s\<lparr>ap_world := (ap_world s)\<lparr>w_now := now, w_faults := faults\<rparr>\<rparr>))"

lemma preorder_spent: "preorder (on_api (on_db (inv_rel (spent h))))"
  by (intro preorder_on_api preorder_on_db preorder_inv_rel)

lemma keeps_serve: "keeps (on_api (on_db (inv_rel (spent h)))) (serve env req)"
proof (cases req)
  case (At now faults)
  then show ?thesis by (simp add: keeps_def on_api_def on_db_def inv_rel_def)
qed (auto simp: handle_signup_def handle_login_def handle_refresh_def handle_logout_def issue_tokens_def
    intro!: keeps_intros preorder_spent preorder_on_db preorder_inv_rel split: prod.splits)

text \<open>
  C11 (refresh_token_single_use). A refresh token works once: after a refresh with it has been answered,
  no later refresh with the same token is, whatever sessions are opened, refreshed or closed in between,
  however much time passes and whichever store calls fail.
\<close>

theorem refresh_token_single_use:
  assumes "distinct (map t_hash (refresh_tokens (w_db (ap_world s))))"
    and "run_state (handle_refresh env random token) s = (Ok_reply status x, s1)"
    and "run_state (for_each reqs (serve env)) s1 = (u, s2)"
  shows "reply_status (fst (run_state (handle_refresh env random' token) s2)) \<noteq> 200"
proof -
  let ?h = "hash_refresh_token (se_sha env) token"
  have "token \<noteq> []" using assms(2) by (auto simp: handle_refresh_def write_error_def)
  then obtain tok k where tk: "new_refresh_token (se_sha env) random = Inr (tok, k)"
    using assms(2) by (cases "new_refresh_token (se_sha env) random")
      (auto simp: handle_refresh_def write_domain_error_def write_error_def split: if_splits)
  let ?w = "ap_world s"
  obtain r w1 where r: "run_state (store_rotate_refresh_token ?h k (w_now ?w + se_refresh_ttl env)) ?w = (r, w1)"
    by (rule prod.exhaust)
  from assms(2) tk \<open>token \<noteq> []\<close> r obtain y where y: "r = Inr y" "ap_world s1 = w1"
    by (cases r) (auto simp: handle_refresh_def write_error_def split: prod.splits)
  have "rotate_refresh_token (w_now ?w) ?h k (w_now ?w + se_refresh_ttl env) (w_db ?w) = (Inr y, w_db w1)"
    using db_call_outcome [OF r [unfolded store_rotate_refresh_token_def]] y(1) by (auto simp: driver_error_def prod_eq_iff)
  from rotate_spends [OF this assms(1)] have "spent ?h (w_db (ap_world s1))" using y(2) by simp
  moreover have "keeps (on_api (on_db (inv_rel (spent ?h)))) (for_each reqs (serve env))"
    by (intro keeps_for_each preorder_spent keeps_serve)
  ultimately have s2: "spent ?h (w_db (ap_world s2))"
    using keepsD [OF _ assms(3)] by (fastforce simp: on_api_def on_db_def inv_rel_def)
  show ?thesis
  proof (cases "new_refresh_token (se_sha env) random'")
    case (Inl e)
    with \<open>token \<noteq> []\<close> show ?thesis using domain_error_status [of e, where 'a = token_response] by (auto simp: handle_refresh_def)
  next
    case (Inr p)
    obtain tok' k' where p: "p = (tok', k')" by (cases p)
    obtain r2 w2 where r2: "run_state (store_rotate_refresh_token ?h k' (w_now (ap_world s2) + se_refresh_ttl env)) (ap_world s2) = (r2, w2)"
      by (rule prod.exhaust)
    have "isl r2"
      using db_call_outcome [OF r2 [unfolded store_rotate_refresh_token_def]] spent_never_rotates [OF s2] by auto
    then show ?thesis using Inr p \<open>token \<noteq> []\<close> r2 by (auto simp: handle_refresh_def isl_def)
  qed
qed

section \<open>Who gets tokens\<close>

lemma issue_tokens_user: "run_state (issue_tokens env random uid dev) w = (Ok_reply status tok, w') \<Longrightarrow> tk_user_id tok = uid"
  by (auto simp: issue_tokens_def on_error_def write_domain_error_def write_error_def split: prod.splits sum.splits if_splits)

text \<open>
  C12 (login_needs_the_password). Whichever store calls fail, a login is answered with tokens only for an
  active account that has the given identifier, under that account's own identity, and only when the
  password fits the account's stored hash.
\<close>

theorem login_needs_the_password:
  assumes "run_state (handle_login env random ident password) s = (Ok_reply status tok, s')"
  shows "\<exists>x. split_identifier ident = Inr x \<and>
    (\<exists>user \<in> set (users (w_db (ap_world s))). tk_user_id tok = u_id user \<and> u_status user = UserActive \<and>
      (email_eq (u_email user) (Some (login_identifier x)) \<or> text_eq (u_phone user) (Some (login_identifier x))) \<and>
      check_password (se_compare env) (u_password_hash user) password)"
proof -
  obtain x where x: "split_identifier ident = Inr x"
    using assms by (cases "split_identifier ident") (auto simp: handle_login_def write_error_def)
  let ?i = "login_identifier x"
  obtain ok s1 where lim: "run_state (login_allowed ?i) s = (ok, s1)" by (rule prod.exhaust)
  have w1: "ap_world s1 = ap_world s" using lim by (auto simp: login_allowed_def split: prod.splits)
  obtain ru w2 where ru: "run_state (store_user_by_identifier ?i) (ap_world s) = (ru, w2)" by (rule prod.exhaust)
  from assms x lim w1 ru obtain user where user: "ru = Inr user" "check_password (se_compare env) (u_password_hash user) password"
      "u_status user = UserActive"
      "run_state (issue_tokens env random (u_id user) None) w2 = (Ok_reply status tok, snd (run_state (issue_tokens env random (u_id user) None) w2))"
    by (cases ru) (auto simp: handle_login_def write_error_def invalid_credentials_def write_domain_error_def prod_eq_iff split: if_splits)
  have "user_by_identifier ?i (w_db (ap_world s)) = (Inr user, w_db w2)"
    using db_call_outcome [OF ru [unfolded store_user_by_identifier_def]] user(1) by (auto simp: driver_error_def prod_eq_iff)
  then have f: "find (\<lambda>u. u_status u \<noteq> UserDeleted \<and> (email_eq (u_email u) (Some ?i) \<or> text_eq (u_phone u) (Some ?i)))
      (users (w_db (ap_world s))) = Some user"
    by (auto simp: user_by_identifier_def split: option.splits)
  show ?thesis
    using x user(2,3) find_Some_iff_set [OF f] issue_tokens_user [OF user(4)] by blast
qed

text \<open>
  An unknown identifier and a wrong password get the same answer, so that logging in does not tell
  which accounts exist.
\<close>

lemma login_does_not_reveal_accounts:
  assumes "w_faults (ap_world s) = []" and "w_faults (ap_world s') = []"
    and "split_identifier ident = Inr x" and "ap_login s = ap_login s'" and "w_now (ap_world s) = w_now (ap_world s')"
    and "fst (user_by_identifier (login_identifier x) (w_db (ap_world s))) = Inl no_rows"
    and "fst (user_by_identifier (login_identifier x) (w_db (ap_world s'))) = Inr user"
    and "\<not> check_password (se_compare env) (u_password_hash user) password"
  shows "fst (run_state (handle_login env random ident password) s) = fst (run_state (handle_login env random ident password) s')"
proof -
  let ?i = "login_identifier x"
  obtain ok l where l: "allow (w_now (ap_world s')) ?i (ap_login s') = (ok, l)" by (rule prod.exhaust)
  show ?thesis
    using assms l by (simp add: handle_login_def login_allowed_def store_user_by_identifier_def)
qed

text \<open>
  Suspending an account does not end its sessions: a live refresh token of a suspended user is still
  exchanged for a new access token and a new refresh token.
\<close>

lemma suspended_session_lives_on:
  assumes "w_faults (ap_world s) = []" and "token \<noteq> []" and "new_refresh_token (se_sha env) random = Inr (tok, k)"
    and "find (\<lambda>t. t_hash t = hash_refresh_token (se_sha env) token \<and> token_live (w_now (ap_world s)) t)
      (refresh_tokens (w_db (ap_world s))) = Some t"
    and "find (\<lambda>u. u_id u = t_user_id t) (users (w_db (ap_world s))) = Some user" and "u_status user = UserSuspended"
    and "\<And>t. t \<in> set (refresh_tokens (w_db (ap_world s))) \<Longrightarrow> t_hash t \<noteq> k"
  shows "\<exists>x. fst (run_state (handle_refresh env random token) s) = Ok_reply 200 x \<and> tk_user_id x = u_id user"
proof -
  have u: "list_ex (\<lambda>u. u_id u = t_user_id t) (users (w_db (ap_world s)))" "u_id user = t_user_id t"
    using find_Some_iff_set [OF assms(5)] by (auto simp: list_ex_iff)
  have "\<not> list_ex (\<lambda>t. t_hash t = k) (update_where c (\<lambda>t. t\<lparr>t_revoked_at := v\<rparr>) (refresh_tokens (w_db (ap_world s))))" for c v
  proof -
    have "k \<notin> set (map t_hash (refresh_tokens (w_db (ap_world s))))" using assms(7) by auto
    then have "k \<notin> set (map t_hash (update_where c (\<lambda>t. t\<lparr>t_revoked_at := v\<rparr>) (refresh_tokens (w_db (ap_world s)))))"
      unfolding revoke_hashes .
    then show ?thesis by (auto simp: list_ex_iff)
  qed
  with assms(1-4) u show ?thesis
    by (auto simp: handle_refresh_def store_rotate_refresh_token_def rotate_refresh_token_def insert_token_def Let_def
        split: prod.splits)
qed

end
