(* ===== verification/Router.thy ===== *)
theory Router
  imports Admin SessionLaws
begin

text \<open>
  The surface of the control plane: \<open>Server.Handler\<close> of \<open>server/internal/api/api.go\<close>, the wrappers
  of \<open>middleware.go\<close> and \<open>decodeJSON\<close> of \<open>respond.go\<close> around the handlers. A request's path is
  the list of its unescaped segments; the JSON decoders of the request types are parameters.
\<close>

section \<open>The routes\<close>

datatype segment = Lit string | Wild

datatype access = Public | User | Operator

datatype endpoint =
    Healthz | Readyz | Signup_ep | Login_ep | Refresh_ep | Logout_ep | Me
  | RegisterDevice | ListDevices | DeleteDevice | RotateKey
  | ListServers | ListPlans
  | Provision_ep | Release | TunnelStatus
  | InitializePayment | VerifyPayment | PaystackWebhook
  | UpsertServer | SetServerStatus | ResyncServer | ReconcileNow | Grant

definition routes :: "(string \<times> segment list \<times> access \<times> endpoint) list" where
  "routes =
    [(''GET'', [Lit ''healthz''], Public, Healthz),
     (''GET'', [Lit ''readyz''], Public, Readyz),
     (''POST'', [Lit ''v1'', Lit ''auth'', Lit ''signup''], Public, Signup_ep),
     (''POST'', [Lit ''v1'', Lit ''auth'', Lit ''login''], Public, Login_ep),
     (''POST'', [Lit ''v1'', Lit ''auth'', Lit ''refresh''], Public, Refresh_ep),
     (''POST'', [Lit ''v1'', Lit ''auth'', Lit ''logout''], Public, Logout_ep),
     (''GET'', [Lit ''v1'', Lit ''me''], User, Me),
     (''POST'', [Lit ''v1'', Lit ''devices''], User, RegisterDevice),
     (''GET'', [Lit ''v1'', Lit ''devices''], User, ListDevices),
     (''DELETE'', [Lit ''v1'', Lit ''devices'', Wild], User, DeleteDevice),
     (''POST'', [Lit ''v1'', Lit ''devices'', Wild, Lit ''rotate-key''], User, RotateKey),
     (''GET'', [Lit ''v1'', Lit ''servers''], Public, ListServers),
     (''GET'', [Lit ''v1'', Lit ''plans''], Public, ListPlans),
     (''POST'', [Lit ''v1'', Lit ''tunnel'', Lit ''provision''], User, Provision_ep),
     (''POST'', [Lit ''v1'', Lit ''tunnel'', Lit ''release''], User, Release),
     (''GET'', [Lit ''v1'', Lit ''tunnel'', Lit ''status''], User, TunnelStatus),
     (''POST'', [Lit ''v1'', Lit ''payments'', Lit ''initialize''], User, InitializePayment),
     (''POST'', [Lit ''v1'', Lit ''payments'', Lit ''verify''], User, VerifyPayment),
     (''POST'', [Lit ''v1'', Lit ''webhooks'', Lit ''paystack''], Public, PaystackWebhook),
     (''POST'', [Lit ''v1'', Lit ''admin'', Lit ''servers''], Operator, UpsertServer),
     (''POST'', [Lit ''v1'', Lit ''admin'', Lit ''servers'', Wild, Lit ''status''], Operator, SetServerStatus),
     (''POST'', [Lit ''v1'', Lit ''admin'', Lit ''servers'', Wild, Lit ''resync''], Operator, ResyncServer),
     (''POST'', [Lit ''v1'', Lit ''admin'', Lit ''reconcile''], Operator, ReconcileNow),
     (''POST'', [Lit ''v1'', Lit ''admin'', Lit ''grant''], Operator, Grant)]"

text \<open>A wildcard stands for one segment that is not empty; its value is the handler's path value.\<close>

fun match_path :: "segment list \<Rightarrow> string list \<Rightarrow> string list option" where
  "match_path [] [] = Some []"
| "match_path (Lit s # ss) (p # ps) = (if p = s then match_path ss ps else None)"
| "match_path (Wild # ss) (p # ps) = (if p = [] then None else map_option ((#) p) (match_path ss ps))"
| "match_path ss ps = None"

text \<open>A pattern for \<open>GET\<close> also serves \<open>HEAD\<close>.\<close>

definition method_ok :: "string \<Rightarrow> string \<Rightarrow> bool" where
  "method_ok pat m \<longleftrightarrow> m = pat \<or> (pat = ''GET'' \<and> m = ''HEAD'')"

definition matching :: "string list \<Rightarrow> (string \<times> access \<times> endpoint \<times> string list) list" where
  "matching path = List.map_filter (\<lambda>(m, pat, acc, ep). map_option (\<lambda>vs. (m, acc, ep, vs)) (match_path pat path)) routes"

text \<open>No route is a \<open>404\<close>, a route for other methods only a \<open>405\<close>.\<close>

definition find_route :: "string \<Rightarrow> string list \<Rightarrow> int + (access \<times> endpoint \<times> string)" where
  "find_route meth path =
     (case find (\<lambda>(m, _). method_ok m meth) (matching path) of
        Some (m, acc, ep, vs) \<Rightarrow> Inr (acc, ep, concat vs)
      | None \<Rightarrow> Inl (if matching path = [] then 404 else 405))"

lemma routes_distinct: "distinct (map (\<lambda>(m, pat, acc, ep). (m, pat)) routes) \<and> distinct (map (\<lambda>(m, pat, acc, ep). ep) routes)"
  by code_simp

section \<open>Requests and answers\<close>

record client_request =
  cq_method :: string
  cq_path :: "string list"
  cq_authorization :: string
  cq_country :: string
  cq_signature :: string
  cq_device_id :: string
  cq_body :: string

datatype body =
    NoBody
  | MuxBody
  | TokensBody token_response
  | MeBody me_view
  | DeviceBody registered_device
  | DevicesBody "listed_device list"
  | RotatedBody "uuid \<times> string \<times> bool"
  | ServersBody "server_view list"
  | PlansBody "plan_view list"
  | ConfigBody tunnel_config
  | RevokingBody nat
  | AssignmentsBody "status_view list"
  | CheckoutBody checkout_body
  | VerifyBody verify_body
  | ServerBody "uuid \<times> string \<times> server_status"
  | StatusBody "string \<times> string"
  | ResyncedBody string
  | GrantBody grant_view
  | ReadyBody bool

text \<open>The decoders of the request types, each for one JSON object without unknown fields.\<close>

record decoders =
  dj_credentials :: "string \<Rightarrow> (string \<times> string) option"
  dj_refresh :: "string \<Rightarrow> string option"
  dj_register :: "string \<Rightarrow> (string \<times> string \<times> string \<times> string) option"
  dj_rotate :: "string \<Rightarrow> string option"
  dj_provision :: "string \<Rightarrow> (string \<times> string) option"
  dj_release :: "string \<Rightarrow> string option"
  dj_initialize :: "string \<Rightarrow> (string \<times> string) option"
  dj_verify :: "string \<Rightarrow> string option"
  dj_upsert_server :: "string \<Rightarrow> upsert_server_request option"
  dj_server_status :: "string \<Rightarrow> string option"
  dj_grant :: "string \<Rightarrow> (string \<times> string) option"

definition max_body :: nat where
  "max_body = 2 ^ 20"

text \<open>The same cut counted with an \<open>int\<close>, for evaluation.\<close>

fun take_at_most :: "int \<Rightarrow> 'x list \<Rightarrow> 'x list" where
  "take_at_most n [] = []"
| "take_at_most n (x # xs) = (if n \<le> 0 then [] else x # take_at_most (n - 1) xs)"

lemma take_at_most_take: "take_at_most (int n) xs = take n xs"
proof (induction xs arbitrary: n)
  case (Cons x xs)
  then show ?case by (cases n) simp_all
qed simp

lemma take_max_body [code_unfold]: "take max_body xs = take_at_most 1048576 xs"
  using take_at_most_take [of max_body xs] by (simp add: max_body_def)

definition decode_json :: "(string \<Rightarrow> 'x option) \<Rightarrow> string \<Rightarrow> ('x \<Rightarrow> ('s, 'a reply) state) \<Rightarrow> ('s, 'a reply) state" where
  "decode_json dec raw act = (case dec (take max_body raw) of None \<Rightarrow> ret decode_failure | Some x \<Rightarrow> act x)"

section \<open>The server\<close>

text \<open>What a server is built from: \<open>Deps\<close>, with the functions outside the repository.\<close>

record 'e server_env =
  sv_session :: session_env
  sv_edge :: "'e edge_client"
  sv_admin_token :: string
  sv_parse_id :: "string \<Rightarrow> uuid option"
  sv_parse_cidr :: "string \<Rightarrow> cidr option"
  sv_decode :: decoders
  sv_paystack :: paystack_client
  sv_mac :: "string \<Rightarrow> string \<Rightarrow> string"
  sv_unmarshal :: "string \<Rightarrow> goerr + paystack_event"
  sv_marshal :: "paystack_event \<Rightarrow> string"
  sv_verify :: "string \<Rightarrow> goerr + paystack_event"
  sv_initialize :: "checkout_params \<Rightarrow> goerr + checkout_result"

text \<open>The process: the API, the reconciler, and the webhook events acknowledged but not yet processed.\<close>

record 'e system =
  sy_api :: "'e api"
  sy_reconciler :: reconciler
  sy_jobs :: "(paystack_event \<times> string) list"

definition on_api_state :: "('e api, 'a) state \<Rightarrow> ('e system, 'a) state" where
  "on_api_state m = State (\<lambda>s. case run_state m (sy_api s) of (r, a) \<Rightarrow> (r, s\<lparr>sy_api := a\<rparr>))"

abbreviation in_world :: "('e, 'a) proc \<Rightarrow> ('e system, 'a) state" where
  "in_world m \<equiv> on_api_state (on_world m)"

definition answer :: "('a \<Rightarrow> body) \<Rightarrow> ('s, 'a reply) state \<Rightarrow> ('s, body reply) state" where
  "answer f m = do { r \<leftarrow> m; ret (map_reply f r) }"

definition no_endpoint :: "('s, body reply) state" where
  "no_endpoint = ret (Ok_reply 404 MuxBody)"

definition webhook_endpoint :: "'e server_env \<Rightarrow> client_request \<Rightarrow> ('e system, body reply) state" where
  "webhook_endpoint env rq =
     (let raw = take max_body (cq_body rq) in
      case handle_paystack_webhook (sv_mac env) (sv_unmarshal env) (sv_paystack env) raw (cq_signature rq) of
        Inl r \<Rightarrow> ret (map_reply (\<lambda>_. NoBody) r)
      | Inr ev \<Rightarrow> State (\<lambda>s. (Ok_reply 200 NoBody, s\<lparr>sy_jobs := sy_jobs s @ [(ev, raw)]\<rparr>)))"

fun public_endpoint ::
  "'e server_env \<Rightarrow> goerr + int list \<Rightarrow> client_request \<Rightarrow> endpoint \<Rightarrow> ('e system, body reply) state" where
  "public_endpoint env random rq Healthz = in_world (answer (\<lambda>_. NoBody) handle_health_check)"
| "public_endpoint env random rq Readyz = in_world (answer ReadyBody handle_ready)"
| "public_endpoint env random rq Signup_ep = on_api_state (decode_json (dj_credentials (sv_decode env)) (cq_body rq)
     (\<lambda>(ident, pw). answer TokensBody (handle_signup (sv_session env) random ident pw)))"
| "public_endpoint env random rq Login_ep = on_api_state (decode_json (dj_credentials (sv_decode env)) (cq_body rq)
     (\<lambda>(ident, pw). answer TokensBody (handle_login (sv_session env) random ident pw)))"
| "public_endpoint env random rq Refresh_ep = on_api_state (decode_json (dj_refresh (sv_decode env)) (cq_body rq)
     (\<lambda>token. answer TokensBody (handle_refresh (sv_session env) random token)))"
| "public_endpoint env random rq Logout_ep = on_api_state (decode_json (dj_refresh (sv_decode env)) (cq_body rq)
     (\<lambda>token. answer (\<lambda>_. NoBody) (handle_logout (sv_session env) token)))"
| "public_endpoint env random rq ListServers = in_world (answer ServersBody handle_list_servers)"
| "public_endpoint env random rq ListPlans = in_world (answer PlansBody handle_list_plans)"
| "public_endpoint env random rq PaystackWebhook = webhook_endpoint env rq"
| "public_endpoint env random rq ep = no_endpoint"

text \<open>The handlers behind a bearer token, for the user the token names; \<open>arg\<close> is the path value.\<close>

fun user_endpoint ::
  "'e server_env \<Rightarrow> goerr + int list \<Rightarrow> client_request \<Rightarrow> string \<Rightarrow> uuid \<Rightarrow> endpoint \<Rightarrow> ('e system, body reply) state" where
  "user_endpoint env random rq arg uid Me = on_api_state (answer MeBody (handle_me uid))"
| "user_endpoint env random rq arg uid RegisterDevice = in_world (decode_json (dj_register (sv_decode env)) (cq_body rq)
     (\<lambda>(name, platform, key, version). answer DeviceBody (handle_register_device uid name platform key version)))"
| "user_endpoint env random rq arg uid ListDevices = in_world (answer DevicesBody (handle_list_devices uid))"
| "user_endpoint env random rq arg uid DeleteDevice =
     in_world (answer (\<lambda>_. NoBody) (handle_delete_device (sv_parse_id env) uid arg))"
| "user_endpoint env random rq arg uid RotateKey = in_world (decode_json (dj_rotate (sv_decode env)) (cq_body rq)
     (\<lambda>key. answer RotatedBody (handle_rotate_key (sv_parse_id env) uid arg key)))"
| "user_endpoint env random rq arg uid Provision_ep = in_world (decode_json (dj_provision (sv_decode env)) (cq_body rq)
     (\<lambda>(dev, code). answer ConfigBody (handle_provision (sv_edge env) (sv_parse_id env) uid dev code (cq_country rq))))"
| "user_endpoint env random rq arg uid Release = in_world (decode_json (dj_release (sv_decode env)) (cq_body rq)
     (\<lambda>dev. answer RevokingBody (handle_release (sv_parse_id env) uid dev)))"
| "user_endpoint env random rq arg uid TunnelStatus =
     in_world (answer AssignmentsBody (handle_tunnel_status (sv_parse_id env) uid (cq_device_id rq)))"
| "user_endpoint env random rq arg uid InitializePayment = in_world (decode_json (dj_initialize (sv_decode env)) (cq_body rq)
     (\<lambda>(code, callback). answer CheckoutBody
        (handle_initialize_payment (se_id_text (sv_session env)) (new_reference random) (sv_initialize env) uid code callback)))"
| "user_endpoint env random rq arg uid VerifyPayment = in_world (decode_json (dj_verify (sv_decode env)) (cq_body rq)
     (\<lambda>ref. answer VerifyBody (handle_verify_payment (sv_verify env) (sv_marshal env) uid ref)))"
| "user_endpoint env random rq arg uid ep = no_endpoint"

fun operator_endpoint :: "'e server_env \<Rightarrow> client_request \<Rightarrow> string \<Rightarrow> endpoint \<Rightarrow> ('e system, body reply) state" where
  "operator_endpoint env rq arg UpsertServer = in_world (decode_json (dj_upsert_server (sv_decode env)) (cq_body rq)
     (\<lambda>r. answer ServerBody (handle_upsert_server (sv_parse_cidr env) r)))"
| "operator_endpoint env rq arg SetServerStatus = in_world (decode_json (dj_server_status (sv_decode env)) (cq_body rq)
     (\<lambda>status. answer StatusBody (handle_server_status arg status)))"
| "operator_endpoint env rq arg ResyncServer = in_world (answer ResyncedBody (handle_resync (sv_edge env) arg))"
| "operator_endpoint env rq arg ReconcileNow =
     State (\<lambda>s. run_state (in_world (answer (\<lambda>_. NoBody) (handle_reconcile_now (sv_edge env) (sy_reconciler s)))) s)"
| "operator_endpoint env rq arg Grant = in_world (decode_json (dj_grant (sv_decode env)) (cq_body rq)
     (\<lambda>(ident, code). answer GrantBody (handle_grant ident code)))"
| "operator_endpoint env rq arg ep = no_endpoint"

text \<open>
  \<open>authenticated\<close> puts the token's subject in the request, and the handlers pass it on to the database.
  Tokens are issued for uuids only; a subject that is none is answered here with the database's error
  at once, where the code may first find another fault in the request.
\<close>

definition as_user ::
  "'e server_env \<Rightarrow> client_request \<Rightarrow> (uuid \<Rightarrow> ('e system, body reply) state) \<Rightarrow> ('e system, body reply) state" where
  "as_user env rq act = do {
     now \<leftarrow> in_world clock;
     case authenticated (se_signer (sv_session env)) now (cq_authorization rq) of
       Inl r \<Rightarrow> ret r
     | Inr c \<Rightarrow> (case sv_parse_id env (cl_subject c) of None \<Rightarrow> ret (write_domain_error bad_uuid) | Some uid \<Rightarrow> act uid)
   }"

definition as_operator ::
  "'e server_env \<Rightarrow> client_request \<Rightarrow> ('e system, body reply) state \<Rightarrow> ('e system, body reply) state" where
  "as_operator env rq act =
     (case admin_only (sv_admin_token env) (cq_authorization rq) of Some r \<Rightarrow> ret r | None \<Rightarrow> act)"

text \<open>One request: the outcome of the random source is what it gives while the request is served.\<close>

definition serve_http ::
  "'e server_env \<Rightarrow> goerr + int list \<Rightarrow> client_request \<Rightarrow> ('e system, body reply) state" where
  "serve_http env random rq =
     (case find_route (cq_method rq) (cq_path rq) of
        Inl status \<Rightarrow> ret (Ok_reply status MuxBody)
      | Inr (acc, ep, arg) \<Rightarrow>
          (case acc of
             Public \<Rightarrow> public_endpoint env random rq ep
           | User \<Rightarrow> as_user env rq (\<lambda>uid. user_endpoint env random rq arg uid ep)
           | Operator \<Rightarrow> as_operator env rq (operator_endpoint env rq arg ep)))"

section \<open>Who gets in\<close>

lemma run_in_world [simp]:
  "run_state (in_world m) s = (fst (run_state m (ap_world (sy_api s))),
     s\<lparr>sy_api := (sy_api s)\<lparr>ap_world := snd (run_state m (ap_world (sy_api s)))\<rparr>\<rparr>)"
  by (simp add: on_api_state_def)

lemma run_on_api_state [simp]:
  "run_state (on_api_state m) s = (fst (run_state m (sy_api s)), s\<lparr>sy_api := snd (run_state m (sy_api s))\<rparr>)"
  by (simp add: on_api_state_def split: prod.splits)

text \<open>A credential the server accepts for a request: a valid access token, or the operator's token.\<close>

definition has_token :: "'e server_env \<Rightarrow> time \<Rightarrow> client_request \<Rightarrow> bool" where
  "has_token env now rq \<longleftrightarrow> (\<exists>c. verify (se_signer (sv_session env)) now (bearer_token (cq_authorization rq)) = Inr c)"

definition has_admin_token :: "'e server_env \<Rightarrow> client_request \<Rightarrow> bool" where
  "has_admin_token env rq \<longleftrightarrow> sv_admin_token env \<noteq> [] \<and> bearer_token (cq_authorization rq) = sv_admin_token env"

lemma find_route_listed:
  assumes "find_route m path = Inr (acc, ep, arg)"
  shows "(acc, ep) \<in> set (map (\<lambda>(m, pat, acc, ep). (acc, ep)) routes)"
proof -
  obtain pat vs where "find (\<lambda>(m', _). method_ok m' m) (matching path) = Some (pat, acc, ep, vs)"
    using assms by (auto simp: find_route_def split: option.splits if_splits)
  from find_Some_iff_set [OF this] show ?thesis
    by (force simp: matching_def map_filter_def)
qed

text \<open>The endpoints anybody may call.\<close>

definition open_endpoints :: "endpoint list" where
  "open_endpoints = [Healthz, Readyz, Signup_ep, Login_ep, Refresh_ep, Logout_ep, ListServers, ListPlans, PaystackWebhook]"

lemma routes_access: "list_all (\<lambda>(m, pat, acc, ep). acc = Public \<longrightarrow> ep \<in> set open_endpoints) routes"
  by code_simp

text \<open>
  C7 (guarded_routes). Everything but health, signup, login, refresh, logout, the catalogue and the
  payment webhook needs a credential: a request for any other endpoint that carries neither a valid
  access token nor the operator's token is answered with 401 or, where no operator token is configured,
  404, and changes nothing, whatever else it contains.
\<close>

theorem guarded_routes:
  assumes "find_route (cq_method rq) (cq_path rq) = Inr (acc, ep, arg)" and "ep \<notin> set open_endpoints"
    and "\<not> has_token env (w_now (ap_world (sy_api s))) rq" and "\<not> has_admin_token env rq"
  shows "\<exists>r. run_state (serve_http env random rq) s = (r, s) \<and> reply_status r \<in> {401, 404}"
proof (cases acc)
  case Public
  with find_route_listed [OF assms(1)] routes_access assms(2) show ?thesis by (force simp: list_all_iff)
next
  case User
  let ?v = "verify (se_signer (sv_session env)) (w_now (ap_world (sy_api s))) (bearer_token (cq_authorization rq))"
  obtain e where "?v = Inl e" using assms(3) by (cases ?v) (auto simp: has_token_def)
  then show ?thesis using assms(1) User by (auto simp: serve_http_def as_user_def authenticated_def Let_def)
next
  case Operator
  have "admin_only (sv_admin_token env) (cq_authorization rq) \<noteq> None"
    using assms(4) by (simp add: admin_only_passes has_admin_token_def)
  then show ?thesis using assms(1) Operator
    by (auto simp: serve_http_def as_operator_def admin_only_def split: if_splits)
qed

end
