(* ===== verification/System.thy ===== *)
theory System
  imports Router Fixtures
begin

text \<open>
  The control plane as a whole (\<open>server/cmd/api/main.go\<close>): one process that serves requests, runs the
  reconciler and the health sweep, and works off acknowledged webhooks in the background, over one
  database and a fleet of boxes. Requests, passes and background jobs are events; between two of them
  time passes, store calls may be about to fail, boxes change on their own, and the process may be
  restarted.
\<close>

datatype 'e event =
    Request client_request "goerr + int list"
  | Background nat
  | Pass
  | Sweep
  | Environment time "fault list" "rat list" 'e
  | Restart

text \<open>A fresh process has empty limiters, knows no boot identifier and has no work in the background.\<close>

definition start_system :: "'e world \<Rightarrow> 'e system" where
  "start_system w = \<lparr>sy_api = new_server w, sy_reconciler = new_reconciler, sy_jobs = []\<rparr>"

text \<open>Acknowledged webhooks are processed in any order, or never, when the process stops.\<close>

definition background_job :: "'e server_env \<Rightarrow> nat \<Rightarrow> ('e system, unit) state" where
  "background_job env i = State (\<lambda>s.
     if i < length (sy_jobs s)
     then case sy_jobs s ! i of (ev, raw) \<Rightarrow>
       run_state (do { _ \<leftarrow> in_world (process_webhook (sv_marshal env) ev raw); ret () })
         (s\<lparr>sy_jobs := take i (sy_jobs s) @ drop (Suc i) (sy_jobs s)\<rparr>)
     else ((), s))"

text \<open>One turn of the loop of \<open>Reconciler.Run\<close>: the error of a pass is logged and forgotten.\<close>

definition reconciler_pass :: "'e server_env \<Rightarrow> ('e system, unit) state" where
  "reconciler_pass env = State (\<lambda>s.
     run_state (do { _ \<leftarrow> in_world (once (sv_edge env) (sy_reconciler s)); ret () }) s)"

text \<open>One turn of \<open>runHealthSweep\<close>.\<close>

definition sweep_pass :: "'e server_env \<Rightarrow> ('e system, unit) state" where
  "sweep_pass env = State (\<lambda>s.
     case run_state (in_world (health_sweep (sv_edge env) (sy_reconciler s))) s of
       ((r, rc), s') \<Rightarrow> ((), s'\<lparr>sy_reconciler := rc\<rparr>))"

definition environment :: "time \<Rightarrow> fault list \<Rightarrow> rat list \<Rightarrow> 'e \<Rightarrow> ('e system, unit) state" where
  "environment now faults draws boxes = in_world (State (\<lambda>w. ((),
     w\<lparr>w_now := now, w_faults := faults, w_draws := draws, w_edge := boxes\<rparr>)))"

definition restart :: "('e system, unit) state" where
  "restart = State (\<lambda>s. ((), start_system (ap_world (sy_api s))))"

fun happen :: "'e server_env \<Rightarrow> 'e event \<Rightarrow> ('e system, unit) state" where
  "happen env (Request rq random) = do { _ \<leftarrow> serve_http env random rq; ret () }"
| "happen env (Background i) = background_job env i"
| "happen env Pass = reconciler_pass env"
| "happen env Sweep = sweep_pass env"
| "happen env (Environment now faults draws boxes) = environment now faults draws boxes"
| "happen env Restart = restart"

text \<open>The database after the migrations: the plans, and nothing else.\<close>

definition migrated_db :: db where
  "migrated_db = \<lparr>users = [], devices = [], plans = initial_plans, subscriptions = [], payments = [],
     webhook_events = [], refresh_tokens = [], servers = [], peers = [], next_id = 0\<rparr>"

text \<open>The database of a process.\<close>

definition sy_db :: "'e system \<Rightarrow> db" where
  "sy_db s = w_db (ap_world (sy_api s))"

inductive reachable :: "'e server_env \<Rightarrow> 'e system \<Rightarrow> bool" for env :: "'e server_env" where
  start: "w_db w = migrated_db \<Longrightarrow> reachable env (start_system w)"
| event: "reachable env s \<Longrightarrow> reachable env (snd (run_state (happen env ev) s))"

lemma reachable_events: "reachable env s \<Longrightarrow> reachable env (snd (run_state (for_each evs (happen env)) s))"
proof (induction evs arbitrary: s)
  case (Cons ev evs)
  show ?case unfolding run_for_each_Cons by (rule Cons.IH) (rule reachable.event [OF Cons.prems])
qed simp

text \<open>A relation between the databases before and after.\<close>

definition on_sy :: "(db \<Rightarrow> db \<Rightarrow> bool) \<Rightarrow> 'e system \<Rightarrow> 'e system \<Rightarrow> bool" where
  "on_sy R s t \<longleftrightarrow> R (sy_db s) (sy_db t)"

lemma preorder_on_sy: "preorder R \<Longrightarrow> preorder (on_sy R)"
  unfolding preorder_def on_sy_def by blast

lemma keeps_on_api_state: "keeps (on_api (on_db R)) m \<Longrightarrow> keeps (on_sy R) (on_api_state m)"
  by (simp add: keeps_def on_sy_def on_api_def on_db_def sy_db_def)

lemma reachable_inv:
  assumes "P migrated_db" and "\<And>ev. keeps (on_sy (inv_rel P)) (happen env ev)" and "reachable env s"
  shows "P (sy_db s)"
  using assms(3)
proof induction
  case (start w)
  then show ?case using assms(1) by (simp add: sy_db_def start_system_def new_server_def)
next
  case (event s ev)
  then show ?case using assms(2) [of ev] by (simp add: keeps_def on_sy_def inv_rel_def)
qed

end
