(* ===== verification/Triples.thy ===== *)
theory Triples
  imports CheckoutLaws
begin

text \<open>
  Triples for computations over the database: from one with \<open>P\<close>, every run ends in one with \<open>Q\<close> of its
  result, whichever calls fail.
\<close>

named_theorems triples

section \<open>Triples\<close>

definition ensures :: "(db \<Rightarrow> bool) \<Rightarrow> ('e, 'a) proc \<Rightarrow> ('a \<Rightarrow> db \<Rightarrow> bool) \<Rightarrow> bool" where
  "ensures P m Q \<longleftrightarrow> (\<forall>w. P (w_db w) \<longrightarrow> Q (fst (run_state m w)) (w_db (snd (run_state m w))))"

lemma ensures_ret [triples]: "(\<And>d. P d \<Longrightarrow> Q x d) \<Longrightarrow> ensures P (ret x) Q"
  by (simp add: ensures_def)

lemma ensures_bind:
  "ensures P m Q \<Longrightarrow> (\<And>x. ensures (Q x) (f x) S) \<Longrightarrow> ensures P (State_Monad.bind m f) S"
  unfolding ensures_def by (auto split: prod.splits)

lemma ensures_if [triples]: "(b \<Longrightarrow> ensures P m Q) \<Longrightarrow> (\<not> b \<Longrightarrow> ensures P n Q) \<Longrightarrow> ensures P (if b then m else n) Q"
  by simp

lemma ensures_case_sum [triples]:
  "(\<And>e. r = Inl e \<Longrightarrow> ensures P (f e) Q) \<Longrightarrow> (\<And>x. r = Inr x \<Longrightarrow> ensures P (g x) Q) \<Longrightarrow>
   ensures P (case r of Inl e \<Rightarrow> f e | Inr x \<Rightarrow> g x) Q"
  by (cases r) auto

lemma ensures_case_option [triples]:
  "(r = None \<Longrightarrow> ensures P m Q) \<Longrightarrow> (\<And>x. r = Some x \<Longrightarrow> ensures P (g x) Q) \<Longrightarrow>
   ensures P (case r of None \<Rightarrow> m | Some x \<Rightarrow> g x) Q"
  by (cases r) auto

lemma ensures_on_error [triples]:
  "(\<And>e d. r = Inl e \<Longrightarrow> P d \<Longrightarrow> Q (bad e) d) \<Longrightarrow> (\<And>x. r = Inr x \<Longrightarrow> ensures P (good x) Q) \<Longrightarrow> ensures P (on_error r bad good) Q"
  by (cases r) (auto intro: ensures_ret)

lemma ensures_pre: "ensures P' m Q \<Longrightarrow> (\<And>d. P d \<Longrightarrow> P' d) \<Longrightarrow> ensures P m Q"
  by (simp add: ensures_def)

lemma ensures_post: "ensures P m Q' \<Longrightarrow> (\<And>x d. Q' x d \<Longrightarrow> Q x d) \<Longrightarrow> ensures P m Q"
  by (simp add: ensures_def)

text \<open>A call whose failure changes nothing, or as much as its success.\<close>

lemma ensures_db_call:
  assumes "\<And>now d. P d \<Longrightarrow> Q (fst (f now d)) (snd (f now d)) \<and> Q (Inl driver_error) (snd (f now d)) \<and> Q (Inl driver_error) d"
  shows "ensures P (db_call f :: ('e, goerr + 'a) proc) Q"
  unfolding ensures_def
proof (intro allI impI)
  fix w :: "'e world"
  assume P: "P (w_db w)"
  obtain r w' where run: "run_state (db_call f) w = (r, w')" by (rule prod.exhaust)
  from db_call_outcome [OF run] assms [OF P, of "w_now w"]
  show "Q (fst (run_state (db_call f) w)) (w_db (snd (run_state (db_call f) w)))"
    unfolding run by auto
qed

lemma ensures_read: "(\<And>now d. snd (f now d) = d) \<Longrightarrow> ensures P (db_call f) (\<lambda>r. P)"
  by (rule ensures_db_call) simp

lemma ensures_edge_call [triples]: "ensures P (edge_call f) (\<lambda>r. P)"
  by (simp add: ensures_def)

lemma ensures_clock [triples]: "ensures P clock (\<lambda>r. P)"
  by (simp add: ensures_def)

lemma ensures_draw [triples]: "ensures P float64_draw (\<lambda>r. P)"
  by (simp add: ensures_def float64_draw_def split: list.splits)

text \<open>A relation is kept when it leads from every database to those after it.\<close>

lemma keeps_ensures: "(\<And>d0. ensures (\<lambda>d. d = d0) m (\<lambda>r d. R d0 d)) \<Longrightarrow> keeps (on_db R) m"
  by (simp add: ensures_def keeps_def on_db_def)

text \<open>A computation that only reads keeps every assertion.\<close>

definition only_reads :: "('e, 'a) proc \<Rightarrow> bool" where
  "only_reads m \<longleftrightarrow> keeps (on_db (\<lambda>d d'. d' = d)) m"

lemma preorder_same: "preorder (\<lambda>d d'. d' = d)"
  by (simp add: preorder_def)

lemma ensures_reads: "only_reads m \<Longrightarrow> ensures P m (\<lambda>r. P)"
  by (simp add: only_reads_def ensures_def keeps_def on_db_def)

end
