(* ===== verification/StoreRelation.thy ===== *)
theory StoreRelation
  imports System Triples
begin

text \<open>
  What holds of every operation of the store holds of the whole program: the database is touched only
  through the methods of \<open>store\<close>. A relation that every one of them keeps is kept by every handler,
  by the reconciler, and by every event of the system, whatever the boxes answer, whichever calls
  fail, and however the events are ordered. Where time for money is concerned it is enough that the
  grant is kept in the one place where the program makes it, right after a payment was settled.
\<close>

section \<open>The interfaces\<close>

locale store_writes =
  fixes R :: "db \<Rightarrow> db \<Rightarrow> bool"
  assumes pre: "preorder R"
    and create_user: "R d (snd (create_user now email phone hash d))"
    and create_refresh_token: "R d (snd (create_refresh_token uid dev_opt hash expires d))"
    and rotate_refresh_token: "R d (snd (rotate_refresh_token now old_hash new_hash expires d))"
    and revoke_refresh_token: "R d (snd (revoke_refresh_token now hash d))"
    and upsert_device: "R d (snd (upsert_device now uid name platform key version d))"
    and rotate_device_key: "R d (snd (rotate_device_key dev key d))"
    and revoke_device: "R d (snd (revoke_device now dev d))"
    and touch_device: "R d (snd (touch_device dev now d))"
    and upsert_server: "R d (snd (upsert_server row d))"
    and set_server_status: "R d (snd (set_server_status code status d))"
    and ensure_assignment: "R d (snd (ensure_assignment now dev srv key d))"
    and mark_applied: "R d (snd (mark_applied now i revn d))"
    and mark_revoked: "R d (snd (mark_revoked now i revn d))"
    and mark_attempt_failed: "R d (snd (mark_attempt_failed i cause retry_at d))"
    and revoke_where: "R d (snd (revoke_where c now d))"
    and record_webhook_event: "R d (snd (record_webhook_event provider i_text typ payload d))"
    and mark_webhook_handled: "R d (snd (mark_webhook_handled now provider i_text d))"
    and upsert_payment: "R d (snd (upsert_payment payment d))"
    and settle_payment: "R d (snd (settle_payment provider i_text payload d))"

text \<open>The program grants paid time for a payment it has just settled only, to its user and for its plan.\<close>

locale program_relation = store_writes +
  assumes other_grants: "source \<noteq> ''paystack'' \<Longrightarrow> R d (snd (grant_time_block now uid code source d))"
    and settled_grant: "fst (settle_payment provider i_text payload d) = Inr (settled, True) \<Longrightarrow>
      py_user_id settled \<in> {None, Some uid} \<Longrightarrow> coalesce (py_plan_code settled) [] \<in> {[], code} \<Longrightarrow>
      R d (snd (grant_time_block now uid code ''paystack'' (snd (settle_payment provider i_text payload d))))"

text \<open>Every operation for itself, any grant included.\<close>

locale store_relation = store_writes +
  assumes grant_time_block: "R d (snd (grant_time_block now uid code source d))"

sublocale store_relation \<subseteq> program: program_relation
  by unfold_locales (rule grant_time_block, blast intro: pre [unfolded preorder_def, THEN conjunct2, rule_format] settle_payment grant_time_block)

context program_relation
begin

lemma refl_R [simp]: "R d d"
  using pre by (simp add: preorder_def)

lemmas pres = pre preorder_on_db [OF pre] preorder_on_api [OF preorder_on_db [OF pre]] preorder_on_sy [OF pre]

lemma engine_calls:
  "keeps (on_db R) (store_entitlement uid)" "keeps (on_db R) (store_device_by_id i)"
  "keeps (on_db R) (store_devices_by_user uid)" "keeps (on_db R) (store_servers b)"
  "keeps (on_db R) (store_server_by_code code)" "keeps (on_db R) (store_server_by_id i)"
  "keeps (on_db R) (store_ensure_assignment dev srv key)"
  "keeps (on_db R) (store_mark_applied i revn)" "keeps (on_db R) (store_mark_revoked i revn)"
  "keeps (on_db R) (store_mark_attempt_failed i cause retry_at)"
  "keeps (on_db R) (store_begin_revoke_for_user uid)" "keeps (on_db R) (store_begin_revoke_for_device dev)"
  "keeps (on_db R) (store_begin_revoke_other_servers dev srv)"
  "keeps (on_db R) (store_due_assignments n)" "keeps (on_db R) (store_live_peers_for_server i)"
  "keeps (on_db R) (store_expired_user_ids n)"
  unfolding store_defs begin_revoke_for_user_def begin_revoke_for_device_def begin_revoke_other_servers_def
  by (rule keeps_db_call [OF pre], simp add: ensure_assignment mark_applied mark_revoked mark_attempt_failed revoke_where)+

lemma account_calls:
  "keeps (on_db R) (store_create_user email phone hash)" "keeps (on_db R) (store_user_by_identifier ident)"
  "keeps (on_db R) (store_user_by_id uid)"
  "keeps (on_db R) (store_create_refresh_token uid dev_opt hash expires)"
  "keeps (on_db R) (store_rotate_refresh_token old_hash new_hash expires)"
  "keeps (on_db R) (store_revoke_refresh_token hash)"
  unfolding session_store_defs pay_store_defs
  by (rule keeps_db_call [OF pre], simp add: create_user user_by_identifier_def user_by_id_def create_refresh_token
      rotate_refresh_token revoke_refresh_token)+

lemma payment_calls:
  "keeps (on_db R) (store_payment_by_ref provider ref)" "keeps (on_db R) (store_settle_payment provider ref payload)"
  "source \<noteq> ''paystack'' \<Longrightarrow> keeps (on_db R) (store_grant_time_block uid code source)"
  "keeps (on_db R) (store_record_webhook_event provider ref typ payload)"
  "keeps (on_db R) (store_mark_webhook_handled provider ref)"
  "keeps (on_db R) (store_upsert_payment payment)" "keeps (on_db R) (store_plan code)"
  unfolding pay_store_defs
  by (rule keeps_db_call [OF pre], simp add: payment_by_ref_def plan_by_code_def settle_payment other_grants
      record_webhook_event mark_webhook_handled upsert_payment)+

lemma api_calls:
  "keeps (on_db R) (store_upsert_device uid name platform key version)"
  "keeps (on_db R) (store_rotate_device_key dev key)" "keeps (on_db R) (store_revoke_device dev)"
  "keeps (on_db R) (store_touch_device dev)" "keeps (on_db R) (store_assignments_for_device dev)"
  "keeps (on_db R) store_plans" "keeps (on_db R) store_ping"
  "keeps (on_db R) (store_upsert_server row)" "keeps (on_db R) (store_set_server_status code status)"
  unfolding api_store_defs
  by (rule keeps_db_call [OF pre], simp add: upsert_device rotate_device_key revoke_device touch_device
      assignments_for_device_def list_plans_def upsert_server set_server_status)+

lemmas calls = engine_calls account_calls payment_calls api_calls

section \<open>The engine and the reconciler\<close>

lemmas rules = keeps_intros pres calls

lemma engine:
  "keeps (on_db R) (provision cl req)" "keeps (on_db R) (deprovision_device dev)"
  "keeps (on_db R) (resync cl srv)"
proof -
  have failure: "keeps (on_db R) (record_failure a e)" for a e
    unfolding record_failure_def by (intro rules)
  have one: "keeps (on_db R) (provision_on cl dev srv ent)" for dev srv ent
    unfolding provision_on_def by (intro rules failure)
  have try_all: "keeps (on_db R) (try_candidates cl dev ent i last_err cands)" for dev ent i last_err cands
    by (induction cands arbitrary: i last_err) (auto intro!: rules one)
  have gate: "keeps (on_db R) (check_device_limit uid dev n)" for uid dev n
    unfolding check_device_limit_def by (intro rules)
  have cands: "keeps (on_db R) (candidates rq)" for rq
    unfolding candidates_def by (auto intro!: rules)
  show "keeps (on_db R) (provision cl req)"
    unfolding provision_def by (intro rules try_all gate cands)
  show "keeps (on_db R) (deprovision_device dev)" unfolding deprovision_device_def by (intro rules)
  show "keeps (on_db R) (resync cl srv)" unfolding resync_def by (intro rules)
qed

lemma reconciling:
  "keeps (on_db R) (once cl rc)" "keeps (on_db R) (health_sweep cl rc)"
proof -
  have one: "keeps (on_db R) (apply_one cl a srv)" for a srv
    unfolding apply_one_def push_row_def confirm_row_def record_failure_def by (intro rules)
  have due: "keeps (on_db R) (apply_due cl rc)" unfolding apply_due_def by (auto intro!: rules one)
  have expired: "keeps (on_db R) (sweep_expired rc)" unfolding sweep_expired_def by (intro rules)
  show "keeps (on_db R) (once cl rc)" unfolding once_def by (intro rules due expired)
  have check: "keeps (on_db R) (health_check cl srv boots)" for srv boots
    unfolding health_check_def Let_def by (intro rules engine)
  have checks: "keeps (on_db R) (health_checks cl ss boots)" for ss boots
    by (induction ss arbitrary: boots) (auto intro!: rules check)
  show "keeps (on_db R) (health_sweep cl rc)" unfolding health_sweep_def by (intro rules checks)
qed

section \<open>The handlers\<close>

lemma settling:
  "keeps (on_db R) (settle_charge marshal ev)" "keeps (on_db R) (process_webhook marshal ev raw)"
proof -
  have trans: "R a b \<Longrightarrow> R b c \<Longrightarrow> R a c" for a b c using pre unfolding preorder_def by blast
  have grant: "ensures (\<lambda>d. R d0 d \<and> fst (settle_payment p ref body d0) = Inr (settled, True) \<and>
      d = snd (settle_payment p ref body d0)) (grant_settled ev settled) (\<lambda>r d. R d0 d)" for d0 p ref body settled
    unfolding grant_settled_def Let_def store_grant_time_block_def
    by (intro ensures_if ensures_bind [OF ensures_db_call [where Q = "\<lambda>r d. R d0 d"]] ensures_case_sum ensures_ret)
      (auto intro!: settled_grant split: option.splits if_splits)
  have settled: "ensures (\<lambda>d. d = d0) (store_settle_payment p ref body) (\<lambda>r d. R d0 d \<and>
      (\<forall>settled. r = Inr (settled, True) \<longrightarrow> fst (settle_payment p ref body d0) = Inr (settled, True) \<and>
        d = snd (settle_payment p ref body d0)))" for d0 p ref body
    unfolding store_settle_payment_def by (rule ensures_db_call) (auto simp: settle_payment)
  show settle: "keeps (on_db R) (settle_charge marshal ev)"
  proof (rule keeps_ensures)
    fix d0
    have read: "ensures (\<lambda>d. d = d0) (store_payment_by_ref p ref) (\<lambda>r d. d = d0)" for p ref
      unfolding store_payment_by_ref_def by (rule ensures_db_call) (simp add: payment_by_ref_def)
    have rest: "ensures (\<lambda>d. R d0 d \<and> (\<forall>settled. rs = Inr (settled, True) \<longrightarrow>
        fst (settle_payment p ref body d0) = Inr (settled, True) \<and> d = snd (settle_payment p ref body d0)))
      (case rs of Inl e \<Rightarrow> ret (Inl e) | Inr (settled, first_time) \<Rightarrow>
        (if \<not> first_time then ret (Inr False) else grant_settled ev settled)) (\<lambda>r d. R d0 d)" for rs p ref body
    proof (cases rs)
      case (Inr x)
      obtain settled first_time where x: "x = (settled, first_time)" by (rule prod.exhaust)
      show ?thesis unfolding Inr x sum.case prod.case
        by (rule ensures_if) ((rule ensures_ret, simp), rule ensures_pre [OF grant [of d0 p ref body]], simp)
    qed (auto intro: ensures_ret)
    show "ensures (\<lambda>d. d = d0) (settle_charge marshal ev) (\<lambda>r d. R d0 d)"
      unfolding settle_charge_def
      by (intro ensures_if ensures_ret ensures_bind [OF read] ensures_case_sum ensures_bind [OF settled] rest) simp_all
  qed
  show "keeps (on_db R) (process_webhook marshal ev raw)"
    unfolding process_webhook_def by (intro rules settle)
qed

lemma sessions:
  "keeps (on_api (on_db R)) (handle_signup env random ident pw)" "keeps (on_api (on_db R)) (handle_login env random ident pw)"
  "keeps (on_api (on_db R)) (handle_refresh env random token)" "keeps (on_api (on_db R)) (handle_logout env token)"
  "keeps (on_api (on_db R)) (handle_me uid)"
proof -
  have tokens: "keeps (on_db R) (issue_tokens env random uid dev)" for uid dev
    unfolding issue_tokens_def by (auto intro!: rules split: prod.splits)
  show "keeps (on_api (on_db R)) (handle_signup env random ident pw)"
    unfolding handle_signup_def by (auto intro!: rules tokens split: prod.splits)
  show "keeps (on_api (on_db R)) (handle_login env random ident pw)"
    unfolding handle_login_def by (auto intro!: rules tokens)
  show "keeps (on_api (on_db R)) (handle_refresh env random token)"
    unfolding handle_refresh_def by (auto intro!: rules split: prod.splits)
  show "keeps (on_api (on_db R)) (handle_logout env token)"
    unfolding handle_logout_def by (intro rules)
  show "keeps (on_api (on_db R)) (handle_me uid)"
    unfolding handle_me_def by (intro rules)
qed

lemma device_handlers:
  "keeps (on_db R) (handle_register_device uid name platform key version)" "keeps (on_db R) (handle_list_devices uid)"
  "keeps (on_db R) (handle_delete_device parse_id uid ref)" "keeps (on_db R) (handle_rotate_key parse_id uid ref key)"
  "keeps (on_db R) (handle_release parse_id uid ref)" "keeps (on_db R) (handle_tunnel_status parse_id uid ref)"
  "keeps (on_db R) (handle_provision cl parse_id uid ref code country)"
proof -
  have bad: "keeps (on_db R) (db_call (\<lambda>now d. (Inl bad_uuid, d)))"
    by (rule keeps_db_call [OF pre]) simp
  have by_ref: "keeps (on_db R) (store_device_by_ref parse_id ref)"
    unfolding store_device_by_ref_def by (intro rules bad)
  have own: "(\<And>dev. keeps (on_db R) (act dev)) \<Longrightarrow> keeps (on_db R) (own_device parse_id uid ref act)" for act
    unfolding own_device_def by (intro rules by_ref)
  have coll: "(\<And>x. keeps (on_db R) (f x)) \<Longrightarrow> keeps (on_db R) (collect xs f)" for f xs
    by (induction xs) (auto intro!: rules)
  show "keeps (on_db R) (handle_register_device uid name platform key version)"
    unfolding handle_register_device_def by (intro rules)
  show "keeps (on_db R) (handle_list_devices uid)" unfolding handle_list_devices_def by (intro rules)
  show "keeps (on_db R) (handle_delete_device parse_id uid ref)"
    unfolding handle_delete_device_def by (intro rules own engine)
  show "keeps (on_db R) (handle_rotate_key parse_id uid ref key)"
    unfolding handle_rotate_key_def by (intro rules own)
  show "keeps (on_db R) (handle_release parse_id uid ref)"
    unfolding handle_release_def by (intro rules own engine)
  show "keeps (on_db R) (handle_tunnel_status parse_id uid ref)"
    unfolding handle_tunnel_status_def by (intro rules own coll)
  show "keeps (on_db R) (handle_provision cl parse_id uid ref code country)"
    unfolding handle_provision_def provision_ref_def touch_ref_def by (intro rules engine by_ref)
qed

lemma other_handlers:
  "keeps (on_db R) handle_list_servers" "keeps (on_db R) handle_list_plans"
  "keeps (on_db R) handle_health_check" "keeps (on_db R) handle_ready"
  "keeps (on_db R) (handle_initialize_payment uid_text fresh init uid code callback)"
  "keeps (on_db R) (handle_verify_payment check marshal uid ref)"
  "keeps (on_db R) (handle_upsert_server parse_cidr r)" "keeps (on_db R) (handle_server_status code status)"
  "keeps (on_db R) (handle_resync cl code)" "keeps (on_db R) (handle_reconcile_now cl rc)"
  "keeps (on_db R) (handle_grant ident plan_code)"
proof -
  have upsert: "keeps (on_db R) (store_upsert_request parse_cidr key r)" for key
    unfolding store_upsert_request_def by (intro rules keeps_db_call [OF pre]) simp
  show "keeps (on_db R) handle_list_servers" unfolding handle_list_servers_def by (intro rules)
  show "keeps (on_db R) handle_list_plans" unfolding handle_list_plans_def by (intro rules)
  show "keeps (on_db R) handle_health_check" unfolding handle_health_check_def by (intro rules)
  show "keeps (on_db R) handle_ready" unfolding handle_ready_def by (intro rules)
  show "keeps (on_db R) (handle_initialize_payment uid_text fresh init uid code callback)"
    unfolding handle_initialize_payment_def Let_def by (intro rules)
  show "keeps (on_db R) (handle_verify_payment check marshal uid ref)"
    unfolding handle_verify_payment_def by (intro rules settling)
  show "keeps (on_db R) (handle_upsert_server parse_cidr r)"
    unfolding handle_upsert_server_def by (intro rules upsert)
  show "keeps (on_db R) (handle_server_status code status)" unfolding handle_server_status_def by (intro rules)
  show "keeps (on_db R) (handle_resync cl code)" unfolding handle_resync_def by (intro rules engine)
  show "keeps (on_db R) (handle_reconcile_now cl rc)" unfolding handle_reconcile_now_def by (intro rules reconciling)
  show "keeps (on_db R) (handle_grant ident plan_code)" unfolding handle_grant_def by (intro rules) simp
qed

lemmas handlers = sessions device_handlers other_handlers

section \<open>The system\<close>

lemma keeps_answer: "preorder Q \<Longrightarrow> keeps Q m \<Longrightarrow> keeps Q (answer f m)"
  unfolding answer_def by (intro keeps_intros)

lemma keeps_decode: "preorder Q \<Longrightarrow> (\<And>x. keeps Q (act x)) \<Longrightarrow> keeps Q (decode_json dec raw act)"
  unfolding decode_json_def by (intro keeps_intros)

lemma keeps_in_world: "keeps (on_db R) m \<Longrightarrow> keeps (on_sy R) (in_world m)"
  by (intro keeps_on_api_state keeps_on_world)

lemma keeps_no_endpoint: "keeps (on_sy R) no_endpoint"
  unfolding no_endpoint_def by (intro rules)

lemmas surface = keeps_answer keeps_decode keeps_on_world keeps_on_api_state keeps_no_endpoint

lemma endpoints:
  "keeps (on_sy R) (public_endpoint env random rq ep)" "keeps (on_sy R) (user_endpoint env random rq arg uid ep)"
  "keeps (on_sy R) (operator_endpoint env rq arg ep)"
proof -
  have hook: "keeps (on_sy R) (webhook_endpoint env rq)"
    by (auto simp: webhook_endpoint_def Let_def keeps_def on_sy_def sy_db_def split: sum.splits)
  show "keeps (on_sy R) (public_endpoint env random rq ep)"
    by (cases ep) (auto intro!: surface handlers pres hook)
  show "keeps (on_sy R) (user_endpoint env random rq arg uid ep)"
    by (cases ep) (auto intro!: surface handlers pres)
  have now: "keeps (on_sy R) (operator_endpoint env rq arg ReconcileNow)"
  proof (rule keepsI)
    fix s a t
    assume "run_state (operator_endpoint env rq arg ReconcileNow) s = (a, t)"
    then have run: "run_state (in_world (answer (\<lambda>_. NoBody) (handle_reconcile_now (sv_edge env) (sy_reconciler s)))) s = (a, t)"
      by simp
    have "keeps (on_sy R) (in_world (answer (\<lambda>_. NoBody) (handle_reconcile_now (sv_edge env) (sy_reconciler s))))"
      by (intro surface handlers pres)
    from keepsD [OF this run] show "on_sy R s t" .
  qed
  show "keeps (on_sy R) (operator_endpoint env rq arg ep)"
  proof (cases "ep = ReconcileNow")
    case False
    then show ?thesis by (cases ep) (auto intro!: surface handlers pres)
  qed (use now in simp)
qed

lemma serving: "keeps (on_sy R) (serve_http env random rq)"
proof -
  have user: "keeps (on_sy R) (as_user env rq act)" if "\<And>uid. keeps (on_sy R) (act uid)" for act
    unfolding as_user_def by (intro rules surface that)
  have operator: "keeps (on_sy R) (as_operator env rq act)" if "keeps (on_sy R) act" for act
    unfolding as_operator_def by (intro rules that)
  show ?thesis
    unfolding serve_http_def by (auto intro!: user operator endpoints keeps_ret pres split: sum.splits access.splits)
qed

theorem happening: "keeps (on_sy R) (happen env ev)"
proof (cases ev)
  case (Request rq random)
  then show ?thesis by (auto intro!: rules serving)
next
  case (Background i)
  have "on_sy R s (snd (run_state (background_job env i) s))" for s
  proof (cases "i < length (sy_jobs s)")
    case True
    obtain pev raw where job: "sy_jobs s ! i = (pev, raw)" by (rule prod.exhaust)
    have "keeps (on_db R) (process_webhook (sv_marshal env) pev raw)" by (rule settling)
    with True job show ?thesis
      by (auto simp: background_job_def on_sy_def sy_db_def keeps_def on_db_def split: prod.splits)
  qed (simp add: background_job_def on_sy_def)
  with Background show ?thesis by (simp add: keeps_def)
next
  case Pass
  have "on_sy R s (snd (run_state (reconciler_pass env) s))" for s
    using reconciling(1) [of "sv_edge env" "sy_reconciler s"]
    by (auto simp: reconciler_pass_def on_sy_def sy_db_def keeps_def on_db_def split: prod.splits)
  with Pass show ?thesis by (simp add: keeps_def)
next
  case Sweep
  have "on_sy R s (snd (run_state (sweep_pass env) s))" for s
    using reconciling(2) [of "sv_edge env" "sy_reconciler s"]
    by (auto simp: sweep_pass_def on_sy_def sy_db_def keeps_def on_db_def split: prod.splits)
  with Sweep show ?thesis by (simp add: keeps_def)
next
  case (Environment now faults draws boxes)
  then show ?thesis by (simp add: environment_def keeps_def on_sy_def sy_db_def)
next
  case Restart
  then show ?thesis by (simp add: restart_def start_system_def new_server_def keeps_def on_sy_def sy_db_def)
qed

end

text \<open>Relations that are kept can be combined and weakened.\<close>

lemma preorder_conj: "preorder R \<Longrightarrow> preorder S \<Longrightarrow> preorder (\<lambda>d d'. R d d' \<and> S d d')"
  unfolding preorder_def by blast

lemmas store_relation_unfold = store_relation_def store_relation_axioms_def store_writes_def

lemma store_relation_conj:
  "store_relation R \<Longrightarrow> store_relation S \<Longrightarrow> store_relation (\<lambda>d d'. R d d' \<and> S d d')"
  unfolding store_relation_unfold by (simp add: preorder_conj)

lemma store_relation_weaken:
  "store_relation R \<Longrightarrow> preorder Q \<Longrightarrow> (\<And>d d'. R d d' \<Longrightarrow> Q d d') \<Longrightarrow> store_relation Q"
  unfolding store_relation_unfold by simp

end
