(* ===== verification/Frames.thy ===== *)
theory Frames
  imports Billing
begin

text \<open>
  Which tables an operation of the store leaves alone. Every operation writes one table and at most
  draws one new identifier.
\<close>

named_theorems frames

lemma frame_create_user [frames]:
  "devices (snd (create_user now email phone hash d)) = devices d"
  "plans (snd (create_user now email phone hash d)) = plans d"
  "subscriptions (snd (create_user now email phone hash d)) = subscriptions d"
  "payments (snd (create_user now email phone hash d)) = payments d"
  "webhook_events (snd (create_user now email phone hash d)) = webhook_events d"
  "refresh_tokens (snd (create_user now email phone hash d)) = refresh_tokens d"
  "servers (snd (create_user now email phone hash d)) = servers d"
  "peers (snd (create_user now email phone hash d)) = peers d"
  "next_id d \<le> next_id (snd (create_user now email phone hash d))"
  by (simp_all add: create_user_def Let_def split: option.split sum.split prod.split)

lemma frame_create_refresh_token [frames]:
  "users (snd (create_refresh_token uid dev_opt hash expires d)) = users d"
  "devices (snd (create_refresh_token uid dev_opt hash expires d)) = devices d"
  "plans (snd (create_refresh_token uid dev_opt hash expires d)) = plans d"
  "subscriptions (snd (create_refresh_token uid dev_opt hash expires d)) = subscriptions d"
  "payments (snd (create_refresh_token uid dev_opt hash expires d)) = payments d"
  "webhook_events (snd (create_refresh_token uid dev_opt hash expires d)) = webhook_events d"
  "servers (snd (create_refresh_token uid dev_opt hash expires d)) = servers d"
  "peers (snd (create_refresh_token uid dev_opt hash expires d)) = peers d"
  "next_id d \<le> next_id (snd (create_refresh_token uid dev_opt hash expires d))"
  by (simp_all add: create_refresh_token_def insert_token_def Let_def split: option.split sum.split prod.split)

lemma frame_rotate_refresh_token [frames]:
  "users (snd (rotate_refresh_token now old_hash new_hash expires d)) = users d"
  "devices (snd (rotate_refresh_token now old_hash new_hash expires d)) = devices d"
  "plans (snd (rotate_refresh_token now old_hash new_hash expires d)) = plans d"
  "subscriptions (snd (rotate_refresh_token now old_hash new_hash expires d)) = subscriptions d"
  "payments (snd (rotate_refresh_token now old_hash new_hash expires d)) = payments d"
  "webhook_events (snd (rotate_refresh_token now old_hash new_hash expires d)) = webhook_events d"
  "servers (snd (rotate_refresh_token now old_hash new_hash expires d)) = servers d"
  "peers (snd (rotate_refresh_token now old_hash new_hash expires d)) = peers d"
  "next_id d \<le> next_id (snd (rotate_refresh_token now old_hash new_hash expires d))"
  by (simp_all add: rotate_refresh_token_def insert_token_def Let_def split: option.split sum.split prod.split)

lemma frame_revoke_refresh_token [frames]:
  "users (snd (revoke_refresh_token now hash d)) = users d"
  "devices (snd (revoke_refresh_token now hash d)) = devices d"
  "plans (snd (revoke_refresh_token now hash d)) = plans d"
  "subscriptions (snd (revoke_refresh_token now hash d)) = subscriptions d"
  "payments (snd (revoke_refresh_token now hash d)) = payments d"
  "webhook_events (snd (revoke_refresh_token now hash d)) = webhook_events d"
  "servers (snd (revoke_refresh_token now hash d)) = servers d"
  "peers (snd (revoke_refresh_token now hash d)) = peers d"
  "next_id d \<le> next_id (snd (revoke_refresh_token now hash d))"
  by (simp_all add: revoke_refresh_token_def Let_def split: option.split sum.split prod.split)

lemma frame_upsert_device [frames]:
  "users (snd (upsert_device now uid name platform key version d)) = users d"
  "plans (snd (upsert_device now uid name platform key version d)) = plans d"
  "subscriptions (snd (upsert_device now uid name platform key version d)) = subscriptions d"
  "payments (snd (upsert_device now uid name platform key version d)) = payments d"
  "webhook_events (snd (upsert_device now uid name platform key version d)) = webhook_events d"
  "refresh_tokens (snd (upsert_device now uid name platform key version d)) = refresh_tokens d"
  "servers (snd (upsert_device now uid name platform key version d)) = servers d"
  "peers (snd (upsert_device now uid name platform key version d)) = peers d"
  "next_id d \<le> next_id (snd (upsert_device now uid name platform key version d))"
  by (simp_all add: upsert_device_def Let_def split: option.split sum.split prod.split)

lemma frame_rotate_device_key [frames]:
  "users (snd (rotate_device_key dev key d)) = users d"
  "plans (snd (rotate_device_key dev key d)) = plans d"
  "subscriptions (snd (rotate_device_key dev key d)) = subscriptions d"
  "payments (snd (rotate_device_key dev key d)) = payments d"
  "webhook_events (snd (rotate_device_key dev key d)) = webhook_events d"
  "refresh_tokens (snd (rotate_device_key dev key d)) = refresh_tokens d"
  "servers (snd (rotate_device_key dev key d)) = servers d"
  "peers (snd (rotate_device_key dev key d)) = peers d"
  "next_id d \<le> next_id (snd (rotate_device_key dev key d))"
  by (simp_all add: rotate_device_key_def Let_def split: option.split sum.split prod.split)

lemma frame_revoke_device [frames]:
  "users (snd (revoke_device now dev d)) = users d"
  "plans (snd (revoke_device now dev d)) = plans d"
  "subscriptions (snd (revoke_device now dev d)) = subscriptions d"
  "payments (snd (revoke_device now dev d)) = payments d"
  "webhook_events (snd (revoke_device now dev d)) = webhook_events d"
  "refresh_tokens (snd (revoke_device now dev d)) = refresh_tokens d"
  "servers (snd (revoke_device now dev d)) = servers d"
  "peers (snd (revoke_device now dev d)) = peers d"
  "next_id d \<le> next_id (snd (revoke_device now dev d))"
  by (simp_all add: revoke_device_def Let_def split: option.split sum.split prod.split)

lemma frame_touch_device [frames]:
  "users (snd (touch_device dev now d)) = users d"
  "plans (snd (touch_device dev now d)) = plans d"
  "subscriptions (snd (touch_device dev now d)) = subscriptions d"
  "payments (snd (touch_device dev now d)) = payments d"
  "webhook_events (snd (touch_device dev now d)) = webhook_events d"
  "refresh_tokens (snd (touch_device dev now d)) = refresh_tokens d"
  "servers (snd (touch_device dev now d)) = servers d"
  "peers (snd (touch_device dev now d)) = peers d"
  "next_id d \<le> next_id (snd (touch_device dev now d))"
  by (simp_all add: touch_device_def Let_def split: option.split sum.split prod.split)

lemma frame_upsert_server [frames]:
  "users (snd (upsert_server row d)) = users d"
  "devices (snd (upsert_server row d)) = devices d"
  "plans (snd (upsert_server row d)) = plans d"
  "subscriptions (snd (upsert_server row d)) = subscriptions d"
  "payments (snd (upsert_server row d)) = payments d"
  "webhook_events (snd (upsert_server row d)) = webhook_events d"
  "refresh_tokens (snd (upsert_server row d)) = refresh_tokens d"
  "peers (snd (upsert_server row d)) = peers d"
  "next_id d \<le> next_id (snd (upsert_server row d))"
  by (simp_all add: upsert_server_def server_by_id_def Let_def split: option.split sum.split prod.split)

lemma frame_set_server_status [frames]:
  "users (snd (set_server_status code status d)) = users d"
  "devices (snd (set_server_status code status d)) = devices d"
  "plans (snd (set_server_status code status d)) = plans d"
  "subscriptions (snd (set_server_status code status d)) = subscriptions d"
  "payments (snd (set_server_status code status d)) = payments d"
  "webhook_events (snd (set_server_status code status d)) = webhook_events d"
  "refresh_tokens (snd (set_server_status code status d)) = refresh_tokens d"
  "peers (snd (set_server_status code status d)) = peers d"
  "next_id d \<le> next_id (snd (set_server_status code status d))"
  by (simp_all add: set_server_status_def Let_def split: option.split sum.split prod.split)

lemma frame_ensure_assignment [frames]:
  "users (snd (ensure_assignment now dev srv key d)) = users d"
  "devices (snd (ensure_assignment now dev srv key d)) = devices d"
  "plans (snd (ensure_assignment now dev srv key d)) = plans d"
  "subscriptions (snd (ensure_assignment now dev srv key d)) = subscriptions d"
  "payments (snd (ensure_assignment now dev srv key d)) = payments d"
  "webhook_events (snd (ensure_assignment now dev srv key d)) = webhook_events d"
  "refresh_tokens (snd (ensure_assignment now dev srv key d)) = refresh_tokens d"
  "servers (snd (ensure_assignment now dev srv key d)) = servers d"
  "next_id d \<le> next_id (snd (ensure_assignment now dev srv key d))"
  by (simp_all add: ensure_assignment_def ensure_assignment_tx_def insert_peer_def Let_def split: option.split sum.split prod.split)

lemma frame_mark_applied [frames]:
  "users (snd (mark_applied now i revn d)) = users d"
  "devices (snd (mark_applied now i revn d)) = devices d"
  "plans (snd (mark_applied now i revn d)) = plans d"
  "subscriptions (snd (mark_applied now i revn d)) = subscriptions d"
  "payments (snd (mark_applied now i revn d)) = payments d"
  "webhook_events (snd (mark_applied now i revn d)) = webhook_events d"
  "refresh_tokens (snd (mark_applied now i revn d)) = refresh_tokens d"
  "servers (snd (mark_applied now i revn d)) = servers d"
  "next_id d \<le> next_id (snd (mark_applied now i revn d))"
  by (simp_all add: mark_applied_def Let_def split: option.split sum.split prod.split)

lemma frame_mark_revoked [frames]:
  "users (snd (mark_revoked now i revn d)) = users d"
  "devices (snd (mark_revoked now i revn d)) = devices d"
  "plans (snd (mark_revoked now i revn d)) = plans d"
  "subscriptions (snd (mark_revoked now i revn d)) = subscriptions d"
  "payments (snd (mark_revoked now i revn d)) = payments d"
  "webhook_events (snd (mark_revoked now i revn d)) = webhook_events d"
  "refresh_tokens (snd (mark_revoked now i revn d)) = refresh_tokens d"
  "servers (snd (mark_revoked now i revn d)) = servers d"
  "next_id d \<le> next_id (snd (mark_revoked now i revn d))"
  by (simp_all add: mark_revoked_def Let_def split: option.split sum.split prod.split)

lemma frame_mark_attempt_failed [frames]:
  "users (snd (mark_attempt_failed i cause retry_at d)) = users d"
  "devices (snd (mark_attempt_failed i cause retry_at d)) = devices d"
  "plans (snd (mark_attempt_failed i cause retry_at d)) = plans d"
  "subscriptions (snd (mark_attempt_failed i cause retry_at d)) = subscriptions d"
  "payments (snd (mark_attempt_failed i cause retry_at d)) = payments d"
  "webhook_events (snd (mark_attempt_failed i cause retry_at d)) = webhook_events d"
  "refresh_tokens (snd (mark_attempt_failed i cause retry_at d)) = refresh_tokens d"
  "servers (snd (mark_attempt_failed i cause retry_at d)) = servers d"
  "next_id d \<le> next_id (snd (mark_attempt_failed i cause retry_at d))"
  by (simp_all add: mark_attempt_failed_def Let_def split: option.split sum.split prod.split)

lemma frame_revoke_where [frames]:
  "users (snd (revoke_where c now d)) = users d"
  "devices (snd (revoke_where c now d)) = devices d"
  "plans (snd (revoke_where c now d)) = plans d"
  "subscriptions (snd (revoke_where c now d)) = subscriptions d"
  "payments (snd (revoke_where c now d)) = payments d"
  "webhook_events (snd (revoke_where c now d)) = webhook_events d"
  "refresh_tokens (snd (revoke_where c now d)) = refresh_tokens d"
  "servers (snd (revoke_where c now d)) = servers d"
  "next_id d \<le> next_id (snd (revoke_where c now d))"
  by (simp_all add: revoke_where_def Let_def split: option.split sum.split prod.split)

lemma frame_grant_time_block [frames]:
  "users (snd (grant_time_block now uid code source d)) = users d"
  "devices (snd (grant_time_block now uid code source d)) = devices d"
  "plans (snd (grant_time_block now uid code source d)) = plans d"
  "payments (snd (grant_time_block now uid code source d)) = payments d"
  "webhook_events (snd (grant_time_block now uid code source d)) = webhook_events d"
  "refresh_tokens (snd (grant_time_block now uid code source d)) = refresh_tokens d"
  "servers (snd (grant_time_block now uid code source d)) = servers d"
  "peers (snd (grant_time_block now uid code source d)) = peers d"
  "next_id d \<le> next_id (snd (grant_time_block now uid code source d))"
  by (simp_all add: grant_time_block_def Let_def split: option.split sum.split prod.split)

lemma frame_record_webhook_event [frames]:
  "users (snd (record_webhook_event provider i_text typ payload d)) = users d"
  "devices (snd (record_webhook_event provider i_text typ payload d)) = devices d"
  "plans (snd (record_webhook_event provider i_text typ payload d)) = plans d"
  "subscriptions (snd (record_webhook_event provider i_text typ payload d)) = subscriptions d"
  "payments (snd (record_webhook_event provider i_text typ payload d)) = payments d"
  "refresh_tokens (snd (record_webhook_event provider i_text typ payload d)) = refresh_tokens d"
  "servers (snd (record_webhook_event provider i_text typ payload d)) = servers d"
  "peers (snd (record_webhook_event provider i_text typ payload d)) = peers d"
  "next_id d \<le> next_id (snd (record_webhook_event provider i_text typ payload d))"
  by (simp_all add: record_webhook_event_def Let_def split: option.split sum.split prod.split)

lemma frame_mark_webhook_handled [frames]:
  "users (snd (mark_webhook_handled now provider i_text d)) = users d"
  "devices (snd (mark_webhook_handled now provider i_text d)) = devices d"
  "plans (snd (mark_webhook_handled now provider i_text d)) = plans d"
  "subscriptions (snd (mark_webhook_handled now provider i_text d)) = subscriptions d"
  "payments (snd (mark_webhook_handled now provider i_text d)) = payments d"
  "refresh_tokens (snd (mark_webhook_handled now provider i_text d)) = refresh_tokens d"
  "servers (snd (mark_webhook_handled now provider i_text d)) = servers d"
  "peers (snd (mark_webhook_handled now provider i_text d)) = peers d"
  "next_id d \<le> next_id (snd (mark_webhook_handled now provider i_text d))"
  by (simp_all add: mark_webhook_handled_def Let_def split: option.split sum.split prod.split)

lemma frame_upsert_payment [frames]:
  "users (snd (upsert_payment payment d)) = users d"
  "devices (snd (upsert_payment payment d)) = devices d"
  "plans (snd (upsert_payment payment d)) = plans d"
  "subscriptions (snd (upsert_payment payment d)) = subscriptions d"
  "webhook_events (snd (upsert_payment payment d)) = webhook_events d"
  "refresh_tokens (snd (upsert_payment payment d)) = refresh_tokens d"
  "servers (snd (upsert_payment payment d)) = servers d"
  "peers (snd (upsert_payment payment d)) = peers d"
  "next_id d \<le> next_id (snd (upsert_payment payment d))"
  by (simp_all add: upsert_payment_def Let_def split: option.split sum.split prod.split)

lemma frame_settle_payment [frames]:
  "users (snd (settle_payment provider i_text payload d)) = users d"
  "devices (snd (settle_payment provider i_text payload d)) = devices d"
  "plans (snd (settle_payment provider i_text payload d)) = plans d"
  "subscriptions (snd (settle_payment provider i_text payload d)) = subscriptions d"
  "webhook_events (snd (settle_payment provider i_text payload d)) = webhook_events d"
  "refresh_tokens (snd (settle_payment provider i_text payload d)) = refresh_tokens d"
  "servers (snd (settle_payment provider i_text payload d)) = servers d"
  "peers (snd (settle_payment provider i_text payload d)) = peers d"
  "next_id d \<le> next_id (snd (settle_payment provider i_text payload d))"
  by (simp_all add: settle_payment_def payment_by_ref_def Let_def split: option.split sum.split prod.split)

end
