(* ===== verification/Consistency.thy ===== *)
theory Consistency
  imports StoreRelation Frames BillingLaws
begin

text \<open>
  The invariants of the whole database, and that no history of the system breaks them: accounts and
  sessions, the fleet and its assignments, billing.
\<close>

section \<open>What consistent means\<close>

text \<open>A primary key: unique, and below the next identifier.\<close>

definition fresh_ids :: "('r \<Rightarrow> uuid) \<Rightarrow> 'r list \<Rightarrow> uuid \<Rightarrow> bool" where
  "fresh_ids k rs n \<longleftrightarrow> distinct (map k rs) \<and> list_all (\<lambda>r. k r < n) rs"

definition refers :: "('r \<Rightarrow> uuid) \<Rightarrow> 'r list \<Rightarrow> uuid list \<Rightarrow> bool" where
  "refers k rs ids \<longleftrightarrow> list_all (\<lambda>r. k r \<in> set ids) rs"

definition same_identifier :: "user_row \<Rightarrow> user_row \<Rightarrow> bool" where
  "same_identifier u v \<longleftrightarrow> email_eq (u_email u) (u_email v) \<or> text_eq (u_phone u) (u_phone v)"

text \<open>No two accounts share an email or a phone, no two devices a key, no two sessions a token.\<close>

definition accounts_ok :: "db \<Rightarrow> bool" where
  "accounts_ok d \<longleftrightarrow>
     fresh_ids u_id (users d) (next_id d) \<and> pairwise (\<lambda>u v. \<not> same_identifier u v) (set (users d)) \<and>
     fresh_ids d_id (devices d) (next_id d) \<and> distinct (map d_public_key (devices d)) \<and>
     refers d_user_id (devices d) (map u_id (users d)) \<and>
     distinct (map t_hash (refresh_tokens d)) \<and> refers t_user_id (refresh_tokens d) (map u_id (users d))"

text \<open>Assignments belong to devices and servers that exist.\<close>

definition fleet_ok :: "db \<Rightarrow> bool" where
  "fleet_ok d \<longleftrightarrow>
     fresh_ids s_id (servers d) (next_id d) \<and> distinct (map s_code (servers d)) \<and>
     refers p_device_id (peers d) (map d_id (devices d)) \<and> refers p_server_id (peers d) (map s_id (servers d))"

text \<open>A payment and an event are recorded once, and no time is sold twice to the same user.\<close>

definition apart :: "subscription \<Rightarrow> subscription \<Rightarrow> bool" where
  "apart s t \<longleftrightarrow> sb_user_id s \<noteq> sb_user_id t \<or> sb_revoked_at s \<noteq> None \<or> sb_revoked_at t \<noteq> None \<or>
     sb_expires_at s \<le> sb_starts_at t \<or> sb_expires_at t \<le> sb_starts_at s"

definition billing_ok :: "db \<Rightarrow> bool" where
  "billing_ok d \<longleftrightarrow>
     distinct (map (\<lambda>p. (py_provider p, py_provider_ref p)) (payments d)) \<and>
     distinct (map (\<lambda>w. (wh_provider w, wh_event_id w)) (webhook_events d)) \<and>
     fresh_ids sb_id (subscriptions d) (next_id d) \<and> pairwise apart (set (subscriptions d)) \<and>
     list_all (\<lambda>s. sb_starts_at s < sb_expires_at s) (subscriptions d) \<and>
     refers sb_user_id (subscriptions d) (map u_id (users d))"

definition database_ok :: "db \<Rightarrow> bool" where
  "database_ok d \<longleftrightarrow> wf_peers d \<and> accounts_ok d \<and> fleet_ok d \<and> billing_ok d"

section \<open>Updates and insertions\<close>

lemma fresh_ids_append: "fresh_ids k rs n \<Longrightarrow> k r = n \<Longrightarrow> fresh_ids k (rs @ [r]) (Suc n)"
  by (auto simp: fresh_ids_def list_all_iff)

lemma fresh_ids_mono: "fresh_ids k rs n \<Longrightarrow> n \<le> m \<Longrightarrow> fresh_ids k rs m"
  by (auto simp: fresh_ids_def list_all_iff)

lemma fresh_ids_Suc: "fresh_ids k rs n \<Longrightarrow> fresh_ids k rs (Suc n)"
  by (erule fresh_ids_mono) (rule le_SucI [OF le_refl])

lemma fresh_ids_update:
  "fresh_ids k rs n \<Longrightarrow> (\<And>r. k (f r) = k r) \<Longrightarrow> fresh_ids k (update_where c f rs) n"
  by (auto simp: fresh_ids_def map_update_where list_all_iff set_update_where)

lemma refers_append: "refers k rs ids \<Longrightarrow> k r \<in> set ids \<Longrightarrow> refers k (rs @ [r]) ids"
  by (simp add: refers_def)

lemma refers_more: "refers k rs ids \<Longrightarrow> refers k rs (ids @ new)"
  by (auto simp: refers_def list_all_iff)

lemma refers_update: "refers k rs ids \<Longrightarrow> (\<And>r. k (f r) = k r) \<Longrightarrow> refers k (update_where c f rs) ids"
  by (auto simp: refers_def list_all_iff set_update_where)

lemma pairwise_append:
  "pairwise Q (set xs) \<Longrightarrow> (\<And>y. y \<in> set xs \<Longrightarrow> Q y x \<and> Q x y) \<Longrightarrow> pairwise Q (set (xs @ [x]))"
  by (auto simp: pairwise_def)

lemma email_eq_sym: "email_eq a b = email_eq b a"
  by (auto simp: email_eq_def equal_fold_def split: option.splits)

lemma text_eq_sym: "text_eq a b = text_eq b a"
  by (auto simp: text_eq_def split: option.splits)

lemma same_identifier_sym: "same_identifier u v = same_identifier v u"
  unfolding same_identifier_def using email_eq_sym text_eq_sym by metis

section \<open>Accounts\<close>

lemma accounts_frame:
  assumes "accounts_ok d" and "users d' = users d" "devices d' = devices d" "refresh_tokens d' = refresh_tokens d"
    and "next_id d \<le> next_id d'"
  shows "accounts_ok d'"
  using assms by (auto simp: accounts_ok_def intro: fresh_ids_mono)

lemma accounts_create_user: "accounts_ok d \<Longrightarrow> accounts_ok (snd (create_user now email phone hash d))"
proof -
  assume ok: "accounts_ok d"
  let ?e = "nullif_empty email" and ?ph = "nullif_empty phone"
  let ?u = "\<lparr>u_id = next_id d, u_email = ?e, u_phone = ?ph, u_password_hash = hash, u_status = UserActive, u_created_at = now\<rparr>"
  show ?thesis
  proof (cases "?e = None \<and> ?ph = None \<or> list_ex (\<lambda>u. email_eq (u_email u) ?e \<or> text_eq (u_phone u) ?ph) (users d)")
    case True
    then have "snd (create_user now email phone hash d) = d" by (auto simp: create_user_def Let_def)
    with ok show ?thesis by simp
  next
    case False
    then have new: "snd (create_user now email phone hash d) = d\<lparr>users := users d @ [?u], next_id := Suc (next_id d)\<rparr>"
      by (simp add: create_user_def Let_def)
    have "\<not> same_identifier v ?u" if "v \<in> set (users d)" for v
      using that False by (simp add: same_identifier_def list_ex_iff)
    then have "\<not> same_identifier v ?u \<and> \<not> same_identifier ?u v" if "v \<in> set (users d)" for v
      using that same_identifier_sym by blast
    moreover have "pairwise (\<lambda>u v. \<not> same_identifier u v) (set (users d))" using ok by (simp add: accounts_ok_def)
    ultimately have "pairwise (\<lambda>u v. \<not> same_identifier u v) (set (users d @ [?u]))" by (intro pairwise_append)
    with ok show ?thesis
      unfolding new accounts_ok_def by (simp add: fresh_ids_append refers_more fresh_ids_Suc del: set_append)
  qed
qed

lemma accounts_insert_token: "accounts_ok d \<Longrightarrow> accounts_ok (snd (insert_token uid dev hash expires d))"
  by (auto simp: accounts_ok_def insert_token_def list_ex_iff refers_append intro: fresh_ids_mono)

lemma accounts_tokens_update:
  "accounts_ok d \<Longrightarrow> accounts_ok (d\<lparr>refresh_tokens := update_where c (\<lambda>t. t\<lparr>t_revoked_at := v\<rparr>) (refresh_tokens d)\<rparr>)"
  by (simp add: accounts_ok_def map_update_where refers_update)

lemma accounts_rotate_token: "accounts_ok d \<Longrightarrow> accounts_ok (snd (rotate_refresh_token now old_hash new_hash expires d))"
proof -
  assume ok: "accounts_ok d"
  let ?d1 = "d\<lparr>refresh_tokens := update_where (\<lambda>t. t_hash t = old_hash \<and> token_live now t)
      (\<lambda>t. t\<lparr>t_revoked_at := Some now\<rparr>) (refresh_tokens d)\<rparr>"
  have "accounts_ok (snd (insert_token uid dev new_hash expires ?d1))" for uid dev
    by (rule accounts_insert_token [OF accounts_tokens_update [OF ok]])
  note i = this
  show ?thesis
  proof (cases "find (\<lambda>t. t_hash t = old_hash \<and> token_live now t) (refresh_tokens d)")
    case (Some t)
    obtain r d2 where ins: "insert_token (t_user_id t) (t_device_id t) new_hash expires ?d1 = (r, d2)" by (rule prod.exhaust)
    from i [of "t_user_id t" "t_device_id t"] have "accounts_ok d2" unfolding ins by simp
    with Some ins ok show ?thesis by (cases r) (simp_all add: rotate_refresh_token_def Let_def)
  qed (use ok in \<open>simp add: rotate_refresh_token_def\<close>)
qed

lemma accounts_device_update:
  assumes "accounts_ok d" and "\<And>v. d_id (f v) = d_id v \<and> d_user_id (f v) = d_user_id v \<and> d_public_key (f v) = d_public_key v"
  shows "accounts_ok (d\<lparr>devices := update_where c f (devices d)\<rparr>)"
  using assms by (simp add: accounts_ok_def map_update_where refers_update fresh_ids_update)

lemma accounts_upsert_device: "accounts_ok d \<Longrightarrow> accounts_ok (snd (upsert_device now uid name platform key version d))"
proof -
  assume ok: "accounts_ok d"
  show ?thesis
  proof (cases "find (\<lambda>v. d_public_key v = key) (devices d)")
    case (Some v)
    then show ?thesis using ok by (auto simp: upsert_device_def Let_def intro: accounts_device_update)
  next
    case None
    then have "key \<notin> d_public_key ` set (devices d)" by (auto simp: find_None_set)
    with ok None show ?thesis
      by (auto simp: accounts_ok_def upsert_device_def Let_def fresh_ids_append refers_append list_ex_iff intro: fresh_ids_mono)
  qed
qed

lemma accounts_rotate_key: "accounts_ok d \<Longrightarrow> accounts_ok (snd (rotate_device_key dev key d))"
proof (cases "list_ex (\<lambda>v. d_id v \<noteq> dev \<and> d_public_key v = key) (devices d)")
  case False
  assume ok: "accounts_ok d"
  let ?c = "\<lambda>v. d_id v = dev \<and> d_revoked_at v = None" and ?f = "\<lambda>v. v\<lparr>d_public_key := key\<rparr>"
  have "distinct (map d_public_key (update_where ?c ?f vs))"
    if "distinct (map d_id vs)" "distinct (map d_public_key vs)" "\<not> list_ex (\<lambda>v. d_id v \<noteq> dev \<and> d_public_key v = key) vs" for vs
    using that by (induction vs) (auto simp: set_update_where list_ex_iff image_iff, metis+)
  then have "distinct (map d_public_key (update_where ?c ?f (devices d)))"
    using ok False by (auto simp: accounts_ok_def fresh_ids_def)
  with ok show ?thesis
    by (auto simp: rotate_device_key_def accounts_ok_def fresh_ids_update refers_update)
qed (auto simp: rotate_device_key_def)

interpretation accounts: store_relation "inv_rel accounts_ok"
proof unfold_locales
  fix d now email phone hash
  show "inv_rel accounts_ok d (snd (create_user now email phone hash d))" by (simp add: inv_rel_def accounts_create_user)
next
  fix d uid dev hash expires
  show "inv_rel accounts_ok d (snd (create_refresh_token uid dev hash expires d))"
    by (simp add: inv_rel_def create_refresh_token_def accounts_insert_token)
next
  fix d now old_hash new_hash expires
  show "inv_rel accounts_ok d (snd (rotate_refresh_token now old_hash new_hash expires d))"
    by (simp add: inv_rel_def accounts_rotate_token)
next
  fix d now hash
  show "inv_rel accounts_ok d (snd (revoke_refresh_token now hash d))"
    by (simp add: inv_rel_def revoke_refresh_token_def accounts_tokens_update)
next
  fix d now uid name platform key version
  show "inv_rel accounts_ok d (snd (upsert_device now uid name platform key version d))"
    by (simp add: inv_rel_def accounts_upsert_device)
next
  fix d dev key
  show "inv_rel accounts_ok d (snd (rotate_device_key dev key d))" by (simp add: inv_rel_def accounts_rotate_key)
next
  fix d now dev
  show "inv_rel accounts_ok d (snd (revoke_device now dev d))" "inv_rel accounts_ok d (snd (touch_device dev now d))"
    by (simp_all add: inv_rel_def revoke_device_def touch_device_def accounts_device_update)
qed (simp add: preorder_inv_rel | simp add: inv_rel_def, intro impI, erule accounts_frame; simp add: frames)+

section \<open>The fleet\<close>

lemma fleet_frame:
  assumes "fleet_ok d" and "servers d' = servers d" "devices d' = devices d" "peers d' = peers d" and "next_id d \<le> next_id d'"
  shows "fleet_ok d'"
  using assms by (auto simp: fleet_ok_def intro: fresh_ids_mono)

lemma fleet_devices_update:
  "fleet_ok d \<Longrightarrow> (\<And>v. d_id (f v) = d_id v) \<Longrightarrow> fleet_ok (d\<lparr>devices := update_where c f (devices d)\<rparr>)"
  by (simp add: fleet_ok_def map_update_where)

lemma fleet_upsert_device: "fleet_ok d \<Longrightarrow> fleet_ok (snd (upsert_device now uid name platform key version d))"
  by (auto simp: upsert_device_def Let_def fleet_devices_update split: option.split)
    (auto simp: fleet_ok_def refers_more fresh_ids_Suc)

lemma fleet_peers_update:
  "fleet_ok d \<Longrightarrow> (\<And>p. p_device_id (f p) = p_device_id p \<and> p_server_id (f p) = p_server_id p) \<Longrightarrow>
   fleet_ok (d\<lparr>peers := update_where c f (peers d)\<rparr>)"
  by (simp add: fleet_ok_def refers_update)

lemma fleet_ensure: "fleet_ok d \<Longrightarrow> fleet_ok (snd (ensure_assignment now dev srv key d))"
proof -
  assume ok: "fleet_ok d"
  have known: "srv \<in> s_id ` set (servers d)" if "find_server_row d srv = Some s" for s
    using find_Some_iff_set [OF that [unfolded find_server_row_def]] by auto
  have "fleet_ok (snd (insert_peer now dev srv key ip d))" if "find_server_row d srv = Some s" for ip s
    using ok known [OF that]
    by (auto simp: insert_peer_def Let_def fleet_ok_def fresh_ids_Suc new_peer_def list_ex_iff intro!: refers_append)
  then have ins: "fleet_ok d'" if "find_server_row d srv = Some s" "insert_peer now dev srv key ip d = (r, d')" for ip s r d'
    using that by (metis snd_conv)
  have "fleet_ok (d\<lparr>peers := update_where (\<lambda>q. p_id q = i) (rekey now key) (peers d)\<rparr>)" for i
    by (rule fleet_peers_update [OF ok]) (simp add: rekey_def)
  then show ?thesis
    using ok by (auto simp: ensure_assignment_def ensure_assignment_tx_def split: option.split sum.split prod.split dest: ins)
qed

lemma fleet_upsert_server: "fleet_ok d \<Longrightarrow> fleet_ok (snd (upsert_server row d))"
proof (cases "find (\<lambda>s. s_code s = s_code row) (servers d)")
  case None
  assume ok: "fleet_ok d"
  have "s_code row \<notin> s_code ` set (servers d)" using None by (auto simp: find_None_set)
  with ok show ?thesis
    by (simp add: upsert_server_def None Let_def server_by_id_def fleet_ok_def fresh_ids_append refers_more)
next
  case (Some s)
  assume ok: "fleet_ok d"
  let ?s = "row\<lparr>s_id := s_id s, s_last_seen_at := s_last_seen_at s\<rparr>"
  have s: "s \<in> set (servers d)" "s_code s = s_code row" using find_Some_iff_set [OF Some] by auto
  have only: "r = s" if "r \<in> set (servers d)" "s_code r = s_code row" for r
    using that s ok by (auto simp: fleet_ok_def distinct_map inj_on_def)
  have id: "map s_id (update_where (\<lambda>r. s_code r = s_code row) (\<lambda>_. ?s) (servers d)) = map s_id (servers d)"
    by (rule map_update_where) (use only in simp)
  have code: "map s_code (update_where (\<lambda>r. s_code r = s_code row) (\<lambda>_. ?s) (servers d)) = map s_code (servers d)"
    by (rule map_update_where) simp
  have "fresh_ids s_id (update_where (\<lambda>r. s_code r = s_code row) (\<lambda>_. ?s) (servers d)) (next_id d)"
    using ok s by (auto simp: fresh_ids_def id fleet_ok_def list_all_iff set_update_where)
  with ok Some show ?thesis
    by (simp add: upsert_server_def Let_def server_by_id_def fleet_ok_def id code)
qed

lemma fleet_server_status: "fleet_ok d \<Longrightarrow> fleet_ok (snd (set_server_status code status d))"
  by (simp add: set_server_status_def fleet_ok_def fresh_ids_update map_update_where)

interpretation fleet: store_relation "inv_rel fleet_ok"
proof unfold_locales
  fix d now uid name platform key version
  show "inv_rel fleet_ok d (snd (upsert_device now uid name platform key version d))" by (simp add: inv_rel_def fleet_upsert_device)
next
  fix d dev key now
  show "inv_rel fleet_ok d (snd (rotate_device_key dev key d))" "inv_rel fleet_ok d (snd (revoke_device now dev d))"
    "inv_rel fleet_ok d (snd (touch_device dev now d))"
    by (simp_all add: inv_rel_def rotate_device_key_def revoke_device_def touch_device_def fleet_devices_update)
next
  fix d row code status
  show "inv_rel fleet_ok d (snd (upsert_server row d))" "inv_rel fleet_ok d (snd (set_server_status code status d))"
    by (simp_all add: inv_rel_def fleet_upsert_server fleet_server_status)
next
  fix d now dev srv key
  show "inv_rel fleet_ok d (snd (ensure_assignment now dev srv key d))" by (simp add: inv_rel_def fleet_ensure)
next
  fix d now i revn cause retry_at c
  show "inv_rel fleet_ok d (snd (mark_applied now i revn d))" "inv_rel fleet_ok d (snd (mark_revoked now i revn d))"
    "inv_rel fleet_ok d (snd (mark_attempt_failed i cause retry_at d))" "inv_rel fleet_ok d (snd (revoke_where c now d))"
    by (simp_all add: inv_rel_def mark_applied_def mark_revoked_def mark_attempt_failed_def revoke_where_def
        begin_revoke_def fleet_peers_update)
qed (simp add: preorder_inv_rel | simp add: inv_rel_def, intro impI, erule fleet_frame; simp add: frames)+

section \<open>Billing\<close>

lemma billing_frame:
  assumes "billing_ok d" and "payments d' = payments d" "webhook_events d' = webhook_events d"
    and "subscriptions d' = subscriptions d" "users d' = users d" and "next_id d \<le> next_id d'"
  shows "billing_ok d'"
  using assms by (auto simp: billing_ok_def intro: fresh_ids_mono)

lemma billing_create_user: "billing_ok d \<Longrightarrow> billing_ok (snd (create_user now email phone hash d))"
  by (simp add: create_user_def Let_def billing_ok_def refers_more fresh_ids_Suc)

lemma billing_grant: "billing_ok d \<Longrightarrow> billing_ok (snd (grant_time_block now uid code source d))"
proof -
  assume ok: "billing_ok d"
  obtain r d' where run: "grant_time_block now uid code source d = (r, d')" by (rule prod.exhaust)
  show ?thesis
  proof (cases r)
    case (Inl e)
    then have "d' = d" using run by (auto simp: grant_time_block_def Let_def split: option.splits if_splits)
    with ok run show ?thesis by simp
  next
    case (Inr s)
    obtain p :: plan where p: "0 < pl_duration p" "sb_user_id s = uid" "sb_starts_at s = block_start now uid d"
      "sb_expires_at s = block_start now uid d + pl_duration p"
      "d' = d\<lparr>subscriptions := subscriptions d @ [s], next_id := Suc (next_id d)\<rparr>"
      using grant_Inr [OF run [unfolded Inr]] by blast
    have known: "uid \<in> set (map u_id (users d))" "sb_id s = next_id d"
      using run Inr by (auto simp: grant_time_block_def Let_def list_ex_iff split: option.splits if_splits)
    have "apart b s \<and> apart s b" if "b \<in> set (subscriptions d)" for b
      using unrevoked_ends [of b uid d now] that p by (auto simp: apart_def unrevoked_def)
    then have "pairwise apart (set (subscriptions d @ [s]))"
      using ok by (intro pairwise_append) (simp_all add: billing_ok_def)
    then show ?thesis
      using ok p known unfolding run snd_conv billing_ok_def by (simp add: fresh_ids_append refers_append del: set_append)
  qed
qed

lemma billing_payments: "billing_ok d \<Longrightarrow>
  distinct (map (\<lambda>p. (py_provider p, py_provider_ref p)) ps) \<Longrightarrow> billing_ok (d\<lparr>payments := ps\<rparr>)"
  by (simp add: billing_ok_def)

lemma billing_upsert_payment: "billing_ok d \<Longrightarrow> billing_ok (snd (upsert_payment payment d))"
proof -
  assume ok: "billing_ok d"
  let ?p = "payment_defaults payment"
  show ?thesis
  proof (cases "find (is_payment (py_provider ?p) (py_provider_ref ?p)) (payments d)")
    case (Some q)
    with ok show ?thesis
      by (auto simp: upsert_payment_def Let_def billing_ok_def map_update_where intro!: billing_payments)
  next
    case None
    then have "(py_provider ?p, py_provider_ref ?p) \<notin> (\<lambda>p. (py_provider p, py_provider_ref p)) ` set (payments d)"
      by (auto simp: find_None_set is_payment_def)
    with ok show ?thesis
      by (simp add: upsert_payment_def None Let_def billing_ok_def fresh_ids_Suc)
  qed
qed

lemma billing_settle: "billing_ok d \<Longrightarrow> billing_ok (snd (settle_payment provider ref payload d))"
proof -
  assume ok: "billing_ok d"
  let ?c = "\<lambda>p. is_payment provider ref p \<and> py_status p \<noteq> PaySuccess"
  have "billing_ok (d\<lparr>payments := update_where ?c (settle b) (payments d)\<rparr>)" for b
    using ok by (intro billing_payments) (simp_all add: billing_ok_def map_update_where settle_def)
  with ok show ?thesis
    by (simp add: settle_payment_def payment_by_ref_def Let_def split: option.split)
qed

lemma billing_webhooks:
  "billing_ok d \<Longrightarrow> billing_ok (snd (record_webhook_event provider i typ payload d))"
  "billing_ok d \<Longrightarrow> billing_ok (snd (mark_webhook_handled now provider i d))"
  by (auto simp: record_webhook_event_def mark_webhook_handled_def billing_ok_def list_ex_iff fresh_ids_Suc map_update_where)

interpretation billing: store_relation "inv_rel billing_ok"
proof unfold_locales
  fix d now email phone hash
  show "inv_rel billing_ok d (snd (create_user now email phone hash d))" by (simp add: inv_rel_def billing_create_user)
next
  fix d now uid code source
  show "inv_rel billing_ok d (snd (grant_time_block now uid code source d))" by (simp add: inv_rel_def billing_grant)
next
  fix d provider i_text kind payload now payment
  show "inv_rel billing_ok d (snd (record_webhook_event provider i_text kind payload d))"
    "inv_rel billing_ok d (snd (mark_webhook_handled now provider i_text d))"
    "inv_rel billing_ok d (snd (upsert_payment payment d))"
    "inv_rel billing_ok d (snd (settle_payment provider i_text payload d))"
    by (simp_all add: inv_rel_def billing_webhooks billing_upsert_payment billing_settle)
qed (simp add: preorder_inv_rel | simp add: inv_rel_def, intro impI, erule billing_frame; simp add: frames)+

section \<open>The peer table\<close>

lemma peers_step_frame: "peers d' = peers d \<Longrightarrow> next_id d \<le> next_id d' \<Longrightarrow> peers_step d d'"
  by (auto simp: peers_step_def wf_peers_def peers_evolve_def list.rel_refl list_all_iff)

interpretation table: store_relation peers_step
  by unfold_locales
    (simp add: preorder_peers_step | rule peers_steps | rule peers_step_frame; simp add: frames)+

section \<open>The whole database\<close>

interpretation whole: store_relation "inv_rel database_ok"
  by (rule store_relation_weaken [OF store_relation_conj [OF table.store_relation_axioms
        store_relation_conj [OF accounts.store_relation_axioms
          store_relation_conj [OF fleet.store_relation_axioms billing.store_relation_axioms]]]])
    (auto simp: inv_rel_def database_ok_def peers_step_def)

lemma database_ok_migrated: "database_ok migrated_db"
  by (simp add: database_ok_def migrated_db_def wf_peers_def accounts_ok_def fleet_ok_def billing_ok_def fresh_ids_def refers_def)


end
