(* ===== verification/Isolation.thy ===== *)
theory Isolation
  imports Consistency Triples
begin

text \<open>
  What a request of one user can do to the others: nothing. Here the engine, the writes to devices and
  the payments of a user, as triples; the handlers follow in \<open>OwnRows\<close>.
\<close>

section \<open>What only reads\<close>

lemma reading_calls:
  "only_reads (store_entitlement uid)" "only_reads (store_device_by_id i)" "only_reads (store_devices_by_user uid)"
  "only_reads (store_servers b)" "only_reads (store_server_by_code code)" "only_reads (store_server_by_id i)"
  "only_reads (store_user_by_id uid)" "only_reads (store_payment_by_ref provider ref)" "only_reads (store_plan code)"
  "only_reads (store_assignments_for_device dev)" "only_reads (db_call (\<lambda>now d. (Inl e, d)))"
  unfolding only_reads_def store_defs pay_store_defs api_store_defs
  by (rule keeps_db_call [OF preorder_same], simp add: user_by_id_def payment_by_ref_def plan_by_code_def assignments_for_device_def)+

lemmas reads_intros = keeps_intros preorder_same preorder_on_db [OF preorder_same] reading_calls [unfolded only_reads_def]

lemma reading_engine: "only_reads (check_device_limit uid dev n)" "only_reads (candidates rq)"
proof -
  show "only_reads (check_device_limit uid dev n)"
    unfolding only_reads_def check_device_limit_def Let_def by (intro reads_intros)
  show "only_reads (candidates rq)"
    unfolding only_reads_def candidates_def Let_def by (intro reads_intros)
qed

section \<open>The rest of the database\<close>

text \<open>Everything that is not the user's, but for the payload Paystack's answers leave on a payment.\<close>

definition others_view where
  "others_view uid d =
     (users d, plans d, servers d, refresh_tokens d, webhook_events d,
      filter (\<lambda>v. d_user_id v \<noteq> uid) (devices d), filter (\<lambda>s. sb_user_id s \<noteq> uid) (subscriptions d),
      map (\<lambda>p. p\<lparr>py_payload := []\<rparr>) (filter (\<lambda>p. py_user_id p \<noteq> Some uid) (payments d)),
      filter (\<lambda>p. \<not> owned_by d uid p) (peers d))"

definition mine :: "uuid \<Rightarrow> uuid \<Rightarrow> db \<Rightarrow> bool" where
  "mine uid dev d \<longleftrightarrow> (\<forall>v \<in> set (devices d). d_id v = dev \<longrightarrow> d_user_id v = uid)"

text \<open>The assertion carried through a request: the database is consistent, the others' part is \<open>V\<close>.\<close>

definition safe where
  "safe uid V d \<longleftrightarrow> database_ok d \<and> others_view uid d = V"

lemma filter_update_where:
  "(\<And>r. r \<in> set rs \<Longrightarrow> c r \<Longrightarrow> \<not> P r \<and> \<not> P (f r)) \<Longrightarrow> filter P (update_where c f rs) = filter P rs"
  by (induction rs) auto

lemma list_ex_update_where: "(\<And>x. P (f x) = P x) \<Longrightarrow> list_ex P (update_where c f xs) = list_ex P xs"
  by (induction xs) auto

lemma owned_by_peers [simp]: "owned_by (d\<lparr>peers := ps\<rparr>) uid p = owned_by d uid p" "owned_by (d\<lparr>next_id := n\<rparr>) uid p = owned_by d uid p"
  by (simp_all add: owned_by_def)

lemma owned_mine: "database_ok d \<Longrightarrow> mine uid dev d \<Longrightarrow> p \<in> set (peers d) \<Longrightarrow> p_device_id p = dev \<Longrightarrow> owned_by d uid p"
  by (force simp: database_ok_def fleet_ok_def refers_def list_all_iff mine_def owned_by_def list_ex_iff)

lemma view_peers_update:
  assumes "\<And>p. p \<in> set (peers d) \<Longrightarrow> c p \<Longrightarrow> owned_by d uid p" and "\<And>p. p_device_id (f p) = p_device_id p"
  shows "others_view uid (d\<lparr>peers := update_where c f (peers d)\<rparr>) = others_view uid d"
proof -
  have "owned_by d uid (f p) = owned_by d uid p" for p by (simp add: owned_by_def assms(2))
  with assms(1) have "filter (\<lambda>p. \<not> owned_by d uid p) (update_where c f (peers d)) = filter (\<lambda>p. \<not> owned_by d uid p) (peers d)"
    by (intro filter_update_where) simp
  then show ?thesis by (simp add: others_view_def)
qed

section \<open>The engine\<close>

lemma whole_ok: "database_ok d \<Longrightarrow> inv_rel database_ok d d' \<Longrightarrow> database_ok d'"
  by (simp add: inv_rel_def)

lemmas whole_steps = whole_ok [OF _ whole.ensure_assignment] whole_ok [OF _ whole.mark_applied]
  whole_ok [OF _ whole.mark_attempt_failed] whole_ok [OF _ whole.revoke_where] whole_ok [OF _ whole.upsert_device]
  whole_ok [OF _ whole.rotate_device_key] whole_ok [OF _ whole.revoke_device] whole_ok [OF _ whole.touch_device]
  whole_ok [OF _ whole.grant_time_block] whole_ok [OF _ whole.upsert_payment] whole_ok [OF _ whole.settle_payment]

text \<open>The row an assignment was read from belongs to the device.\<close>

definition row_of :: "uuid \<Rightarrow> uuid \<Rightarrow> db \<Rightarrow> bool" where
  "row_of i dev d \<longleftrightarrow> (\<forall>p \<in> set (peers d). p_id p = i \<longrightarrow> p_device_id p = dev)"

lemma mine_frames:
  "mine uid dev (snd (ensure_assignment now dv srv key d)) = mine uid dev d"
  "mine uid dev (snd (mark_applied now i revn d)) = mine uid dev d"
  "mine uid dev (snd (mark_attempt_failed i cause retry_at d)) = mine uid dev d"
  "mine uid dev (snd (revoke_where c now d)) = mine uid dev d"
  by (simp_all add: mine_def frames)

lemma ensure_view:
  assumes ok: "database_ok d" and m: "mine uid dev d"
  shows "others_view uid (snd (ensure_assignment now dev srv key d)) = others_view uid d \<and>
    (\<forall>a. fst (ensure_assignment now dev srv key d) = Inr a \<longrightarrow> row_of (pa_id a) dev (snd (ensure_assignment now dev srv key d)))"
proof -
  have wf: "wf_peers d" using ok by (simp add: database_ok_def)
  have old: "others_view uid (d\<lparr>peers := update_where (\<lambda>q. p_id q = p_id p) (rekey now key) (peers d)\<rparr>) = others_view uid d \<and>
      row_of (p_id p) dev (d\<lparr>peers := update_where (\<lambda>q. p_id q = p_id p) (rekey now key) (peers d)\<rparr>) \<and> row_of (p_id p) dev d"
    if "existing_assignment d dev srv = Some p" for p
  proof -
    note p = existing_assignment_SomeD [OF that]
    have only: "q = p" if "q \<in> set (peers d)" "p_id q = p_id p" for q using that p unique_id [OF wf] by blast
    have "others_view uid (d\<lparr>peers := update_where (\<lambda>q. p_id q = p_id p) (rekey now key) (peers d)\<rparr>) = others_view uid d"
      by (rule view_peers_update) (use only p owned_mine [OF ok m] in \<open>auto simp: rekey_def\<close>)
    moreover have "row_of (p_id p) dev d" unfolding row_of_def using only p by blast
    moreover have "p_device_id (rekey now key q) = p_device_id q" "p_id (rekey now key q) = p_id q" for q by (simp_all add: rekey_def)
    ultimately show ?thesis unfolding row_of_def by (auto simp: set_update_where)
  qed
  have new: "others_view uid (snd (insert_peer now dev srv key ip d)) = others_view uid d \<and>
      (\<forall>a. fst (insert_peer now dev srv key ip d) = Inr a \<longrightarrow> row_of (pa_id a) dev (snd (insert_peer now dev srv key ip d)))" for ip
  proof -
    have fresh: "p_id q \<noteq> next_id d" if "q \<in> set (peers d)" for q using that wf by (auto simp: wf_peers_def list_all_iff)
    have "owned_by d uid (new_peer now (next_id d) dev srv key ip)" if "list_ex (\<lambda>v. d_id v = dev) (devices d)"
      using that m by (auto simp: owned_by_def mine_def list_ex_iff new_peer_def)
    then show ?thesis using fresh
      by (auto simp: insert_peer_def Let_def others_view_def row_of_def new_peer_def scan_peer_def owned_by_def)
  qed
  have result: "pa_id (scan_peer p) = p_id p" "p_id (rekey now key p) = p_id p" for p
    by (simp_all add: scan_peer_def rekey_def)
  show ?thesis
  proof (cases "find_server_row d srv")
    case None
    then show ?thesis by (simp add: ensure_assignment_def ensure_assignment_tx_def map_result_def)
  next
    case srv: (Some s)
    show ?thesis
    proof (cases "existing_assignment d dev srv")
      case (Some p)
      with srv old [OF Some] show ?thesis
        by (simp add: ensure_assignment_def ensure_assignment_tx_def map_result_def result)
    next
      case None
      show ?thesis
      proof (cases "allocate_ip d srv (s_tunnel_subnet s)")
        case (Inl e)
        with srv None show ?thesis by (simp add: ensure_assignment_def ensure_assignment_tx_def map_result_def)
      next
        case (Inr ip)
        obtain r d' where i: "insert_peer now dev srv key ip d = (r, d')" by (rule prod.exhaust)
        with srv None Inr new [of ip] show ?thesis
          by (cases r) (simp_all add: ensure_assignment_def ensure_assignment_tx_def map_result_def)
      qed
    qed
  qed
qed

lemma mark_view:
  assumes "database_ok d" "mine uid dev d" "row_of i dev d"
  shows "others_view uid (snd (mark_applied now i revn d)) = others_view uid d"
    and "others_view uid (snd (mark_attempt_failed i cause retry_at d)) = others_view uid d"
  unfolding mark_applied_def mark_attempt_failed_def snd_conv
  by (rule view_peers_update; use assms owned_mine [OF assms(1,2)] in \<open>auto simp: row_of_def\<close>)+

lemma revoke_view:
  assumes "database_ok d" "mine uid dev d" and "\<And>p. c p \<Longrightarrow> p_device_id p = dev"
  shows "others_view uid (snd (revoke_where c now d)) = others_view uid d"
  unfolding revoke_where_def snd_conv
proof (rule view_peers_update)
  fix p
  assume "p \<in> set (peers d)" "c p \<and> wanted p"
  then show "owned_by d uid p" by (intro owned_mine [OF assms(1,2)] assms(3)) simp_all
qed (simp add: begin_revoke_def)

text \<open>What is known while a device of the user is being provisioned.\<close>

definition held_by where
  "held_by uid V dev d \<longleftrightarrow> safe uid V d \<and> mine uid dev d"

lemma engine_triples:
  "ensures (held_by uid V dev) (store_ensure_assignment dev srv key)
     (\<lambda>r d. held_by uid V dev d \<and> (\<forall>a. r = Inr a \<longrightarrow> row_of (pa_id a) dev d))"
  "ensures (\<lambda>d. held_by uid V dev d \<and> row_of i dev d) (store_mark_applied i revn) (\<lambda>r. held_by uid V dev)"
  "ensures (\<lambda>d. held_by uid V dev d \<and> row_of i dev d) (store_mark_attempt_failed i cause retry_at) (\<lambda>r. held_by uid V dev)"
  "ensures (held_by uid V dev) (store_begin_revoke_other_servers dev srv) (\<lambda>r. held_by uid V dev)"
  "ensures (held_by uid V dev) (store_begin_revoke_for_device dev) (\<lambda>r. held_by uid V dev)"
proof -
  show "ensures (held_by uid V dev) (store_ensure_assignment dev srv key)
     (\<lambda>r d. held_by uid V dev d \<and> (\<forall>a. r = Inr a \<longrightarrow> row_of (pa_id a) dev d))"
    unfolding store_defs
  proof (rule ensures_db_call)
    fix now d
    assume "held_by uid V dev d"
    then have h: "database_ok d" "others_view uid d = V" "mine uid dev d" by (simp_all add: held_by_def safe_def)
    note v = ensure_view [OF h(1,3), of now srv key]
    have "held_by uid V dev (snd (ensure_assignment now dev srv key d))"
      using v h whole_steps(1) [OF h(1)] by (simp add: held_by_def safe_def mine_frames)
    moreover have "held_by uid V dev d" by fact
    ultimately show "(held_by uid V dev (snd (ensure_assignment now dev srv key d)) \<and>
        (\<forall>a. fst (ensure_assignment now dev srv key d) = Inr a \<longrightarrow> row_of (pa_id a) dev (snd (ensure_assignment now dev srv key d)))) \<and>
      (held_by uid V dev (snd (ensure_assignment now dev srv key d)) \<and>
        (\<forall>a. Inl driver_error = Inr a \<longrightarrow> row_of (pa_id a) dev (snd (ensure_assignment now dev srv key d)))) \<and>
      (held_by uid V dev d \<and> (\<forall>a. Inl driver_error = Inr a \<longrightarrow> row_of (pa_id a) dev d))"
      using v by simp
  qed
  show "ensures (\<lambda>d. held_by uid V dev d \<and> row_of i dev d) (store_mark_applied i revn) (\<lambda>r. held_by uid V dev)"
    unfolding store_defs
    by (rule ensures_db_call) (auto simp: held_by_def safe_def mine_frames mark_view whole_steps)
  show "ensures (\<lambda>d. held_by uid V dev d \<and> row_of i dev d) (store_mark_attempt_failed i cause retry_at) (\<lambda>r. held_by uid V dev)"
    unfolding store_defs
    by (rule ensures_db_call) (auto simp: held_by_def safe_def mine_frames mark_view whole_steps)
  show "ensures (held_by uid V dev) (store_begin_revoke_other_servers dev srv) (\<lambda>r. held_by uid V dev)"
    unfolding store_defs begin_revoke_other_servers_def
    by (rule ensures_db_call) (auto simp: held_by_def safe_def mine_frames whole_steps intro!: revoke_view [where dev = dev])
  show "ensures (held_by uid V dev) (store_begin_revoke_for_device dev) (\<lambda>r. held_by uid V dev)"
    unfolding store_defs begin_revoke_for_device_def
    by (rule ensures_db_call) (auto simp: held_by_def safe_def mine_frames whole_steps intro!: revoke_view [where dev = dev])
qed

lemma record_failure_triple:
  "ensures (\<lambda>d. held_by uid V dev d \<and> row_of (pa_id a) dev d) (record_failure a e) (\<lambda>r. held_by uid V dev)"
  unfolding record_failure_def
  by (rule ensures_bind [OF ensures_clock], rule ensures_bind [OF ensures_draw],
      rule ensures_bind [OF engine_triples(3)], rule ensures_ret)

lemma provision_on_triple:
  assumes "d_id v = dev"
  shows "ensures (held_by uid V dev) (provision_on cl v srv ent) (\<lambda>r. held_by uid V dev)"
  unfolding provision_on_def assms
proof (rule ensures_bind [OF engine_triples(1)], rule ensures_case_sum)
  fix r a
  assume r: "r = Inr (a :: peer_assignment)"
  let ?P = "\<lambda>d. held_by uid V dev d \<and> row_of (pa_id a) dev d"
  let ?confirmed = "\<lambda>res. case res of
      Inl err \<Rightarrow> do { _ \<leftarrow> record_failure a err; ret (Inl err) }
    | Inr _ \<Rightarrow> do { _ \<leftarrow> store_mark_applied (pa_id a) (pa_revision a); ret (Inr (build_config a srv ent)) }"
  have "ensures ?P (?confirmed res) (\<lambda>r. held_by uid V dev)" for res
    by (rule ensures_case_sum)
      (rule ensures_bind [OF record_failure_triple] ensures_bind [OF engine_triples(2)], rule ensures_ret, assumption)+
  then have "ensures ?P (if \<not> applied a then edge_call (apply_peer cl srv (edge_peer_of a)) \<bind> ?confirmed
      else ret (Inr (build_config a srv ent))) (\<lambda>r. held_by uid V dev)"
    by (intro ensures_if ensures_bind [OF ensures_edge_call]) (auto intro: ensures_ret)
  then show "ensures (\<lambda>d. held_by uid V dev d \<and> (\<forall>a. r = Inr a \<longrightarrow> row_of (pa_id a) dev d))
      (if \<not> applied a then edge_call (apply_peer cl srv (edge_peer_of a)) \<bind> ?confirmed
       else ret (Inr (build_config a srv ent))) (\<lambda>r. held_by uid V dev)"
    by (rule ensures_pre) (simp add: r)
qed (auto intro: ensures_ret)

lemma try_candidates_triple:
  assumes "d_id v = dev"
  shows "ensures (held_by uid V dev) (try_candidates cl v ent i last_err cands) (\<lambda>r. held_by uid V dev)"
proof (induction cands arbitrary: i last_err)
  case (Cons srv rest)
  show ?case
    unfolding try_candidates.simps assms
    by (intro ensures_if ensures_ret ensures_bind [OF provision_on_triple [OF assms]] ensures_case_sum Cons.IH
        ensures_bind [OF engine_triples(4)])
qed (auto intro: ensures_ret)

lemma device_by_id_triple:
  "ensures (safe uid V) (store_device_by_id i)
     (\<lambda>r d. safe uid V d \<and> (\<forall>v. r = Inr v \<longrightarrow> d_id v = i \<and> mine (d_user_id v) i d))"
  unfolding store_device_by_id_def
proof (rule ensures_db_call)
  fix now d
  assume s: "safe uid V d"
  have "d_id v = i \<and> mine (d_user_id v) i d" if "fst (device_by_id i d) = Inr v" for v
  proof -
    have f: "find (\<lambda>v. d_id v = i) (devices d) = Some v" using that by (auto simp: device_by_id_def split: option.splits)
    have "distinct (map d_id (devices d))" using s by (simp add: safe_def database_ok_def accounts_ok_def fresh_ids_def)
    then have "u = v" if "u \<in> set (devices d)" "d_id u = i" for u
      using that find_Some_iff_set [OF f] by (auto simp: distinct_map inj_on_def)
    then show ?thesis using find_Some_iff_set [OF f] by (auto simp: mine_def)
  qed
  with s show "(safe uid V (snd (device_by_id i d)) \<and>
      (\<forall>v. fst (device_by_id i d) = Inr v \<longrightarrow> d_id v = i \<and> mine (d_user_id v) i (snd (device_by_id i d)))) \<and>
    (safe uid V (snd (device_by_id i d)) \<and> (\<forall>v. Inl driver_error = Inr v \<longrightarrow> d_id v = i \<and> mine (d_user_id v) i (snd (device_by_id i d)))) \<and>
    (safe uid V d \<and> (\<forall>v. Inl driver_error = Inr v \<longrightarrow> d_id v = i \<and> mine (d_user_id v) i d))"
    by simp
qed

definition owner_kept where
  "owner_kept uid V dev r d \<longleftrightarrow> safe uid V d \<and> (\<not> isl r \<longrightarrow> mine uid dev d)"

lemma ensures_failed [triples]: "ensures (safe uid V) (ret (Inl e)) (owner_kept uid V dev)"
  by (rule ensures_ret) (simp add: owner_kept_def)

lemma provision_triple:
  assumes "rq_user_id req = uid"
  shows "ensures (safe uid V) (provision cl req) (owner_kept uid V (rq_device_id req))"
  unfolding provision_def assms
proof (rule ensures_bind [OF ensures_reads [OF reading_calls(1)]], intro ensures_case_sum ensures_if ensures_failed)
  let ?dev = "rq_device_id req"
  fix ent
  let ?tail = "\<lambda>v. do { rl \<leftarrow> check_device_limit uid (d_id v) (e_device_limit ent);
     case rl of Inl e \<Rightarrow> ret (Inl e)
     | Inr _ \<Rightarrow> do { rc \<leftarrow> candidates req;
         case rc of Inl e \<Rightarrow> ret (Inl e)
         | Inr cands \<Rightarrow> do { rt \<leftarrow> try_candidates cl v ent 0 None cands;
             case rt of Inr cfg \<Rightarrow> ret (Inr cfg)
             | Inl last_err \<Rightarrow> (case last_err of None \<Rightarrow> ret (Inl (Sentinel ErrNoServer))
                 | Some err \<Rightarrow> ret (Inl (edge_unavailable err))) } } }"
  have tail: "ensures (held_by uid V ?dev) (?tail v) (owner_kept uid V ?dev)" if "d_id v = ?dev" for v
    by (rule ensures_bind [OF ensures_reads [OF reading_engine(1)]], rule ensures_case_sum, rule ensures_ret,
        simp add: owner_kept_def held_by_def, rule ensures_bind [OF ensures_reads [OF reading_engine(2)]],
        rule ensures_case_sum, rule ensures_ret, simp add: owner_kept_def held_by_def,
        rule ensures_bind [OF try_candidates_triple [OF that]])
      (intro ensures_case_sum ensures_case_option ensures_ret; simp add: owner_kept_def held_by_def)
  have "ensures (\<lambda>d. safe uid V d \<and> (\<forall>v. rd = Inr v \<longrightarrow> d_id v = ?dev \<and> mine (d_user_id v) ?dev d)) (?tail v) (owner_kept uid V ?dev)"
    if "rd = Inr v" "d_user_id v = uid" for rd :: "goerr + device" and v
  proof (cases "d_id v = ?dev")
    case True
    show ?thesis by (rule ensures_pre [OF tail [OF True]]) (use that in \<open>simp add: held_by_def\<close>)
  qed (simp add: ensures_def that(1))
  then show "ensures (safe uid V)
      (do { rd \<leftarrow> store_device_by_id ?dev;
            case rd of Inl e \<Rightarrow> ret (Inl (Wrap ''device: '' e []))
            | Inr v \<Rightarrow> (if d_user_id v \<noteq> uid \<or> d_revoked_at v \<noteq> None
                then ret (Inl (Wrap ''device: '' (Sentinel ErrNotFound) [])) else ?tail v) })
      (owner_kept uid V ?dev)"
    by (intro ensures_bind [OF device_by_id_triple] ensures_case_sum ensures_if)
      (auto intro!: ensures_ret simp: owner_kept_def)
qed

section \<open>The handlers of a user\<close>

lemma own_device_triple:
  assumes "\<And>v. d_user_id v = uid \<Longrightarrow> ensures (held_by uid V (d_id v)) (act v) (\<lambda>r. safe uid V)"
  shows "ensures (safe uid V) (own_device parse_id uid ref act) (\<lambda>r. safe uid V)"
proof -
  have "ensures (safe uid V) (store_device_by_ref parse_id ref)
      (\<lambda>r d. safe uid V d \<and> (\<forall>v. r = Inr v \<longrightarrow> mine (d_user_id v) (d_id v) d))"
    unfolding store_device_by_ref_def
  proof (intro ensures_case_option)
    show "ensures (safe uid V) (db_call (\<lambda>now d. (Inl bad_uuid, d)))
        (\<lambda>r d. safe uid V d \<and> (\<forall>v. r = Inr v \<longrightarrow> mine (d_user_id v) (d_id v) d))"
      by (rule ensures_db_call) simp
    fix i
    show "ensures (safe uid V) (store_device_by_id i)
        (\<lambda>r d. safe uid V d \<and> (\<forall>v. r = Inr v \<longrightarrow> mine (d_user_id v) (d_id v) d))"
      by (rule ensures_post [OF device_by_id_triple]) auto
  qed
  then show ?thesis
    unfolding own_device_def
    by (rule ensures_bind, intro ensures_case_sum ensures_if)
      ((rule ensures_ret, simp) | (rule ensures_pre [OF assms], simp, force simp: held_by_def))+
qed

text \<open>Writes to the user's own device rows.\<close>

lemma view_devices_update:
  assumes "\<And>v. v \<in> set (devices d) \<Longrightarrow> c v \<Longrightarrow> d_user_id v = uid" and "\<And>v. d_id (f v) = d_id v \<and> d_user_id (f v) = d_user_id v"
  shows "others_view uid (d\<lparr>devices := update_where c f (devices d)\<rparr>) = others_view uid d"
proof -
  have "filter (\<lambda>v. d_user_id v \<noteq> uid) (update_where c f (devices d)) = filter (\<lambda>v. d_user_id v \<noteq> uid) (devices d)"
    by (rule filter_update_where) (simp add: assms)
  moreover have "owned_by (d\<lparr>devices := update_where c f (devices d)\<rparr>) uid = owned_by d uid"
    by (simp add: owned_by_def list_ex_update_where assms(2) fun_eq_iff)
  ultimately show ?thesis by (simp add: others_view_def)
qed

lemma device_write_views:
  assumes "mine uid dev d"
  shows "others_view uid (snd (rotate_device_key dev key d)) = others_view uid d"
    "others_view uid (snd (revoke_device now dev d)) = others_view uid d"
    "others_view uid (snd (touch_device dev now d)) = others_view uid d"
  using assms unfolding rotate_device_key_def revoke_device_def touch_device_def
  by (auto intro!: view_devices_update simp: mine_def)

lemma upsert_device_view:
  assumes "database_ok d"
  shows "others_view uid (snd (upsert_device now uid name platform key version d)) = others_view uid d"
proof (cases "find (\<lambda>v. d_public_key v = key) (devices d)")
  case (Some v)
  note v = find_Some_iff_set [OF Some]
  have "distinct (map d_public_key (devices d))" using assms by (simp add: database_ok_def accounts_ok_def)
  then have "u = v" if "u \<in> set (devices d)" "d_public_key u = key" for u
    using that v by (auto simp: distinct_map inj_on_def)
  then show ?thesis using Some v
    by (auto simp: upsert_device_def Let_def intro!: view_devices_update)
next
  case None
  let ?v = "\<lparr>d_id = next_id d, d_user_id = uid, d_name = name, d_platform = platform, d_public_key = key,
      d_app_version = nullif_empty version, d_created_at = now, d_last_seen_at = Some now, d_revoked_at = None\<rparr>"
  have fresh: "p_device_id p \<noteq> next_id d" if "p \<in> set (peers d)" for p
    using that assms by (fastforce simp: database_ok_def fleet_ok_def accounts_ok_def refers_def fresh_ids_def list_all_iff)
  have "filter (\<lambda>p. \<not> owned_by (d\<lparr>devices := devices d @ [?v], next_id := n\<rparr>) uid p) (peers d) =
      filter (\<lambda>p. \<not> owned_by d uid p) (peers d)" for n
    by (rule filter_cong) (auto simp: owned_by_def list_ex_iff dest: fresh)
  with None show ?thesis by (auto simp: upsert_device_def Let_def others_view_def)
qed

lemma device_triples:
  "ensures (held_by uid V dev) (store_rotate_device_key dev key) (\<lambda>r. safe uid V)"
  "ensures (held_by uid V dev) (store_revoke_device dev) (\<lambda>r. safe uid V)"
  "ensures (held_by uid V dev) (store_touch_device dev) (\<lambda>r. safe uid V)"
  "ensures (safe uid V) (store_upsert_device uid name platform key version) (\<lambda>r. safe uid V)"
  unfolding api_store_defs
  by (rule ensures_db_call; simp add: held_by_def safe_def device_write_views upsert_device_view whole_steps)+

section \<open>Payments of a user\<close>

definition paid_by :: "uuid \<Rightarrow> string \<Rightarrow> db \<Rightarrow> bool" where
  "paid_by uid ref d \<longleftrightarrow> (\<forall>p \<in> set (payments d). is_payment ''paystack'' ref p \<longrightarrow> py_user_id p = Some uid)"

lemma payments_view_update:
  assumes "\<And>p. p \<in> set (payments d) \<Longrightarrow> c p \<Longrightarrow>
      py_user_id (f p) = py_user_id p \<and> (py_user_id p \<noteq> Some uid \<longrightarrow> (f p)\<lparr>py_payload := []\<rparr> = p\<lparr>py_payload := []\<rparr>)"
  shows "others_view uid (d\<lparr>payments := update_where c f (payments d)\<rparr>) = others_view uid d"
proof -
  have "map (\<lambda>p. p\<lparr>py_payload := []\<rparr>) (filter (\<lambda>p. py_user_id p \<noteq> Some uid) (update_where c f ps)) =
      map (\<lambda>p. p\<lparr>py_payload := []\<rparr>) (filter (\<lambda>p. py_user_id p \<noteq> Some uid) ps)"
    if "set ps \<subseteq> set (payments d)" for ps
    using that by (induction ps) (use assms in auto)
  then show ?thesis by (simp add: others_view_def owned_by_def)
qed

lemma upsert_payment_view:
  assumes "py_user_id payment = Some uid" "py_status payment = PayPending"
  shows "others_view uid (snd (upsert_payment payment d)) = others_view uid d"
proof -
  have p: "py_user_id (payment_defaults payment) = Some uid" "py_status (payment_defaults payment) = PayPending"
    using assms by (simp_all add: payment_defaults_def)
  then show ?thesis
    by (auto simp: upsert_payment_def Let_def others_view_def [of uid "d\<lparr>payments := x, next_id := n\<rparr>" for x n] owned_by_def
        intro!: payments_view_update split: option.split) (simp_all add: others_view_def owned_by_def)
qed

lemma settle_view:
  assumes "paid_by uid ref d"
  shows "others_view uid (snd (settle_payment ''paystack'' ref payload d)) = others_view uid d \<and>
    (\<forall>s b. fst (settle_payment ''paystack'' ref payload d) = Inr (s, b) \<longrightarrow> py_user_id s = Some uid)"
proof -
  let ?c = "\<lambda>p. is_payment ''paystack'' ref p \<and> py_status p \<noteq> PaySuccess"
  have "others_view uid (d\<lparr>payments := update_where ?c (settle b) (payments d)\<rparr>) = others_view uid d" for b
    by (rule payments_view_update) (use assms in \<open>auto simp: paid_by_def\<close>)
  moreover have "py_user_id p = Some uid" if "find ?c (payments d) = Some p" for p
    using find_Some_iff_set [OF that] assms by (auto simp: paid_by_def)
  moreover have "py_user_id p = Some uid" if "find (is_payment ''paystack'' ref) (payments d) = Some p" for p
    using find_Some_iff_set [OF that] assms by (auto simp: paid_by_def)
  ultimately show ?thesis
    by (simp add: settle_payment_def payment_by_ref_def Let_def split: option.split)
qed

lemma grant_view: "others_view uid (snd (grant_time_block now uid code source d)) = others_view uid d"
  by (simp add: grant_time_block_def Let_def others_view_def owned_by_def split: option.split)

lemma payment_triples:
  "ensures (\<lambda>d. safe uid V d \<and> paid_by uid ref d) (store_settle_payment ''paystack'' ref payload)
     (\<lambda>r d. safe uid V d \<and> (\<forall>s b. r = Inr (s, b) \<longrightarrow> py_user_id s = Some uid))"
  "ensures (safe uid V) (store_grant_time_block uid code source) (\<lambda>r. safe uid V)"
  "py_user_id payment = Some uid \<Longrightarrow> py_status payment = PayPending \<Longrightarrow>
     ensures (safe uid V) (store_upsert_payment payment) (\<lambda>r. safe uid V)"
  "ensures (safe uid V) (store_payment_by_ref ''paystack'' ref)
     (\<lambda>r d. safe uid V d \<and> (\<forall>p. r = Inr p \<longrightarrow> py_user_id p = Some uid \<longrightarrow> paid_by uid ref d))"
proof -
  show "ensures (\<lambda>d. safe uid V d \<and> paid_by uid ref d) (store_settle_payment ''paystack'' ref payload)
     (\<lambda>r d. safe uid V d \<and> (\<forall>s b. r = Inr (s, b) \<longrightarrow> py_user_id s = Some uid))"
    unfolding pay_store_defs
  proof (rule ensures_db_call)
    fix now d
    assume "safe uid V d \<and> paid_by uid ref d"
    then have s: "safe uid V d" "paid_by uid ref d" by simp_all
    show "(safe uid V (snd (settle_payment ''paystack'' ref payload d)) \<and>
        (\<forall>s b. fst (settle_payment ''paystack'' ref payload d) = Inr (s, b) \<longrightarrow> py_user_id s = Some uid)) \<and>
      (safe uid V (snd (settle_payment ''paystack'' ref payload d)) \<and>
        (\<forall>s b. Inl driver_error = Inr (s, b) \<longrightarrow> py_user_id s = Some uid)) \<and>
      (safe uid V d \<and> (\<forall>s b. Inl driver_error = Inr (s, b) \<longrightarrow> py_user_id s = Some uid))"
      using s settle_view [OF s(2), of payload] by (simp add: safe_def whole_steps)
  qed
  show "ensures (safe uid V) (store_grant_time_block uid code source) (\<lambda>r. safe uid V)"
    unfolding pay_store_defs by (rule ensures_db_call) (simp add: safe_def grant_view whole_steps)
  show "ensures (safe uid V) (store_upsert_payment payment) (\<lambda>r. safe uid V)"
    if "py_user_id payment = Some uid" "py_status payment = PayPending"
    unfolding pay_store_defs by (rule ensures_db_call) (simp add: safe_def upsert_payment_view [OF that] whole_steps)
  show "ensures (safe uid V) (store_payment_by_ref ''paystack'' ref)
     (\<lambda>r d. safe uid V d \<and> (\<forall>p. r = Inr p \<longrightarrow> py_user_id p = Some uid \<longrightarrow> paid_by uid ref d))"
    unfolding pay_store_defs
  proof (rule ensures_db_call)
    fix now d
    assume s: "safe uid V d"
    have "paid_by uid ref d" if "find (is_payment ''paystack'' ref) (payments d) = Some p" "py_user_id p = Some uid" for p
    proof -
      have "distinct (map (\<lambda>p. (py_provider p, py_provider_ref p)) (payments d))"
        using s by (simp add: safe_def database_ok_def billing_ok_def)
      then have "q = p" if "q \<in> set (payments d)" "is_payment ''paystack'' ref q" for q
        using that find_Some_iff_set [OF \<open>find _ _ = Some p\<close>] by (auto simp: distinct_map inj_on_def is_payment_def)
      with that(2) show ?thesis by (auto simp: paid_by_def)
    qed
    with s show "(safe uid V (snd (payment_by_ref ''paystack'' ref d)) \<and>
        (\<forall>p. fst (payment_by_ref ''paystack'' ref d) = Inr p \<longrightarrow> py_user_id p = Some uid \<longrightarrow> paid_by uid ref (snd (payment_by_ref ''paystack'' ref d)))) \<and>
      (safe uid V (snd (payment_by_ref ''paystack'' ref d)) \<and>
        (\<forall>p. Inl driver_error = Inr p \<longrightarrow> py_user_id p = Some uid \<longrightarrow> paid_by uid ref (snd (payment_by_ref ''paystack'' ref d)))) \<and>
      (safe uid V d \<and> (\<forall>p. Inl driver_error = Inr p \<longrightarrow> py_user_id p = Some uid \<longrightarrow> paid_by uid ref d))"
      by (simp add: payment_by_ref_def split: option.split)
  qed
qed

lemma settle_charge_triple:
  assumes "ev_reference ev = ref"
  shows "ensures (\<lambda>d. safe uid V d \<and> paid_by uid ref d) (settle_charge marshal ev) (\<lambda>r. safe uid V)"
proof -
  have block: "ensures (safe uid V) (do { rg \<leftarrow> store_grant_time_block uid code ''paystack'';
      case rg of Inl e \<Rightarrow> ret (Inl (Wrap ''grant time block: '' e [])) | Inr sub \<Rightarrow> ret (Inr True) }) (\<lambda>r. safe uid V)" for code
    by (intro ensures_bind [OF payment_triples(2)] ensures_case_sum ensures_ret)
  have grant: "ensures (safe uid V) (grant_settled ev s) (\<lambda>r. safe uid V)" if "py_user_id s = Some uid" for s
    unfolding grant_settled_def Let_def that by (intro ensures_if ensures_ret) (simp_all add: block)
  have settled: "ensures (\<lambda>d. safe uid V d \<and> (\<forall>s b. rs = Inr (s, b) \<longrightarrow> py_user_id s = Some uid))
      (case rs of Inl e \<Rightarrow> ret (Inl e) | Inr (s, first) \<Rightarrow> (if \<not> first then ret (Inr False) else grant_settled ev s))
      (\<lambda>r. safe uid V)" for rs
  proof (cases rs)
    case (Inr x)
    obtain s first where x: "x = (s, first)" by (rule prod.exhaust)
    show ?thesis
    proof (cases "py_user_id s = Some uid")
      case True
      show ?thesis unfolding Inr x sum.case prod.case
        by (intro ensures_if ensures_ret ensures_pre [OF grant [OF True]]) simp_all
    qed (simp add: ensures_def Inr x)
  qed (auto intro: ensures_ret)
  show ?thesis
    unfolding settle_charge_def assms
    by (intro ensures_if ensures_bind [OF ensures_reads [OF reading_calls(8)]] ensures_case_sum ensures_ret
        ensures_bind [OF payment_triples(1)] settled) simp_all
qed

end
