(* ===== verification/OwnRows.thy ===== *)
theory OwnRows
  imports Isolation
begin

text \<open>
  The handlers behind an access token, run through the triples of \<open>Isolation\<close>, and the isolation of
  the users from each other.
\<close>

section \<open>Reading handlers\<close>

lemma only_reads_own_device: "(\<And>v. only_reads (act v)) \<Longrightarrow> only_reads (own_device parse_id uid ref act)"
  unfolding only_reads_def own_device_def store_device_by_ref_def
  by (intro reads_intros)

lemma only_reads_collect: "(\<And>x. only_reads (f x)) \<Longrightarrow> only_reads (collect xs f)"
  unfolding only_reads_def by (induction xs) (auto intro!: reads_intros)

lemma reading_handlers:
  "only_reads (handle_list_devices uid)" "only_reads (handle_tunnel_status parse_id uid ref)"
proof -
  show "only_reads (handle_list_devices uid)"
    unfolding only_reads_def handle_list_devices_def by (intro reads_intros)
  show "only_reads (handle_tunnel_status parse_id uid ref)"
    unfolding handle_tunnel_status_def device_id_required_def
    by (cases "ref = []")
      (simp_all add: only_reads_own_device only_reads_def [of "ret x" for x] keeps_ret
        preorder_on_db [OF preorder_same], auto simp: only_reads_def intro!: only_reads_own_device [unfolded only_reads_def]
          reads_intros only_reads_collect [unfolded only_reads_def])
qed

section \<open>Writing handlers\<close>

lemma delete_device_triple:
  "ensures (safe uid V) (handle_delete_device parse_id uid ref) (\<lambda>r. safe uid V)"
  unfolding handle_delete_device_def deprovision_device_def
proof (rule own_device_triple, rule ensures_bind [OF engine_triples(5)], rule ensures_on_error)
  show "ensures (held_by uid V (d_id v)) (do { rr \<leftarrow> store_revoke_device (d_id v);
      on_error rr write_domain_error (\<lambda>_. ret (Ok_reply 204 ())) }) (\<lambda>r. safe uid V)" for v
    by (intro ensures_bind [OF device_triples(2)] ensures_on_error ensures_ret)
qed (simp add: held_by_def)

lemma rotate_key_triple:
  "ensures (safe uid V) (handle_rotate_key parse_id uid ref key) (\<lambda>r. safe uid V)"
  unfolding handle_rotate_key_def
  by (intro ensures_case_option ensures_ret own_device_triple ensures_bind [OF device_triples(1)] ensures_on_error)

lemma register_device_triple:
  "ensures (safe uid V) (handle_register_device uid name platform key version) (\<lambda>r. safe uid V)"
  unfolding handle_register_device_def
  by (intro ensures_case_option ensures_ret ensures_bind [OF device_triples(4)] ensures_on_error)

lemma release_triple:
  "ensures (safe uid V) (handle_release parse_id uid ref) (\<lambda>r. safe uid V)"
  unfolding handle_release_def deprovision_device_def
  by (intro own_device_triple ensures_bind [OF engine_triples(5)] ensures_on_error ensures_ret) (simp_all add: held_by_def)

lemma handle_provision_triple:
  "ensures (safe uid V) (handle_provision cl parse_id uid ref code country) (\<lambda>r. safe uid V)"
proof (cases "parse_id ref")
  case None
  have "ensures (safe uid V) (provision_ref cl parse_id uid ref code country) (\<lambda>r. safe uid V)"
    unfolding provision_ref_def store_device_by_ref_def None option.case
    by (intro ensures_bind [OF ensures_reads [OF reading_calls(1)]] ensures_case_sum ensures_if ensures_ret
        ensures_bind [OF ensures_reads [OF reading_calls(11)]])
  then show ?thesis
    unfolding handle_provision_def touch_ref_def None option.case
    by (intro ensures_if ensures_ret) (simp, rule ensures_bind, assumption, intro ensures_on_error ensures_bind [OF ensures_ret] ensures_ret)
next
  case (Some i)
  let ?req = "\<lparr>rq_user_id = uid, rq_device_id = i, rq_server_code = code, rq_client_country = country\<rparr>"
  have touch: "ensures (owner_kept uid V i rc) (do { _ \<leftarrow> do { _ \<leftarrow> store_touch_device i; ret () }; ret (Ok_reply 200 cfg) }) (\<lambda>r. safe uid V)"
    if "rc = Inr cfg" for rc :: "goerr + tunnel_config" and cfg
    by (rule ensures_pre [of "held_by uid V i"], intro ensures_bind [OF ensures_bind [OF device_triples(3)]] ensures_ret)
      (simp_all add: that owner_kept_def held_by_def)
  have "ensures (safe uid V) (provision cl ?req) (owner_kept uid V i)"
    using provision_triple [of ?req uid V cl] by simp
  then show ?thesis
    unfolding handle_provision_def provision_ref_def touch_ref_def Some option.case
    by (intro ensures_if ensures_ret) (simp, rule ensures_bind, assumption, rule ensures_on_error, simp add: owner_kept_def, rule touch)
qed

section \<open>Payment handlers\<close>

lemma initialize_payment_triple:
  "ensures (safe uid V) (handle_initialize_payment txt fresh init uid code callback) (\<lambda>r. safe uid V)"
  unfolding handle_initialize_payment_def Let_def
  by (intro ensures_bind [OF ensures_reads [OF reading_calls(9)]] ensures_on_error ensures_if ensures_ret
      ensures_bind [OF ensures_reads [OF reading_calls(7)]] ensures_bind [OF payment_triples(3)]) simp_all

lemma verify_payment_triple:
  assumes "\<And>ev. vf ref = Inr ev \<Longrightarrow> ev_reference ev = ref"
  shows "ensures (safe uid V) (handle_verify_payment vf marshal uid ref) (\<lambda>r. safe uid V)"
proof -
  let ?tail = "\<lambda>rg. on_error rg write_domain_error (\<lambda>granted. do { re \<leftarrow> store_entitlement uid;
      on_error re write_domain_error (\<lambda>ent. ret (Ok_reply 200
        \<lparr>vb_status = ''success'', vb_granted = granted, vb_entitlement = Some ent\<rparr>)) })"
  have tail: "ensures (safe uid V) (?tail rg) (\<lambda>r. safe uid V)" for rg
    by (intro ensures_on_error ensures_bind [OF ensures_reads [OF reading_calls(1)]] ensures_ret)
  have settled: "ensures (\<lambda>d. safe uid V d \<and> paid_by uid ref d) (settle_charge marshal ev \<bind> ?tail) (\<lambda>r. safe uid V)"
    if "vf ref = Inr ev" for ev
    by (rule ensures_bind [OF settle_charge_triple [OF assms [OF that]]], rule tail)
  have owned: "ensures (\<lambda>d. safe uid V d \<and> paid_by uid ref d) (on_error (vf ref)
      (\<lambda>_. write_error 502 ''payment_provider_error'' ''could not verify the payment'') (\<lambda>ev.
        if ev_status ev \<noteq> ''success''
        then ret (Ok_reply 200 \<lparr>vb_status = ev_status ev, vb_granted = False, vb_entitlement = None\<rparr>)
        else settle_charge marshal ev \<bind> ?tail)) (\<lambda>r. safe uid V)"
    by (intro ensures_on_error ensures_if ensures_ret settled) simp_all
  have found: "ensures (\<lambda>d. safe uid V d \<and> (\<forall>p. rp = Inr p \<longrightarrow> py_user_id p = Some uid \<longrightarrow> paid_by uid ref d))
      (on_error (vf ref) (\<lambda>_. write_error 502 ''payment_provider_error'' ''could not verify the payment'') (\<lambda>ev.
        if ev_status ev \<noteq> ''success''
        then ret (Ok_reply 200 \<lparr>vb_status = ev_status ev, vb_granted = False, vb_entitlement = None\<rparr>)
        else settle_charge marshal ev \<bind> ?tail)) (\<lambda>r. safe uid V)"
    if "rp = Inr payment" "\<not> py_user_id payment \<noteq> Some uid" for rp :: "goerr + payment_row" and payment
    by (rule ensures_pre [OF owned]) (use that in simp)
  show ?thesis
    unfolding handle_verify_payment_def
    by (rule ensures_if, rule ensures_ret, assumption, rule ensures_bind [OF payment_triples(4)], rule ensures_on_error,
        simp, rule ensures_if, rule ensures_ret, simp, rule found)
qed

section \<open>The users of the API\<close>

lemma answer_db [simp]:
  "w_db (snd (run_state (answer f m) w)) = w_db (snd (run_state m w))"
  "run_state (in_world (answer f m)) s = (map_reply f (fst (run_state m (ap_world (sy_api s)))), snd (run_state (in_world m) s))"
  by (simp_all add: answer_def split: prod.splits)

lemma safe_in_world:
  assumes "ensures (safe uid V) m (\<lambda>r. safe uid V)" and "safe uid V (sy_db s)"
  shows "safe uid V (sy_db (snd (run_state (in_world m) s)))"
  using assms by (simp add: ensures_def sy_db_def)

lemma ensures_answer: "ensures P m (\<lambda>r. Q) \<Longrightarrow> ensures P (answer f m) (\<lambda>r. Q)"
  unfolding answer_def by (intro ensures_bind ensures_ret)

lemma ensures_decode: "(\<And>x. ensures P (act x) (\<lambda>r. P)) \<Longrightarrow> ensures P (decode_json dec raw act) (\<lambda>r. P)"
  unfolding decode_json_def by (intro ensures_case_option ensures_ret)

lemma on_world_db: "sy_db (snd (run_state (on_api_state (answer f (on_world m))) s)) = w_db (snd (run_state m (ap_world (sy_api s))))"
  by (simp add: answer_def sy_db_def split: prod.splits)

lemma me_db: "sy_db (snd (run_state (on_api_state (answer f (handle_me uid))) s)) = sy_db s"
proof -
  let ?m = "do { ru \<leftarrow> store_user_by_id uid;
     on_error ru write_domain_error (\<lambda>user. do {
       re \<leftarrow> store_entitlement uid;
       on_error re write_domain_error (\<lambda>ent. do {
         rd \<leftarrow> store_devices_by_user uid;
         on_error rd write_domain_error (\<lambda>ds.
           ret (Ok_reply 200 \<lparr>me_id = u_id user, me_email = coalesce (u_email user) [], me_phone = coalesce (u_phone user) [],
             me_created_at = u_created_at user, me_subscription = view_entitlement ent, me_devices = map view_device ds\<rparr>))
       }) }) }"
  have "only_reads ?m" unfolding only_reads_def by (intro reads_intros)
  then show ?thesis
    unfolding handle_me_def unfolding on_world_db unfolding sy_db_def only_reads_def keeps_def on_db_def by (rule spec)
qed

lemma user_endpoint_safe:
  assumes s: "safe uid V (sy_db s)" and honest: "\<And>ref ev. sv_verify env ref = Inr ev \<Longrightarrow> ev_reference ev = ref"
  shows "safe uid V (sy_db (snd (run_state (user_endpoint env random rq arg uid ep) s)))"
proof -
  note kept = safe_in_world [OF _ s] ensures_decode ensures_answer delete_device_triple rotate_key_triple
    register_device_triple release_triple handle_provision_triple initialize_payment_triple
    verify_payment_triple [OF honest] ensures_reads [OF reading_handlers(1)] ensures_reads [OF reading_handlers(2)]
  show ?thesis
    by (cases ep; hypsubst; unfold user_endpoint.simps no_endpoint_def case_prod_beta)
      ((rule kept; intro kept; assumption?) | (simp only: me_db s) | (simp add: s))+
qed

text \<open>
  C5 (requests_touch_own_rows_only). A user cannot reach into another user's data: in every database the
  system can get into, a request carrying an access token of user \<open>uid\<close>, whatever its method, path,
  body, device identifiers and payment references, and however its store and edge calls fail, leaves
  users, plans, servers, refresh tokens and webhook receipts as they are, and with them every device,
  subscription, payment and assignment that is not the user's own; only the payload recorded on another
  user's payment is not covered. Paystack is relied on to answer a verification with the reference it
  was asked for.
\<close>

theorem requests_touch_own_rows_only:
  assumes "reachable env s" and "find_route (cq_method rq) (cq_path rq) = Inr (User, ep, arg)"
    and "verify (se_signer (sv_session env)) (w_now (ap_world (sy_api s))) (bearer_token (cq_authorization rq)) = Inr c"
    and "sv_parse_id env (cl_subject c) = Some uid"
    and "\<And>ref ev. sv_verify env ref = Inr ev \<Longrightarrow> ev_reference ev = ref"
  shows "others_view uid (sy_db (snd (run_state (serve_http env random rq) s))) = others_view uid (sy_db s)"
proof -
  have ok: "safe uid (others_view uid (sy_db s)) (sy_db s)"
    using reachable_inv [OF database_ok_migrated whole.program.happening assms(1)] by (simp add: safe_def)
  show ?thesis
  proof (cases "bearer_token (cq_authorization rq) = []")
    case True
    then show ?thesis using assms(2) by (simp add: serve_http_def as_user_def authenticated_def Let_def)
  next
    case False
    then have "run_state (serve_http env random rq) s = run_state (user_endpoint env random rq arg uid ep) s"
      using assms(2-4) by (simp add: serve_http_def as_user_def authenticated_def Let_def)
    then show ?thesis using user_endpoint_safe [OF ok assms(5)] by (simp add: safe_def)
  qed
qed

end
