(* ===== verification/PaidTime.thy ===== *)
theory PaidTime
  imports StoreRelation Frames
begin

text \<open>
  Time for money: the blocks a user holds from Paystack are matched by settled payments of the same user
  for the same plan, in every history of the system.
\<close>

text \<open>Payments name a user and a plan, and no plan is nameless.\<close>

definition payers_ok :: "db \<Rightarrow> bool" where
  "payers_ok d \<longleftrightarrow> list_all (\<lambda>l. pl_code l \<noteq> []) (plans d) \<and>
     list_all (\<lambda>p. py_user_id p \<noteq> None \<and> coalesce (py_plan_code p) [] \<noteq> []) (payments d)"

definition bought :: "uuid \<Rightarrow> string \<Rightarrow> db \<Rightarrow> nat" where
  "bought uid code d = length (filter (\<lambda>s. sb_user_id s = uid \<and> sb_plan_code s = code \<and> sb_source s = ''paystack'') (subscriptions d))"

definition paid_by_user :: "uuid \<Rightarrow> string \<Rightarrow> payment_row \<Rightarrow> bool" where
  "paid_by_user uid code p \<longleftrightarrow> py_status p = PaySuccess \<and> py_user_id p = Some uid \<and> coalesce (py_plan_code p) [] = code"

definition paid :: "uuid \<Rightarrow> string \<Rightarrow> db \<Rightarrow> nat" where
  "paid uid code d = length (filter (paid_by_user uid code) (payments d))"

text \<open>Blocks never get ahead of payments.\<close>

definition funded :: "db \<Rightarrow> db \<Rightarrow> bool" where
  "funded d d' \<longleftrightarrow> (payers_ok d \<longrightarrow> payers_ok d' \<and>
     (\<forall>uid code. bought uid code d' + paid uid code d \<le> bought uid code d + paid uid code d'))"

lemma preorder_funded: "preorder funded"
  unfolding preorder_def
proof (intro conjI allI impI)
  fix a b c
  assume ab: "funded a b" and bc: "funded b c"
  show "funded a c"
    unfolding funded_def
  proof (intro impI conjI allI)
    assume a: "payers_ok a"
    then show "payers_ok c" using ab bc by (simp add: funded_def)
    fix uid code
    from a ab bc have "bought uid code b + paid uid code a \<le> bought uid code a + paid uid code b"
      "bought uid code c + paid uid code b \<le> bought uid code b + paid uid code c"
      unfolding funded_def by blast+
    then show "bought uid code c + paid uid code a \<le> bought uid code a + paid uid code c" by linarith
  qed
qed (simp add: funded_def)

lemma funded_frame: "plans d' = plans d \<Longrightarrow> payments d' = payments d \<Longrightarrow> subscriptions d' = subscriptions d \<Longrightarrow> funded d d'"
  by (simp add: funded_def payers_ok_def bought_def paid_def)

lemma funded_free: "source \<noteq> ''paystack'' \<Longrightarrow> funded d (snd (grant_time_block now uid code source d))"
  by (auto simp: grant_time_block_def Let_def funded_def payers_ok_def bought_def paid_def split: option.split)

text \<open>Updating payments without unsettling one.\<close>

lemma filter_update_mono:
  "(\<And>r. r \<in> set rs \<Longrightarrow> c r \<Longrightarrow> P r \<Longrightarrow> P (f r)) \<Longrightarrow> length (filter P rs) \<le> length (filter P (update_where c f rs))"
proof (induction rs)
  case (Cons r rs)
  have "length (filter P rs) \<le> length (filter P (update_where c f rs))" by (rule Cons.IH) (simp add: Cons.prems)
  then show ?case using Cons.prems [of r] by auto
qed simp

lemma filter_update_gain:
  assumes "\<And>r. r \<in> set rs \<Longrightarrow> c r \<Longrightarrow> P r \<Longrightarrow> P (f r)" and "r \<in> set rs" "c r" "\<not> P r" "P (f r)"
  shows "length (filter P rs) < length (filter P (update_where c f rs))"
  using assms
proof (induction rs)
  case (Cons x rs)
  have mono: "length (filter P rs) \<le> length (filter P (update_where c f rs))"
    by (rule filter_update_mono) (simp add: Cons.prems(1))
  show ?case
  proof (cases "x = r")
    case True
    with mono Cons.prems show ?thesis by auto
  next
    case False
    then have "length (filter P rs) < length (filter P (update_where c f rs))"
      using Cons.prems by (intro Cons.IH) auto
    then show ?thesis using Cons.prems(1) [of x] by auto
  qed
qed simp

lemma funded_payments:
  assumes "\<And>p. p \<in> set (payments d) \<Longrightarrow> c p \<Longrightarrow> py_user_id (f p) = py_user_id p \<and> py_plan_code (f p) = py_plan_code p \<and>
      (py_status p = PaySuccess \<longrightarrow> py_status (f p) = PaySuccess)"
  shows "funded d (d\<lparr>payments := update_where c f (payments d)\<rparr>)"
proof -
  have "paid uid code d \<le> paid uid code (d\<lparr>payments := update_where c f (payments d)\<rparr>)" for uid code
    using assms by (auto simp: paid_def paid_by_user_def intro!: filter_update_mono)
  moreover have "payers_ok d \<Longrightarrow> payers_ok (d\<lparr>payments := update_where c f (payments d)\<rparr>)"
    using assms by (auto simp: payers_ok_def list_all_iff set_update_where)
  ultimately show ?thesis by (simp add: funded_def bought_def)
qed

lemma funded_upsert_payment: "funded d (snd (upsert_payment payment d))"
proof (cases "find (is_payment (py_provider (payment_defaults payment)) (py_provider_ref (payment_defaults payment))) (payments d)")
  case (Some q)
  then show ?thesis
    using preorder_funded by (auto simp: upsert_payment_def Let_def preorder_def intro!: funded_payments)
next
  case None
  let ?p = "payment_defaults payment"
  have "payers_ok (d\<lparr>payments := payments d @ [?p\<lparr>py_id := i\<rparr>], next_id := n\<rparr>)"
    if "payers_ok d" "py_user_id ?p \<noteq> None" "list_ex (\<lambda>l. Some (pl_code l) = py_plan_code ?p) (plans d)" for i n
    using that by (auto simp: payers_ok_def list_ex_iff list_all_iff coalesce_def dest!: sym [of "Some _"] split: option.split)
  with None show ?thesis
    by (auto simp: upsert_payment_def Let_def funded_def bought_def paid_def)
qed

lemma funded_settle_payment: "funded d (snd (settle_payment provider ref payload d))"
proof -
  let ?c = "\<lambda>p. is_payment provider ref p \<and> py_status p \<noteq> PaySuccess"
  have "funded d (d\<lparr>payments := update_where ?c (settle b) (payments d)\<rparr>)" for b
    by (rule funded_payments) (simp add: settle_def)
  then show ?thesis
    using preorder_funded by (auto simp: settle_payment_def payment_by_ref_def Let_def preorder_def split: option.split)
qed

text \<open>The one grant for money: the settlement before it has added the payment.\<close>

lemma funded_settled_grant:
  assumes "fst (settle_payment provider ref payload d) = Inr (settled, True)"
    and "py_user_id settled \<in> {None, Some uid}" "coalesce (py_plan_code settled) [] \<in> {[], code}"
  shows "funded d (snd (grant_time_block now uid code ''paystack'' (snd (settle_payment provider ref payload d))))"
proof -
  let ?c = "\<lambda>p. is_payment provider ref p \<and> py_status p \<noteq> PaySuccess"
  let ?b = "if payload = [] then ''{}'' else payload"
  obtain p where p: "find ?c (payments d) = Some p" and s: "settled = settle ?b p"
    using assms(1) by (auto simp: settle_payment_def payment_by_ref_def Let_def split: option.splits)
  note found = find_Some_iff_set [OF p]
  define d1 where "d1 = d\<lparr>payments := update_where ?c (settle ?b) (payments d)\<rparr>"
  have run: "snd (settle_payment provider ref payload d) = d1" by (simp add: settle_payment_def p Let_def d1_def)
  have f: "funded d d1" using funded_settle_payment [of d provider ref payload] unfolding run .
  show ?thesis
    unfolding run funded_def
  proof (intro impI conjI allI)
    assume ok: "payers_ok d"
    then have ok1: "payers_ok d1" using f by (simp add: funded_def)
    then show "payers_ok (snd (grant_time_block now uid code ''paystack'' d1))"
      by (simp add: payers_ok_def frames)
    have "py_user_id p \<noteq> None \<and> coalesce (py_plan_code p) [] \<noteq> []"
      using ok found by (auto simp: payers_ok_def list_all_iff)
    with assms(2,3) s have mine: "py_user_id p = Some uid" "coalesce (py_plan_code p) [] = code" by (auto simp: settle_def)
    fix u c
    let ?d2 = "snd (grant_time_block now uid code ''paystack'' d1)"
    have pays: "paid u c ?d2 = paid u c d1" by (simp add: paid_def frames)
    have base: "bought u c d1 = bought u c d" "paid u c d \<le> paid u c d1"
      by (simp_all add: bought_def d1_def) (auto simp: paid_def paid_by_user_def settle_def intro!: filter_update_mono)
    show "bought u c ?d2 + paid u c d \<le> bought u c d + paid u c ?d2"
    proof (cases "u = uid \<and> c = code")
      case True
      have "paid u c d < paid u c d1"
        unfolding paid_def d1_def using found mine True
        by (auto intro!: filter_update_gain [where r = p] simp: paid_by_user_def settle_def)
      moreover have "bought u c ?d2 \<le> Suc (bought u c d1)"
        by (auto simp: grant_time_block_def Let_def bought_def split: option.split)
      ultimately show ?thesis using base pays by simp
    next
      case False
      have "bought u c ?d2 = bought u c d1"
        using False by (auto simp: grant_time_block_def Let_def bought_def find_Some_iff split: option.split)
      with base pays show ?thesis by simp
    qed
  qed
qed

interpretation funds: program_relation funded
proof unfold_locales
  fix d now uid code source
  assume "source \<noteq> ''paystack''"
  then show "funded d (snd (grant_time_block now uid code source d))" by (rule funded_free)
next
  fix provider i_text payload d settled uid code now
  assume "fst (settle_payment provider i_text payload d) = Inr (settled, True)" "py_user_id settled \<in> {None, Some uid}"
    "coalesce (py_plan_code settled) [] \<in> {[], code}"
  then show "funded d (snd (grant_time_block now uid code ''paystack'' (snd (settle_payment provider i_text payload d))))"
    by (rule funded_settled_grant)
qed (rule preorder_funded | rule funded_upsert_payment | rule funded_settle_payment | rule funded_frame; simp add: frames)+

text \<open>
  C6 (paid_time_is_paid_for). In every state the system can reach, whoever sends whatever webhooks and
  verifications in whatever order, and whichever store calls fail: a user holds at most as many time
  blocks of a plan from Paystack as there are settled payments of this user for this plan.
\<close>

theorem paid_time_is_paid_for:
  assumes "reachable env s"
  shows "bought uid code (sy_db s) \<le> paid uid code (sy_db s)"
proof -
  let ?P = "\<lambda>d. payers_ok d \<and> (\<forall>uid code. bought uid code d \<le> paid uid code d)"
  have step: "inv_rel ?P d d'" if "funded d d'" for d d'
    unfolding inv_rel_def
  proof (intro impI conjI allI)
    assume P: "?P d"
    then show "payers_ok d'" using that by (simp add: funded_def)
    fix uid code
    have "bought uid code d' + paid uid code d \<le> bought uid code d + paid uid code d'" "bought uid code d \<le> paid uid code d"
      using that P unfolding funded_def by blast+
    then show "bought uid code d' \<le> paid uid code d'" by linarith
  qed
  have kept: "keeps (on_sy (inv_rel ?P)) (happen env ev)" for ev
    using funds.happening [of env ev] unfolding keeps_def on_sy_def by (simp add: step)
  have "?P migrated_db"
    by (auto simp: payers_ok_def migrated_db_def initial_plans_def mk_plan_def bought_def)
  then have "?P (sy_db s)" by (rule reachable_inv [OF _ kept assms])
  then show ?thesis by blast
qed

end
