(* ===== verification/Interleaving.thy ===== *)
theory Interleaving
  imports Consistency
begin

text \<open>
  Requests, passes and background jobs of several processes run at the same time; what they share is the
  database, and a store operation is the unit in which they take turns. Every event of \<open>System\<close> is a
  sequence of such operations, and no sequence of them, from whichever requests they come, breaks the
  invariant.
\<close>

inductive store_step :: "db \<Rightarrow> db \<Rightarrow> bool" where
  "store_step d (snd (create_user now email phone hash d))"
| "store_step d (snd (create_refresh_token uid dev_opt hash expires d))"
| "store_step d (snd (rotate_refresh_token now old_hash new_hash expires d))"
| "store_step d (snd (revoke_refresh_token now hash d))"
| "store_step d (snd (upsert_device now uid name platform key version d))"
| "store_step d (snd (rotate_device_key dev key d))"
| "store_step d (snd (revoke_device now dev d))"
| "store_step d (snd (touch_device dev now d))"
| "store_step d (snd (upsert_server row d))"
| "store_step d (snd (set_server_status code status d))"
| "store_step d (snd (ensure_assignment now dev srv key d))"
| "store_step d (snd (mark_applied now i revn d))"
| "store_step d (snd (mark_revoked now i revn d))"
| "store_step d (snd (mark_attempt_failed i cause retry_at d))"
| "store_step d (snd (revoke_where c now d))"
| "store_step d (snd (grant_time_block now uid code source d))"
| "store_step d (snd (record_webhook_event provider i_text kind payload d))"
| "store_step d (snd (mark_webhook_handled now provider i_text d))"
| "store_step d (snd (upsert_payment payment d))"
| "store_step d (snd (settle_payment provider i_text payload d))"

text \<open>The events are made of these steps.\<close>

interpretation steps: store_relation "rtranclp store_step"
proof unfold_locales
  show "preorder (rtranclp store_step)" by (auto simp: preorder_def)
qed (rule r_into_rtranclp, rule store_step.intros)+

lemma events_are_steps: "rtranclp store_step (sy_db s) (sy_db (snd (run_state (happen env ev) s)))"
  using steps.program.happening [of env ev] by (simp add: keeps_def on_sy_def)

lemma reachable_by_steps: "reachable env s \<Longrightarrow> rtranclp store_step migrated_db (sy_db s)"
proof (induction rule: reachable.induct)
  case (start w)
  then show ?case by (simp add: sy_db_def start_system_def new_server_def)
next
  case (event s ev)
  from event.IH events_are_steps show ?case by (rule rtranclp_trans)
qed

lemma step_keeps_database: "store_step d d' \<Longrightarrow> inv_rel database_ok d d'"
  by (induction rule: store_step.induct)
    (rule whole.create_user whole.create_refresh_token whole.rotate_refresh_token whole.revoke_refresh_token
      whole.upsert_device whole.rotate_device_key whole.revoke_device whole.touch_device whole.upsert_server
      whole.set_server_status whole.ensure_assignment whole.mark_applied whole.mark_revoked whole.mark_attempt_failed
      whole.revoke_where whole.grant_time_block whole.record_webhook_event whole.mark_webhook_handled
      whole.upsert_payment whole.settle_payment)+


end
