(* ===== verification/Wg.thy ===== *)
theory Wg
  imports Addresses Base64 "HOL-Library.AList"
begin

text \<open>
  \<open>edge/internal/wg/wg.go\<close>: the edge agent's driver of the WireGuard interface. The \<open>wg\<close> and
  \<open>wg-quick\<close> programs are the runner of the client, a function on the state \<open>'w\<close> of the machine; what
  they are documented to do to the peer table is stated by \<open>tools_ok\<close> in \<open>WgLaws\<close>.
\<close>

section \<open>Steps that may fail\<close>

text \<open>\<open>if err != nil { return err }\<close> after a call, and a loop that stops at the first error.\<close>

definition and_then ::
  "('s, goerr + 'a) state \<Rightarrow> ('a \<Rightarrow> ('s, goerr + 'b) state) \<Rightarrow> ('s, goerr + 'b) state" where
  "and_then m f = do { r \<leftarrow> m; case r of Inl e \<Rightarrow> ret (Inl e) | Inr x \<Rightarrow> f x }"

fun each_ok :: "'x list \<Rightarrow> ('x \<Rightarrow> ('s, goerr + unit) state) \<Rightarrow> ('s, goerr + unit) state" where
  "each_ok [] f = ret (Inr ())"
| "each_ok (x # xs) f = and_then (f x) (\<lambda>_. each_ok xs f)"

section \<open>Validation\<close>

definition validate_key :: "string \<Rightarrow> goerr + string" where
  "validate_key key =
     (if length key \<noteq> 44 then Inl (Sentinel ErrInvalidKey)
      else case b64_decode key of
        None \<Rightarrow> Inl (Sentinel ErrInvalidKey)
      | Some raw \<Rightarrow> (if length raw \<noteq> 32 then Inl (Sentinel ErrInvalidKey) else Inr (b64_encode raw)))"

text \<open>The unspecified address is \<open>0.0.0.0\<close>; the multicast range is \<open>224.0.0.0/4\<close>.\<close>

definition validate_ip :: "string \<Rightarrow> goerr + ipv4" where
  "validate_ip addr =
     (case parse_addr4 addr of
        None \<Rightarrow> Inl (Sentinel ErrInvalidIP)
      | Some ip \<Rightarrow>
          (if ip = 0 \<or> uint ip div 268435456 = 14 then Inl (Sentinel ErrInvalidIP) else Inr ip))"

section \<open>The client\<close>

text \<open>The invocations of the two programs, and the argument lists the code spells out.\<close>

datatype wg_cmd = SetAllowed string ipv4 | RemoveCmd string | DumpCmd | ShowCmd | SaveCmd

fun argv :: "string \<Rightarrow> wg_cmd \<Rightarrow> string list" where
  "argv i (SetAllowed key ip) = [''wg'', ''set'', i, ''peer'', key, ''allowed-ips'', addr_text ip @ ''/32'']"
| "argv i (RemoveCmd key) = [''wg'', ''set'', i, ''peer'', key, ''remove'']"
| "argv i DumpCmd = [''wg'', ''show'', i, ''dump'']"
| "argv i ShowCmd = [''wg'', ''show'', i]"
| "argv i SaveCmd = [''wg-quick'', ''save'', i]"

record 'w wg_client =
  wc_interface :: string
  wc_persist :: bool
  wc_runner :: "string list \<Rightarrow> 'w \<Rightarrow> (goerr + string) \<times> 'w"

definition wg_new :: "(string list \<Rightarrow> 'w \<Rightarrow> (goerr + string) \<times> 'w) \<Rightarrow> string \<Rightarrow> 'w wg_client" where
  "wg_new exec iface = \<lparr>wc_interface = iface, wc_persist = True, wc_runner = exec\<rparr>"

text \<open>A peer; the zero \<open>netip.Addr\<close>, which is not valid, is \<open>None\<close>.\<close>

record wg_peer =
  wp_public_key :: string
  wp_tunnel_ip :: "ipv4 option"

definition wg_run :: "'w wg_client \<Rightarrow> wg_cmd \<Rightarrow> ('w, goerr + string) state" where
  "wg_run c cmd = State (wc_runner c (argv (wc_interface c) cmd))"

definition wg_save :: "'w wg_client \<Rightarrow> ('w, goerr + unit) state" where
  "wg_save c =
     (if \<not> wc_persist c then ret (Inr ())
      else do {
        r \<leftarrow> wg_run c SaveCmd;
        case r of Inl e \<Rightarrow> ret (Inl (Wrap ''persist config: '' e [])) | Inr _ \<Rightarrow> ret (Inr ())
      })"

definition wg_remove :: "'w wg_client \<Rightarrow> string \<Rightarrow> ('w, goerr + unit) state" where
  "wg_remove c key = and_then (wg_run c (RemoveCmd key)) (\<lambda>_. ret (Inr ()))"

definition wg_set :: "'w wg_client \<Rightarrow> string \<Rightarrow> ipv4 \<Rightarrow> ('w, goerr + unit) state" where
  "wg_set c key ip = and_then (wg_run c (SetAllowed key ip)) (\<lambda>_. ret (Inr ()))"

definition drop_replaced :: "'w wg_client \<Rightarrow> string \<Rightarrow> string \<Rightarrow> ('w, goerr + unit) state" where
  "drop_replaced c key replaces =
     (if replaces \<noteq> [] \<and> replaces \<noteq> key
      then (case validate_key replaces of
              Inl e \<Rightarrow> ret (Inl (Wrap ''replaces: '' e []))
            | Inr old \<Rightarrow> wg_remove c old)
      else ret (Inr ()))"

definition set_peer :: "'w wg_client \<Rightarrow> wg_peer \<Rightarrow> string \<Rightarrow> ('w, goerr + unit) state" where
  "set_peer c peer replaces =
     (case validate_key (wp_public_key peer) of
        Inl e \<Rightarrow> ret (Inl e)
      | Inr key \<Rightarrow>
          (case wp_tunnel_ip peer of
             None \<Rightarrow> ret (Inl (Sentinel ErrInvalidIP))
           | Some ip \<Rightarrow>
               and_then (drop_replaced c key replaces) (\<lambda>_.
               and_then (wg_set c key ip) (\<lambda>_.
               wg_save c))))"

definition remove_wg_peer :: "'w wg_client \<Rightarrow> string \<Rightarrow> ('w, goerr + unit) state" where
  "remove_wg_peer c public_key =
     (case validate_key public_key of
        Inl e \<Rightarrow> ret (Inl e)
      | Inr key \<Rightarrow> and_then (wg_remove c key) (\<lambda>_. wg_save c))"

text \<open>\<open>ListPeers\<close>: a line of the dump, and the map it builds; an address that is not IPv4 is no address.\<close>

definition allowed_addr :: "string \<Rightarrow> ipv4 option" where
  "allowed_addr s = map_option fst (parse_prefix4 (hd (split_on (CHR 0x2C) s)))"

definition dump_line :: "string \<Rightarrow> (string \<times> ipv4 option) list \<Rightarrow> (string \<times> ipv4 option) list" where
  "dump_line line m =
     (if trim_space line = [] then m
      else let fields = split_on (CHR 0x09) line in
        if length fields < 4 then m
        else AList.update (fields ! 0) (allowed_addr (fields ! 3)) m)"

definition parse_dump :: "string \<Rightarrow> (string \<times> ipv4 option) list" where
  "parse_dump out = fold dump_line (tl (split_on (CHR 0x0A) (trim_space out))) []"

definition list_peers :: "'w wg_client \<Rightarrow> ('w, goerr + (string \<times> ipv4 option) list) state" where
  "list_peers c = and_then (wg_run c DumpCmd) (\<lambda>out. ret (Inr (parse_dump out)))"

text \<open>The \<open>want\<close> map of \<open>Sync\<close>: a later entry for a key overrides an earlier one.\<close>

fun want_map :: "wg_peer list \<Rightarrow> (string \<times> ipv4) list \<Rightarrow> goerr + (string \<times> ipv4) list" where
  "want_map [] m = Inr m"
| "want_map (p # ps) m =
     (case validate_key (wp_public_key p) of
        Inl e \<Rightarrow> Inl e
      | Inr key \<Rightarrow>
          (case wp_tunnel_ip p of
             None \<Rightarrow> Inl (Sentinel ErrInvalidIP)
           | Some ip \<Rightarrow> want_map ps (AList.update key ip m)))"

text \<open>Go visits the keys of a map in an order of its own: \<open>order\<close> is any such choice.\<close>

definition sync_wg ::
  "(string list \<Rightarrow> string list) \<Rightarrow> 'w wg_client \<Rightarrow> wg_peer list \<Rightarrow> ('w, goerr + unit) state" where
  "sync_wg order c ps =
     and_then (list_peers c) (\<lambda>current.
       case want_map ps [] of
         Inl e \<Rightarrow> ret (Inl e)
       | Inr want \<Rightarrow>
           and_then (each_ok (order (map fst current)) (\<lambda>key.
             if map_of want key = None then wg_remove c key else ret (Inr ()))) (\<lambda>_.
           and_then (each_ok (order (map fst want)) (\<lambda>key.
             if map_of current key = Some (map_of want key) then ret (Inr ())
             else wg_set c key (the (map_of want key)))) (\<lambda>_.
           wg_save c)))"

definition wg_up :: "'w wg_client \<Rightarrow> ('w, bool) state" where
  "wg_up c = do { r \<leftarrow> wg_run c ShowCmd; ret (\<not> isl r) }"

definition wg_peer_count :: "'w wg_client \<Rightarrow> ('w, int) state" where
  "wg_peer_count c = do {
     r \<leftarrow> list_peers c;
     ret (case r of Inl e \<Rightarrow> -1 | Inr m \<Rightarrow> int (length m)) }"

section \<open>Running a program\<close>

fun join :: "string \<Rightarrow> string list \<Rightarrow> string" where
  "join sep [] = []"
| "join sep [x] = x"
| "join sep (x # y # ys) = x @ sep @ join sep (y # ys)"

definition redact_arg :: "string \<Rightarrow> string" where
  "redact_arg a = (if length a = 44 \<and> has_suffix a ''='' then ''<key>'' else a)"

definition redact_args :: "string list \<Rightarrow> string" where
  "redact_args args = join '' '' (map redact_arg args)"

text \<open>
  \<open>os\<close> runs a program: its standard error with the error of \<open>cmd.Run\<close>, or its output. The first
  element of the list is the program's name.
\<close>

definition exec_command ::
  "(string list \<Rightarrow> 'w \<Rightarrow> (string \<times> goerr + string) \<times> 'w) \<Rightarrow> string list \<Rightarrow> 'w \<Rightarrow> (goerr + string) \<times> 'w" where
  "exec_command os cmd w =
     (case os cmd w of
        (Inl (err_out, e), w') \<Rightarrow>
          (let msg = trim_space err_out;
               text = (if msg = [] then err_text e else msg)
           in (Inl (Sentinel (OtherError (hd cmd @ '' '' @ redact_args (tl cmd) @ '': '' @ text))), w'))
      | (Inr out, w') \<Rightarrow> (Inr out, w'))"

end
