(* ===== verification/Agent.thy ===== *)
theory Agent
  imports Wg
begin

text \<open>
  \<open>edge/internal/agent/agent.go\<close>: the HTTP handlers of the edge agent over the driver of \<open>Wg\<close>. A
  request carries its JSON body as a decoded value (\<open>None\<close> where it is no JSON); the mutex is the
  atomicity of one handler. The file system and the random source are parameters.
\<close>

section \<open>JSON objects\<close>

text \<open>
  Decoding into a struct field: a missing field or \<open>null\<close> leaves the zero value, a value of another
  type is an error. Field names are spelled exactly.
\<close>

fun string_value :: "any option \<Rightarrow> string option" where
  "string_value None = Some []"
| "string_value (Some ANil) = Some []"
| "string_value (Some (AString s)) = Some s"
| "string_value _ = None"

fun int_value :: "any option \<Rightarrow> int option" where
  "int_value None = Some 0"
| "int_value (Some ANil) = Some 0"
| "int_value (Some (AInt n)) = Some n"
| "int_value (Some (AInt64 n)) = Some n"
| "int_value _ = None"

fun bool_value :: "any option \<Rightarrow> bool option" where
  "bool_value None = Some False"
| "bool_value (Some ANil) = Some False"
| "bool_value (Some (ABool b)) = Some b"
| "bool_value _ = None"

fun slice_value :: "any option \<Rightarrow> any list option" where
  "slice_value None = Some []"
| "slice_value (Some ANil) = Some []"
| "slice_value (Some (ASlice xs)) = Some xs"
| "slice_value _ = None"

fun fields_of :: "any \<Rightarrow> (string \<times> any) list option" where
  "fields_of (AMap m) = Some m"
| "fields_of ANil = Some []"
| "fields_of _ = None"

fun map_all :: "('x \<Rightarrow> 'y option) \<Rightarrow> 'x list \<Rightarrow> 'y list option" where
  "map_all f [] = Some []"
| "map_all f (x # xs) =
     (case f x of None \<Rightarrow> None | Some y \<Rightarrow> (case map_all f xs of None \<Rightarrow> None | Some ys \<Rightarrow> Some (y # ys)))"

section \<open>Requests and replies\<close>

record peer_request =
  pq_public_key :: string
  pq_tunnel_ip :: string
  pq_revision :: int
  pq_replaces :: string

definition decode_peer :: "any \<Rightarrow> peer_request option" where
  "decode_peer j =
     (case fields_of j of
        None \<Rightarrow> None
      | Some m \<Rightarrow>
          (case (string_value (map_of m ''public_key''), string_value (map_of m ''tunnel_ip''),
                 int_value (map_of m ''revision''), string_value (map_of m ''replaces'')) of
             (Some k, Some ip, Some n, Some old) \<Rightarrow>
               Some \<lparr>pq_public_key = k, pq_tunnel_ip = ip, pq_revision = n, pq_replaces = old\<rparr>
           | _ \<Rightarrow> None))"

definition decode_peer_set :: "any \<Rightarrow> peer_request list option" where
  "decode_peer_set j =
     (case fields_of j of
        None \<Rightarrow> None
      | Some m \<Rightarrow> (case slice_value (map_of m ''peers'') of None \<Rightarrow> None | Some xs \<Rightarrow> map_all decode_peer xs))"

text \<open>A request as the agent sees it, and a reply.\<close>

record http_request =
  hr_method :: string
  hr_base :: string
  hr_path :: string
  hr_authorization :: string
  hr_body :: "any option"

record agent_reply =
  ar_status :: int
  ar_body :: any

definition reply_json :: "int \<Rightarrow> any \<Rightarrow> agent_reply" where
  "reply_json status body = \<lparr>ar_status = status, ar_body = body\<rparr>"

definition error_json :: "string \<Rightarrow> any" where
  "error_json msg = AMap [(''error'', AString msg)]"

definition bad_request :: "string \<Rightarrow> agent_reply" where
  "bad_request msg = reply_json 400 (error_json msg)"

definition decode_body :: "(any \<Rightarrow> 'x option) \<Rightarrow> any option \<Rightarrow> ('x \<Rightarrow> ('w, agent_reply) state) \<Rightarrow> ('w, agent_reply) state" where
  "decode_body dec body next_step =
     (case (case body of None \<Rightarrow> None | Some j \<Rightarrow> dec j) of
        None \<Rightarrow> ret (bad_request ''could not parse body'')
      | Some x \<Rightarrow> next_step x)"

section \<open>The agent\<close>

record 'w agent =
  ag_wg :: "'w wg_client"
  ag_token :: string
  ag_instance_id :: string
  ag_version :: string

definition new_agent ::
  "(string list \<Rightarrow> 'w \<Rightarrow> (goerr + string) \<times> 'w) \<Rightarrow> string \<Rightarrow> string \<Rightarrow> string \<Rightarrow> goerr + string \<Rightarrow> goerr + 'w agent" where
  "new_agent exec iface token version instance_id =
     (if token = [] then Inl (Sentinel (OtherError ''agent: token is required''))
      else case instance_id of
        Inl e \<Rightarrow> Inl e
      | Inr i \<Rightarrow> Inr \<lparr>ag_wg = wg_new exec iface, ag_token = token, ag_instance_id = i, ag_version = version\<rparr>)"

text \<open>\<open>authed\<close>: whether the request may proceed.\<close>

definition authed :: "'w agent \<Rightarrow> string \<Rightarrow> bool" where
  "authed a h \<longleftrightarrow> \<not> (length h < 7 \<or> \<not> equal_fold (take 7 h) ''bearer '' \<or> trim_space (drop 7 h) \<noteq> ag_token a)"

definition invalid_peer_error :: "goerr \<Rightarrow> bool" where
  "invalid_peer_error e \<longleftrightarrow> is_err e ErrInvalidKey \<or> is_err e ErrInvalidIP"

definition handle_set_peer :: "'w agent \<Rightarrow> any option \<Rightarrow> ('w, agent_reply) state" where
  "handle_set_peer a body = decode_body decode_peer body (\<lambda>req.
     case validate_ip (pq_tunnel_ip req) of
       Inl _ \<Rightarrow> ret (bad_request ''invalid tunnel_ip'')
     | Inr ip \<Rightarrow> do {
         r \<leftarrow> set_peer (ag_wg a) \<lparr>wp_public_key = pq_public_key req, wp_tunnel_ip = Some ip\<rparr> (pq_replaces req);
         ret (case r of
                Inl e \<Rightarrow> (if invalid_peer_error e then bad_request ''invalid peer''
                          else reply_json 500 (error_json ''apply failed''))
              | Inr _ \<Rightarrow> reply_json 200 (AMap [(''applied_revision'', AInt64 (pq_revision req))]))
       })"

definition handle_remove_peer :: "'w agent \<Rightarrow> any option \<Rightarrow> ('w, agent_reply) state" where
  "handle_remove_peer a body = decode_body decode_peer body (\<lambda>req. do {
     r \<leftarrow> remove_wg_peer (ag_wg a) (pq_public_key req);
     ret (case r of
            Inl e \<Rightarrow> (if is_err e ErrInvalidKey then bad_request ''invalid public_key''
                      else reply_json 500 (error_json ''remove failed''))
          | Inr _ \<Rightarrow> reply_json 200 (AMap [(''removed'', ABool True)]))
   })"

text \<open>The peers of a sync request, or the first address that is not acceptable.\<close>

definition request_peer :: "peer_request \<Rightarrow> wg_peer option" where
  "request_peer p =
     (case validate_ip (pq_tunnel_ip p) of
        Inl _ \<Rightarrow> None
      | Inr ip \<Rightarrow> Some \<lparr>wp_public_key = pq_public_key p, wp_tunnel_ip = Some ip\<rparr>)"

definition handle_sync ::
  "(string list \<Rightarrow> string list) \<Rightarrow> 'w agent \<Rightarrow> any option \<Rightarrow> ('w, agent_reply) state" where
  "handle_sync order a body = decode_body decode_peer_set body (\<lambda>reqs.
     case map_all request_peer reqs of
       None \<Rightarrow> ret (bad_request ''invalid tunnel_ip in peer set'')
     | Some ps \<Rightarrow> do {
         r \<leftarrow> sync_wg order (ag_wg a) ps;
         ret (case r of
                Inl e \<Rightarrow> (if invalid_peer_error e then bad_request ''invalid peer set''
                          else reply_json 500 (error_json ''sync failed''))
              | Inr _ \<Rightarrow> reply_json 200 (AMap [(''synced'', AInt (int (length ps)))]))
       })"

definition handle_health :: "bool \<Rightarrow> 'w agent \<Rightarrow> ('w, agent_reply) state" where
  "handle_health obfuscator a = do {
     up \<leftarrow> wg_up (ag_wg a);
     count \<leftarrow> wg_peer_count (ag_wg a);
     ret (reply_json 200 (AMap [(''ok'', ABool up), (''boot_id'', AString (ag_instance_id a)),
       (''peer_count'', AInt count), (''interface'', AString (wc_interface (ag_wg a))),
       (''agent_version'', AString (ag_version a)), (''wireguard_up'', ABool up),
       (''obfuscator_up'', ABool obfuscator)]))
   }"

text \<open>\<open>Handler\<close>: the routes; every one of them is behind \<open>authed\<close>.\<close>

definition agent_route ::
  "(string list \<Rightarrow> string list) \<Rightarrow> bool \<Rightarrow> 'w agent \<Rightarrow> string \<Rightarrow> string \<Rightarrow> any option \<Rightarrow> ('w, agent_reply) state option" where
  "agent_route order obfuscator a method path body =
     (if method = ''POST'' \<and> path = ''/v1/peers'' then Some (handle_set_peer a body)
      else if method = ''POST'' \<and> path = ''/v1/peers/remove'' then Some (handle_remove_peer a body)
      else if method = ''POST'' \<and> path = ''/v1/peers/sync'' then Some (handle_sync order a body)
      else if method = ''GET'' \<and> path = ''/v1/health'' then Some (handle_health obfuscator a)
      else None)"

definition known_path :: "string \<Rightarrow> bool" where
  "known_path path \<longleftrightarrow> path \<in> set [''/v1/peers'', ''/v1/peers/remove'', ''/v1/peers/sync'', ''/v1/health'']"

definition agent_serve ::
  "(string list \<Rightarrow> string list) \<Rightarrow> bool \<Rightarrow> 'w agent \<Rightarrow> http_request \<Rightarrow> ('w, agent_reply) state" where
  "agent_serve order obfuscator a req =
     (case agent_route order obfuscator a (hr_method req) (hr_path req) (hr_body req) of
        None \<Rightarrow> ret (reply_json (if known_path (hr_path req) then 405 else 404) ANil)
      | Some m \<Rightarrow>
          (if authed a (hr_authorization req) then m
           else ret (reply_json 401 (error_json ''unauthorized''))))"

section \<open>The installation's identity\<close>

definition hex_digit :: "int \<Rightarrow> char" where
  "hex_digit n = char_of (if n < 10 then n + 48 else n + 87)"

definition hex_text :: "int list \<Rightarrow> string" where
  "hex_text bs = concat (map (\<lambda>b. [hex_digit (b div 16), hex_digit (b mod 16)]) bs)"

text \<open>
  \<open>loadOrCreateInstanceID\<close>: the state is the content of the \<open>instance-id\<close> file, if it can be read;
  the results of \<open>MkdirAll\<close>, of the random source and of \<open>WriteFile\<close> are parameters.
\<close>

definition load_or_create_instance_id ::
  "goerr option \<Rightarrow> goerr + int list \<Rightarrow> goerr option \<Rightarrow> (string option, goerr + string) state" where
  "load_or_create_instance_id mkdir random write_file = State (\<lambda>file.
     case mkdir of
       Some e \<Rightarrow> (Inl e, file)
     | None \<Rightarrow>
         (let stored = (case file of None \<Rightarrow> [] | Some b \<Rightarrow> trim_space b) in
          if stored \<noteq> [] then (Inr stored, file)
          else case random of
            Inl e \<Rightarrow> (Inl e, file)
          | Inr buf \<Rightarrow>
              (case write_file of
                 Some e \<Rightarrow> (Inl e, file)
               | None \<Rightarrow> (Inr (hex_text buf), Some (hex_text buf @ [CHR 0x0A])))))"

definition read_token_file :: "goerr + string \<Rightarrow> goerr + string" where
  "read_token_file content =
     (case content of
        Inl e \<Rightarrow> Inl e
      | Inr b \<Rightarrow>
          (let token = trim_space b in
           if length token < 32
           then Inl (Sentinel (OtherError ''agent: token must be at least 32 characters''))
           else Inr token))"

end
