(* ===== verification/HttpClient.thy ===== *)
theory HttpClient
  imports Edge Agent
begin

text \<open>
  \<open>server/internal/edge/httpclient.go\<close>: the control plane's client of the edge agents. The transport
  is a parameter; a request carries its JSON as a value, built with the field names of the Go tags.
\<close>

section \<open>Payloads\<close>

definition peer_payload :: "string \<Rightarrow> ipv4 \<Rightarrow> int \<Rightarrow> string \<Rightarrow> any" where
  "peer_payload key ip revision replaces =
     AMap ([(''public_key'', AString key), (''tunnel_ip'', AString (addr_text ip)), (''revision'', AInt64 revision)] @
           (if replaces = [] then [] else [(''replaces'', AString replaces)]))"

definition remove_payload :: "string \<Rightarrow> any" where
  "remove_payload key = AMap [(''public_key'', AString key)]"

definition sync_payload :: "any list \<Rightarrow> any" where
  "sync_payload ps = AMap [(''peers'', ASlice ps)]"

section \<open>Answers\<close>

text \<open>\<open>rs_text\<close> is the start of the body that goes into error messages.\<close>

record http_response =
  rs_status :: int
  rs_status_line :: string
  rs_text :: string
  rs_body :: "goerr + any"

text \<open>
  The transport: the error of building a request, if its URL is none, and sending it.
\<close>

record 'e transport =
  tr_bad_url :: "string \<Rightarrow> goerr option"
  tr_send :: "http_request \<Rightarrow> 'e \<Rightarrow> (goerr + http_response) \<times> 'e"

definition trim_right_slash :: "string \<Rightarrow> string" where
  "trim_right_slash s = rev (dropWhile (\<lambda>c. c = CHR 0x2F) (rev s))"

definition status_error :: "server \<Rightarrow> http_response \<Rightarrow> goerr" where
  "status_error srv resp =
     Wrap [] (Sentinel (if rs_status resp div 100 = 4 \<and> rs_status resp \<noteq> 429 then ErrRejected else ErrUnreachable))
       ('': '' @ s_code srv @ '': '' @ rs_status_line resp @ '': '' @ trim_space (rs_text resp))"

text \<open>\<open>out\<close> is \<open>nil\<close> in every call of \<open>post\<close>, so an accepted answer is not decoded.\<close>

definition edge_post :: "'e transport \<Rightarrow> server \<Rightarrow> string \<Rightarrow> any \<Rightarrow> 'e \<Rightarrow> (goerr + unit) \<times> 'e" where
  "edge_post http srv path body e =
     (case tr_bad_url http (trim_right_slash (s_agent_url srv) @ path) of
        Some err \<Rightarrow> (Inl err, e)
      | None \<Rightarrow>
     (case tr_send http \<lparr>hr_method = ''POST'', hr_base = trim_right_slash (s_agent_url srv), hr_path = path,
                 hr_authorization = ''Bearer '' @ s_agent_token srv, hr_body = Some body\<rparr> e of
        (Inl err, e') \<Rightarrow>
          (Inl (Wrap [] (Sentinel ErrUnreachable) ('': '' @ s_code srv @ '' '' @ path @ '': '' @ err_text err)), e')
      | (Inr resp, e') \<Rightarrow>
          ((if rs_status resp div 100 \<noteq> 2 then Inl (status_error srv resp) else Inr ()), e')))"

definition http_apply_peer :: "'e transport \<Rightarrow> server \<Rightarrow> edge_peer \<Rightarrow> 'e \<Rightarrow> (goerr + unit) \<times> 'e" where
  "http_apply_peer http srv p =
     edge_post http srv ''/v1/peers'' (peer_payload (ep_public_key p) (ep_tunnel_ip p) (ep_revision p) (ep_replaces p))"

definition http_remove_peer :: "'e transport \<Rightarrow> server \<Rightarrow> string \<Rightarrow> 'e \<Rightarrow> (goerr + unit) \<times> 'e" where
  "http_remove_peer http srv key = edge_post http srv ''/v1/peers/remove'' (remove_payload key)"

definition http_sync_peers :: "'e transport \<Rightarrow> server \<Rightarrow> edge_peer list \<Rightarrow> 'e \<Rightarrow> (goerr + unit) \<times> 'e" where
  "http_sync_peers http srv ps =
     edge_post http srv ''/v1/peers/sync''
       (sync_payload (map (\<lambda>p. peer_payload (ep_public_key p) (ep_tunnel_ip p) (ep_revision p) []) ps))"

definition decode_health :: "any \<Rightarrow> health option" where
  "decode_health j =
     (case fields_of j of
        None \<Rightarrow> None
      | Some m \<Rightarrow>
          (case (bool_value (map_of m ''ok''), string_value (map_of m ''boot_id''),
                 int_value (map_of m ''peer_count''), bool_value (map_of m ''wireguard_up'')) of
             (Some ok, Some boot, Some n, Some wireguard) \<Rightarrow>
               Some \<lparr>h_ok = ok, h_boot_id = boot, h_peer_count = n, h_wireguard = wireguard\<rparr>
           | _ \<Rightarrow> None))"

definition http_health :: "'e transport \<Rightarrow> server \<Rightarrow> 'e \<Rightarrow> (goerr + health) \<times> 'e" where
  "http_health http srv e =
     (case tr_bad_url http (trim_right_slash (s_agent_url srv) @ ''/v1/health'') of
        Some err \<Rightarrow> (Inl err, e)
      | None \<Rightarrow>
     (case tr_send http \<lparr>hr_method = ''GET'', hr_base = trim_right_slash (s_agent_url srv), hr_path = ''/v1/health'',
                 hr_authorization = ''Bearer '' @ s_agent_token srv, hr_body = None\<rparr> e of
        (Inl err, e') \<Rightarrow> (Inl (Wrap [] (Sentinel ErrUnreachable) ('': '' @ s_code srv @ '': '' @ err_text err)), e')
      | (Inr resp, e') \<Rightarrow>
          ((if rs_status resp \<noteq> 200 then Inl (status_error srv resp)
            else let bad = (\<lambda>t. Inl (Wrap [] (Sentinel ErrUnreachable) ('': '' @ s_code srv @ '': decode health: '' @ t))) in
              case rs_body resp of
                Inl err \<Rightarrow> bad (err_text err)
              | Inr j \<Rightarrow> (case decode_health j of None \<Rightarrow> bad ''wrong type'' | Some h \<Rightarrow> Inr h)), e')))"

definition http_client :: "'e transport \<Rightarrow> 'e edge_client" where
  "http_client http = \<lparr>apply_peer = http_apply_peer http, remove_peer = http_remove_peer http,
     sync_peers = http_sync_peers http, get_health = http_health http\<rparr>"

lemma http_client_simps [simp]:
  "apply_peer (http_client http) = http_apply_peer http" "remove_peer (http_client http) = http_remove_peer http"
  "sync_peers (http_client http) = http_sync_peers http" "get_health (http_client http) = http_health http"
  by (simp_all add: http_client_def)

section \<open>The agents behind the transport\<close>

text \<open>
  The boxes of a deployment: each agent URL has an agent and the state of its machine. A request to a
  reachable box runs the agent's handler there; otherwise the connection fails and nothing happens.
\<close>

definition fleet_send ::
  "(string list \<Rightarrow> string list) \<Rightarrow> (string \<Rightarrow> 'w agent) \<Rightarrow> (string \<Rightarrow> bool) \<Rightarrow> http_request \<Rightarrow> (string \<Rightarrow> 'w) \<Rightarrow>
   (goerr + http_response) \<times> (string \<Rightarrow> 'w)" where
  "fleet_send order agents reach req e =
     (if \<not> reach (hr_base req) then (Inl (Sentinel (OtherError ''dial tcp: connection refused'')), e)
      else case run_state (agent_serve order False (agents (hr_base req)) req) (e (hr_base req)) of
        (rep, w') \<Rightarrow>
          (Inr \<lparr>rs_status = ar_status rep, rs_status_line = int_text (ar_status rep), rs_text = [], rs_body = Inr (ar_body rep)\<rparr>,
           e(hr_base req := w')))"

definition fleet_http ::
  "(string list \<Rightarrow> string list) \<Rightarrow> (string \<Rightarrow> 'w agent) \<Rightarrow> (string \<Rightarrow> bool) \<Rightarrow> (string \<Rightarrow> 'w) transport" where
  "fleet_http order agents reach = \<lparr>tr_bad_url = (\<lambda>_. None), tr_send = fleet_send order agents reach\<rparr>"

end
