(* ===== verification/Startup.thy ===== *)
theory Startup
  imports System Config HttpClient
begin

text \<open>
  \<open>server/cmd/api/main.go\<close>: from the environment to a running system, and the two loops that run
  beside the HTTP server. What is outside the repository is collected in \<open>outside\<close>.
\<close>

record 'e outside =
  ou_hmac :: "string \<Rightarrow> string \<Rightarrow> int list"
  ou_header :: "int list"
  ou_alg_of :: "int list \<Rightarrow> string option"
  ou_claims_json :: "claims \<Rightarrow> int list"
  ou_claims_of :: "int list \<Rightarrow> claims option"
  ou_sha :: "string \<Rightarrow> string"
  ou_bcrypt :: "string \<Rightarrow> goerr + string"
  ou_compare :: "string \<Rightarrow> string \<Rightarrow> goerr option"
  ou_id_text :: "uuid \<Rightarrow> string"
  ou_parse_id :: "string \<Rightarrow> uuid option"
  ou_parse_cidr :: "string \<Rightarrow> cidr option"
  ou_decode :: decoders
  ou_hmac512 :: "string \<Rightarrow> string \<Rightarrow> string"
  ou_unmarshal :: "string \<Rightarrow> goerr + paystack_event"
  ou_marshal :: "paystack_event \<Rightarrow> string"
  ou_bad_url :: "string \<Rightarrow> goerr option"
  ou_http :: "pay_request \<Rightarrow> goerr + pay_response"
  ou_checkout_of :: "string \<Rightarrow> goerr + (bool \<times> string \<times> checkout_result)"
  ou_verify_of :: "string \<Rightarrow> goerr + (bool \<times> string)"
  ou_charge_of :: "string \<Rightarrow> paystack_event \<Rightarrow> goerr + paystack_event"
  ou_transport :: "duration \<Rightarrow> 'e transport"
  ou_parse_dsn :: "string \<Rightarrow> goerr option"
  ou_connect :: "string \<Rightarrow> goerr + 'e world"
  ou_ping :: "string \<Rightarrow> goerr option"

text \<open>\<open>auth.NewSigner\<close>.\<close>

definition new_signer :: "'e outside \<Rightarrow> string \<Rightarrow> duration \<Rightarrow> signer" where
  "new_signer out secret ttl = \<lparr>sg_mac = ou_hmac out secret, sg_ttl = ttl, sg_header = ou_header out,
     sg_alg_of = ou_alg_of out, sg_claims_json = ou_claims_json out, sg_claims_of = ou_claims_of out\<rparr>"

text \<open>\<open>store.New\<close>.\<close>

definition open_store :: "'e outside \<Rightarrow> string \<Rightarrow> goerr + 'e world" where
  "open_store out dsn =
     (case ou_parse_dsn out dsn of
        Some e \<Rightarrow> Inl (Wrap ''parse dsn: '' e [])
      | None \<Rightarrow>
          (case ou_connect out dsn of
             Inl e \<Rightarrow> Inl (Wrap ''connect: '' e [])
           | Inr w \<Rightarrow> (case ou_ping out dsn of Some e \<Rightarrow> Inl (Wrap ''ping: '' e []) | None \<Rightarrow> Inr w)))"

definition build_server :: "'e outside \<Rightarrow> config \<Rightarrow> string \<Rightarrow> 'e server_env" where
  "build_server out cfg admin_token =
     (let pay = new_paystack (cf_paystack_secret_key cfg) (cf_paystack_webhook_key cfg) in
      \<lparr>sv_session = \<lparr>se_signer = new_signer out (cf_jwt_secret cfg) (cf_access_ttl cfg), se_refresh_ttl = cf_refresh_ttl cfg,
         se_free_plan = cf_free_plan_enabled cfg, se_sha = ou_sha out, se_bcrypt = ou_bcrypt out,
         se_compare = ou_compare out, se_id_text = ou_id_text out\<rparr>,
       sv_edge = http_client (ou_transport out (cf_edge_timeout cfg)), sv_admin_token = admin_token,
       sv_parse_id = ou_parse_id out, sv_parse_cidr = ou_parse_cidr out, sv_decode = ou_decode out, sv_paystack = pay,
       sv_mac = ou_hmac512 out, sv_unmarshal = ou_unmarshal out, sv_marshal = ou_marshal out,
       sv_verify = paystack_verify (ou_verify_of out) (ou_charge_of out) (ou_bad_url out) (ou_http out) pay,
       sv_initialize = paystack_initialize (ou_id_text out) (ou_checkout_of out) (ou_bad_url out) (ou_http out) pay\<rparr>)"

definition start_api :: "'e outside \<Rightarrow> environment \<Rightarrow> goerr + ('e server_env \<times> 'e system)" where
  "start_api out getenv =
     (case load_config getenv of
        Inl msg \<Rightarrow> Inl (Sentinel (OtherError msg))
      | Inr cfg \<Rightarrow>
          (case open_store out (cf_database_url cfg) of
             Inl e \<Rightarrow> Inl e
           | Inr w \<Rightarrow> Inr (build_server out cfg (getenv ''PROXIFY_ADMIN_TOKEN''), start_system w)))"

section \<open>The loops\<close>

text \<open>What a loop is woken by: its ticker, or the context that ends with the process.\<close>

datatype wake = Ticked | Stopped

text \<open>\<open>Reconciler.Run\<close> starts with a pass; the list ends where nothing has happened yet.\<close>

fun reconciler_run :: "'e server_env \<Rightarrow> wake list \<Rightarrow> ('e system, unit) state" where
  "reconciler_run env [] = reconciler_pass env"
| "reconciler_run env (Stopped # ws) = reconciler_pass env"
| "reconciler_run env (Ticked # ws) = do { _ \<leftarrow> reconciler_pass env; reconciler_run env ws }"

text \<open>\<open>runHealthSweep\<close> waits first.\<close>

fun health_run :: "'e server_env \<Rightarrow> wake list \<Rightarrow> ('e system, unit) state" where
  "health_run env [] = ret ()"
| "health_run env (Stopped # ws) = ret ()"
| "health_run env (Ticked # ws) = do { _ \<leftarrow> sweep_pass env; health_run env ws }"

definition ticks :: "wake list \<Rightarrow> nat" where
  "ticks ws = length (takeWhile ((=) Ticked) ws)"

text \<open>The loops are histories of the system: one pass more than ticks before the stop, and one sweep per tick.\<close>

lemma loops_are_histories:
  "snd (run_state (reconciler_run env ws) s) = snd (run_state (for_each (replicate (Suc (ticks ws)) Pass) (happen env)) s)"
  "snd (run_state (health_run env ws) s) = snd (run_state (for_each (replicate (ticks ws) Sweep) (happen env)) s)"
proof -
  show "snd (run_state (reconciler_run env ws) s) = snd (run_state (for_each (replicate (Suc (ticks ws)) Pass) (happen env)) s)"
    by (induction env ws arbitrary: s rule: reconciler_run.induct) (simp_all add: ticks_def split: prod.splits)
  show "snd (run_state (health_run env ws) s) = snd (run_state (for_each (replicate (ticks ws) Sweep) (happen env)) s)"
    by (induction env ws arbitrary: s rule: health_run.induct) (simp_all add: ticks_def split: prod.splits)
qed

section \<open>What starts\<close>

text \<open>
  C25 (production_start). Outside the environment named \<open>dev\<close> the control plane starts only with
  configured secrets: access tokens are signed under the given secret of at least 32 bytes, never under
  the one in the source, and webhooks are checked under a payment key that is not empty. It starts on a
  database that answered a ping, with nothing in the background and empty limiters.
\<close>

theorem production_start:
  assumes "start_api out getenv = Inr (env, s)" and "env_text getenv ''PROXIFY_ENV'' ''dev'' \<noteq> ''dev''"
  shows "(\<exists>secret. secret = getenv ''PROXIFY_JWT_SECRET'' \<and> 32 \<le> length secret \<and>
      sg_mac (se_signer (sv_session env)) = ou_hmac out secret) \<and>
    pc_webhook_key (sv_paystack env) \<noteq> [] \<and>
    (\<exists>dsn w. ou_connect out dsn = Inr w \<and> ou_ping out dsn = None \<and> s = start_system w \<and>
      (w_db w = migrated_db \<longrightarrow> reachable env s))"
proof -
  obtain cfg w where cfg: "load_config getenv = Inr cfg" and w: "open_store out (cf_database_url cfg) = Inr w"
    and env: "env = build_server out cfg (getenv ''PROXIFY_ADMIN_TOKEN'')" "s = start_system w"
    using assms(1) by (auto simp: start_api_def split: sum.splits)
  have "cf_env cfg \<noteq> ''dev''" using assms(2) unfolding load_config_fields(1) [OF cfg] .
  with loaded_configuration [OF cfg] have "cf_jwt_secret cfg = getenv ''PROXIFY_JWT_SECRET''"
      "32 \<le> length (cf_jwt_secret cfg)" "cf_paystack_webhook_key cfg \<noteq> []" by blast+
  moreover have "ou_connect out (cf_database_url cfg) = Inr w \<and> ou_ping out (cf_database_url cfg) = None"
    using w by (auto simp: open_store_def split: option.splits sum.splits)
  ultimately show ?thesis
    unfolding env using reachable.start [of w] by (auto simp: build_server_def Let_def new_signer_def new_paystack_def)
qed

end
