(* ===== verification/Migrate.thy ===== *)
theory Migrate
  imports Store
begin

text \<open>
  \<open>server/cmd/migrate/main.go\<close>: the SQL files applied once each, in the order of their names, each
  inside a transaction. What a file does to the schema is the parameter \<open>exec\<close>. A statement consults
  the fault list like a store call: it is \<open>Lost\<close> before it takes effect or committed but \<open>Unacked\<close>.
\<close>

record 'd migration_db =
  mg_schema :: 'd
  mg_versions :: "string list"
  mg_faults :: "fault list"

record dir_entry =
  de_name :: string
  de_is_dir :: bool
  de_body :: string

text \<open>A statement, or a transaction that ends with its commit.\<close>

definition mg_call :: "('d migration_db \<Rightarrow> (goerr + 'a) \<times> 'd migration_db) \<Rightarrow> ('d migration_db, goerr + 'a) state" where
  "mg_call f = State (\<lambda>s.
     let (r, s') = f s; rest = tl (mg_faults s) in
     case mg_faults s of
       [] \<Rightarrow> (r, s')
     | Fine # _ \<Rightarrow> (r, s'\<lparr>mg_faults := rest\<rparr>)
     | Lost # _ \<Rightarrow> (Inl driver_error, s\<lparr>mg_faults := rest\<rparr>)
     | Unacked # _ \<Rightarrow> (Inl driver_error, s'\<lparr>mg_faults := rest\<rparr>))"

text \<open>The files, sorted by name.\<close>

definition migration_files :: "dir_entry list \<Rightarrow> (string \<times> string) list" where
  "migration_files entries =
     sort_key fst (map (\<lambda>e. (de_name e, de_body e)) (filter (\<lambda>e. \<not> de_is_dir e \<and> has_suffix (de_name e) ''.sql'') entries))"

definition version_exists :: "string \<Rightarrow> ('d migration_db, goerr + bool) state" where
  "version_exists name = mg_call (\<lambda>s. (Inr (name \<in> set (mg_versions s)), s))"

text \<open>The transaction: the file, then its version; an error of either rolls both back.\<close>

definition apply_file ::
  "(string \<Rightarrow> 'd \<Rightarrow> goerr + 'd) \<Rightarrow> string \<Rightarrow> string \<Rightarrow> ('d migration_db, goerr + unit) state" where
  "apply_file exec name raw = mg_call (\<lambda>s.
     case exec raw (mg_schema s) of
       Inl e \<Rightarrow> (Inl (Wrap (''apply '' @ name @ '': '') e []), s)
     | Inr d \<Rightarrow>
         (if name \<in> set (mg_versions s) then (Inl (Sentinel UniqueViolation), s)
          else (Inr (), s\<lparr>mg_schema := d, mg_versions := mg_versions s @ [name]\<rparr>)))"

fun apply_files ::
  "(string \<Rightarrow> 'd \<Rightarrow> goerr + 'd) \<Rightarrow> (string \<times> string) list \<Rightarrow> ('d migration_db, goerr + unit) state" where
  "apply_files exec [] = ret (Inr ())"
| "apply_files exec ((name, raw) # files) = do {
     re \<leftarrow> version_exists name;
     case re of
       Inl e \<Rightarrow> ret (Inl e)
     | Inr True \<Rightarrow> apply_files exec files
     | Inr False \<Rightarrow> do {
         ra \<leftarrow> apply_file exec name raw;
         case ra of Inl e \<Rightarrow> ret (Inl e) | Inr _ \<Rightarrow> apply_files exec files
       }
   }"

text \<open>One invocation of the command, with the number of files it reports.\<close>

definition migrate ::
  "(string \<Rightarrow> 'd \<Rightarrow> goerr + 'd) \<Rightarrow> dir_entry list \<Rightarrow> ('d migration_db, goerr + nat) state" where
  "migrate exec entries = do {
     rc \<leftarrow> mg_call (\<lambda>s. (Inr (), s));
     case rc of
       Inl e \<Rightarrow> ret (Inl (Wrap ''create schema_migrations: '' e []))
     | Inr _ \<Rightarrow> do {
         r \<leftarrow> apply_files exec (migration_files entries);
         case r of Inl e \<Rightarrow> ret (Inl e) | Inr _ \<Rightarrow> ret (Inr (length (migration_files entries)))
       }
   }"

section \<open>The schema is a run of files\<close>

text \<open>The files executed one after the other.\<close>

fun exec_all :: "(string \<Rightarrow> 'd \<Rightarrow> goerr + 'd) \<Rightarrow> (string \<times> string) list \<Rightarrow> 'd \<Rightarrow> goerr + 'd" where
  "exec_all exec [] d = Inr d"
| "exec_all exec ((name, raw) # files) d = (case exec raw d of Inl e \<Rightarrow> Inl e | Inr d' \<Rightarrow> exec_all exec files d')"

lemma exec_all_append: "exec_all exec (xs @ ys) d = (case exec_all exec xs d of Inl e \<Rightarrow> Inl e | Inr d' \<Rightarrow> exec_all exec ys d')"
  by (induction xs arbitrary: d) (auto split: sum.split)

text \<open>The first \<open>k\<close> files have been applied to \<open>base\<close>, and nothing else.\<close>

definition migrated_to :: "(string \<Rightarrow> 'd \<Rightarrow> goerr + 'd) \<Rightarrow> (string \<times> string) list \<Rightarrow> 'd \<Rightarrow> nat \<Rightarrow> 'd migration_db \<Rightarrow> bool" where
  "migrated_to exec files base k s \<longleftrightarrow> k \<le> length files \<and> mg_versions s = map fst (take k files) \<and>
     exec_all exec (take k files) base = Inr (mg_schema s)"

lemma mg_call_outcome:
  assumes "run_state (mg_call f) s = (r, s')"
  shows "\<exists>fl. s' = (snd (f s))\<lparr>mg_faults := fl\<rparr> \<and> (r = fst (f s) \<or> r = Inl driver_error) \<or>
    s' = s\<lparr>mg_faults := fl\<rparr> \<and> r = Inl driver_error"
  using assms by (cases "f s") (auto simp: mg_call_def Let_def split: list.splits fault.splits intro: exI [of _ "mg_faults s'"])

lemma migrated_to_faults [simp]: "migrated_to exec files base k (s\<lparr>mg_faults := fl\<rparr>) = migrated_to exec files base k s"
  by (simp add: migrated_to_def)

lemma version_exists_run:
  assumes "run_state (version_exists name) s = (r, s')" and "migrated_to exec files base k s"
  shows "migrated_to exec files base k s' \<and> (\<forall>b. r = Inr b \<longrightarrow> b = (name \<in> set (mg_versions s)))"
  using mg_call_outcome [OF assms(1) [unfolded version_exists_def]] assms(2) by (auto simp: driver_error_def)

lemma apply_file_run:
  assumes "run_state (apply_file exec name raw) s = (r, s')" and "migrated_to exec files base k s"
    and "k < length files" and "files ! k = (name, raw)"
  shows "migrated_to exec files base (Suc k) s' \<or> migrated_to exec files base k s' \<and> r \<noteq> Inr ()"
proof -
  let ?f = "\<lambda>s. case exec raw (mg_schema s) of
        Inl e \<Rightarrow> (Inl (Wrap (''apply '' @ name @ '': '') e []), s)
      | Inr d \<Rightarrow> (if name \<in> set (mg_versions s) then (Inl (Sentinel UniqueViolation), s)
          else (Inr (), s\<lparr>mg_schema := d, mg_versions := mg_versions s @ [name]\<rparr>))"
  note take = take_Suc_conv_app_nth [OF assms(3)]
  have f: "migrated_to exec files base (Suc k) (snd (?f s)) \<or> migrated_to exec files base k (snd (?f s)) \<and> fst (?f s) \<noteq> Inr ()"
    using assms(2-4) by (auto simp: migrated_to_def take exec_all_append split: sum.split)
  from mg_call_outcome [OF assms(1) [unfolded apply_file_def]] show ?thesis
    using f assms(2) by (elim exE disjE conjE) (auto simp del: split_paired_Ex)
qed

lemma apply_files_from:
  assumes "distinct (map fst files)"
  shows "i \<le> k \<Longrightarrow> migrated_to exec files base k s \<Longrightarrow> run_state (apply_files exec (drop i files)) s = (r, s') \<Longrightarrow>
    \<exists>k' \<ge> k. migrated_to exec files base k' s' \<and> (r = Inr () \<longrightarrow> k' = length files)"
proof (induction "length files - i" arbitrary: i k s)
  case 0
  then have "drop i files = []" "k = length files" by (auto simp: migrated_to_def)
  with 0 show ?case by auto
next
  case (Suc n)
  then have i: "i < length files" "n = length files - Suc i" by simp_all
  obtain name raw where f: "files ! i = (name, raw)" by (rule prod.exhaust)
  have todo: "drop i files = (name, raw) # drop (Suc i) files" using Cons_nth_drop_Suc [OF i(1)] f by simp
  obtain re s1 where ve: "run_state (version_exists name) s = (re, s1)" by (rule prod.exhaust)
  note v = version_exists_run [OF ve Suc.prems(2)]
  have known: "name \<in> set (mg_versions s) \<longleftrightarrow> i < k"
  proof -
    have n: "map fst files ! i = name" using f i(1) by simp
    have "name \<in> set (take k (map fst files)) \<longleftrightarrow> i < k"
    proof
      assume "name \<in> set (take k (map fst files))"
      then obtain j where j: "j < k" "j < length files" "map fst files ! j = name"
        by (auto simp: in_set_conv_nth)
      then have "j = i" using n nth_eq_iff_index_eq [OF assms, of j i] i(1) by simp
      with j show "i < k" by simp
    next
      assume "i < k"
      then show "name \<in> set (take k (map fst files))" using n i(1) by (auto simp: in_set_conv_nth intro!: exI [of _ i])
    qed
    then show ?thesis using Suc.prems(2) by (simp add: migrated_to_def take_map)
  qed
  consider (lost) e where "re = Inl e" | (old) "re = Inr True" "i < k" | (new) "re = Inr False" "i = k"
  proof (cases re)
    case (Inr b)
    with v known Suc.prems(1) show ?thesis by (cases b) (auto intro: that)
  qed (rule that(1))
  then show ?case
  proof cases
    case lost
    with Suc.prems(3) v ve show ?thesis by (auto simp: todo)
  next
    case old
    with Suc.prems(3) ve have "run_state (apply_files exec (drop (Suc i) files)) s1 = (r, s')" by (simp add: todo)
    then show ?thesis using Suc.hyps(1) [OF i(2), of k s1] old(2) v by (simp add: Suc_le_eq)
  next
    case new
    obtain ra s2 where af: "run_state (apply_file exec name raw) s1 = (ra, s2)" by (rule prod.exhaust)
    have a: "migrated_to exec files base (Suc k) s2 \<or> migrated_to exec files base k s2 \<and> ra \<noteq> Inr ()"
      using apply_file_run [OF af] v i(1) f new(2) by blast
    show ?thesis
    proof (cases ra)
      case (Inl e)
      then have "s' = s2" "r \<noteq> Inr ()" using Suc.prems(3) [unfolded todo] ve af new(1) by auto
      with a show ?thesis using le_SucI by blast
    next
      case (Inr u)
      with a have m: "migrated_to exec files base (Suc k) s2" by simp
      have "run_state (apply_files exec (drop (Suc i) files)) s2 = (r, s')"
        using Suc.prems(3) [unfolded todo] ve af new(1) Inr by simp
      then obtain k' where "Suc k \<le> k'" "migrated_to exec files base k' s'" "r = Inr () \<longrightarrow> k' = length files"
        using Suc.hyps(1) [OF i(2) _ m] new(2) by auto
      then show ?thesis using Suc_leD by blast
    qed
  qed
qed

text \<open>
  C24 (migrations_apply_once). However often the command is run, and wherever a run is cut off, loses its
  connection or loses the acknowledgement of a commit: the schema is the result of the first \<open>k\<close> files
  in the order of their names, each executed exactly once, the recorded versions are their names, \<open>k\<close>
  never goes back, and a run that succeeds leaves no file out.
\<close>

theorem migrations_apply_once:
  assumes "distinct (map fst (migration_files entries))" and "migrated_to exec (migration_files entries) base k s"
    and "run_state (migrate exec entries) s = (r, s')"
  shows "sorted (map fst (migration_files entries)) \<and>
    (\<exists>k' \<ge> k. migrated_to exec (migration_files entries) base k' s' \<and>
      (\<not> isl r \<longrightarrow> k' = length (migration_files entries) \<and> exec_all exec (migration_files entries) base = Inr (mg_schema s')))"
proof -
  let ?fs = "migration_files entries"
  obtain rc s1 where c: "run_state (mg_call (\<lambda>s. (Inr (), s)) :: ('a migration_db, goerr + unit) state) s = (rc, s1)"
    by (rule prod.exhaust)
  have s1: "migrated_to exec ?fs base k s1" using mg_call_outcome [OF c] assms(2) by auto
  obtain ra s2 where a: "run_state (apply_files exec ?fs) s1 = (ra, s2)" by (rule prod.exhaust)
  obtain k' where k': "k' \<ge> k" "migrated_to exec ?fs base k' s2" "ra = Inr () \<longrightarrow> k' = length ?fs"
    using apply_files_from [OF assms(1), of 0 k exec base s1] s1 a by auto
  have "\<exists>k' \<ge> k. migrated_to exec ?fs base k' s' \<and> (\<not> isl r \<longrightarrow> k' = length ?fs)"
  proof (cases rc)
    case (Inl e)
    with assms(3) c s1 show ?thesis by (auto simp: migrate_def)
  next
    case (Inr u)
    with assms(3) c a k' show ?thesis by (cases ra) (auto simp: migrate_def)
  qed
  then show ?thesis by (auto simp: migration_files_def migrated_to_def)
qed

end
