(* ===== verification/Middleware.thy ===== *)
theory Middleware
  imports Respond
begin

text \<open>
  The outer wrappers of \<open>server/internal/api/middleware.go\<close>: \<open>statusRecorder\<close>, \<open>requestLog\<close> and
  \<open>recoverPanics\<close>. A handler is seen from outside: the calls it makes on the response writer, and
  whether it returns or panics. The connection keeps the first status it is given and \<open>200\<close> when a
  body comes first.
\<close>

record connection =
  cn_status :: "int option"
  cn_body :: string

definition conn_header :: "int \<Rightarrow> connection \<Rightarrow> connection" where
  "conn_header code c = (case cn_status c of None \<Rightarrow> c\<lparr>cn_status := Some code\<rparr> | Some _ \<Rightarrow> c)"

definition conn_write :: "string \<Rightarrow> connection \<Rightarrow> connection" where
  "conn_write b c = (let c' = conn_header 200 c in c'\<lparr>cn_body := cn_body c' @ b\<rparr>)"

record status_recorder =
  sr_conn :: connection
  sr_status :: int
  sr_wrote :: bool

definition rec_header :: "int \<Rightarrow> status_recorder \<Rightarrow> status_recorder" where
  "rec_header code r =
     (if sr_wrote r then r
      else r\<lparr>sr_wrote := True, sr_status := code, sr_conn := conn_header code (sr_conn r)\<rparr>)"

definition rec_write :: "string \<Rightarrow> status_recorder \<Rightarrow> status_recorder" where
  "rec_write b r = r\<lparr>sr_wrote := True, sr_conn := conn_write b (sr_conn r)\<rparr>"

datatype writer_call = Write_header int | Write string

fun on_writer :: "writer_call \<Rightarrow> status_recorder \<Rightarrow> status_recorder" where
  "on_writer (Write_header code) = rec_header code"
| "on_writer (Write b) = rec_write b"

text \<open>What is logged of a request: neither an address nor a body.\<close>

record log_line =
  lg_method :: string
  lg_path :: string
  lg_status :: int
  lg_duration_ms :: int

text \<open>A panic passes through \<open>requestLog\<close> before the line is written.\<close>

definition request_log ::
  "string \<Rightarrow> string \<Rightarrow> int \<Rightarrow> writer_call list \<Rightarrow> bool \<Rightarrow> connection \<Rightarrow> connection \<times> log_line option" where
  "request_log meth path ms calls panics c =
     (let r = fold on_writer calls \<lparr>sr_conn = c, sr_status = 200, sr_wrote = False\<rparr> in
      (sr_conn r,
       if panics then None
       else Some \<lparr>lg_method = meth, lg_path = path, lg_status = sr_status r, lg_duration_ms = ms\<rparr>))"

text \<open>The body of the 500 is the JSON of \<open>writeError\<close>, here its code.\<close>

definition recover_panics ::
  "string \<Rightarrow> string \<Rightarrow> int \<Rightarrow> writer_call list \<Rightarrow> bool \<Rightarrow> connection \<Rightarrow> connection \<times> log_line option" where
  "recover_panics meth path ms calls panics c =
     (case request_log meth path ms calls panics c of
        (c', line) \<Rightarrow> (if panics then conn_write ''internal'' (conn_header 500 c') else c', line))"

text \<open>What the client sees; a handler that writes nothing is answered with \<open>200\<close>.\<close>

definition sent_status :: "connection \<Rightarrow> int" where
  "sent_status c = (case cn_status c of None \<Rightarrow> 200 | Some s \<Rightarrow> s)"

definition fresh_connection :: connection where
  "fresh_connection = \<lparr>cn_status = None, cn_body = []\<rparr>"

definition in_step :: "status_recorder \<Rightarrow> bool" where
  "in_step r \<longleftrightarrow> (if sr_wrote r then cn_status (sr_conn r) = Some (sr_status r) else cn_status (sr_conn r) = None \<and> sr_status r = 200)"

lemma in_step_calls: "in_step r \<Longrightarrow> in_step (fold on_writer calls r)"
proof (induction calls arbitrary: r)
  case (Cons x calls)
  have "in_step (on_writer x r)"
    using Cons.prems by (cases x) (auto simp: in_step_def rec_header_def rec_write_def conn_header_def conn_write_def Let_def
        split: if_splits option.splits)
  then show ?case using Cons.IH by simp
qed simp

text \<open>The status in the log is the status the client got, whatever the handler writes and in whatever order.\<close>

lemma logged_status_is_sent:
  assumes "recover_panics meth path ms calls False fresh_connection = (c, line)"
  shows "\<exists>l. line = Some l \<and> lg_status l = sent_status c"
proof -
  have "in_step \<lparr>sr_conn = fresh_connection, sr_status = 200, sr_wrote = False\<rparr>"
    by (simp add: in_step_def fresh_connection_def)
  from in_step_calls [OF this, of calls] show ?thesis
    using assms by (auto simp: recover_panics_def request_log_def Let_def in_step_def sent_status_def split: if_splits)
qed

text \<open>A panic before anything is written becomes a 500; after the header it cannot change the status any more.\<close>

lemma panic_is_answered:
  assumes "recover_panics meth path ms calls True fresh_connection = (c, line)"
  shows "line = None \<and> (if calls = [] then sent_status c = 500
    else cn_status c = cn_status (sr_conn (fold on_writer calls \<lparr>sr_conn = fresh_connection, sr_status = 200, sr_wrote = False\<rparr>)))"
proof -
  let ?r0 = "\<lparr>sr_conn = fresh_connection, sr_status = 200, sr_wrote = False\<rparr>"
  have wrote: "sr_wrote r \<Longrightarrow> sr_wrote (fold on_writer xs r)" for xs r
  proof (induction xs arbitrary: r)
    case (Cons x xs)
    then show ?case by (cases x) (simp_all add: rec_header_def rec_write_def)
  qed simp
  have "sr_wrote (fold on_writer calls ?r0)" if "calls \<noteq> []"
    using that wrote by (cases calls; cases "hd calls") (auto simp: rec_header_def rec_write_def)
  moreover have "in_step (fold on_writer calls ?r0)"
    by (rule in_step_calls) (simp add: in_step_def fresh_connection_def)
  ultimately show ?thesis
    using assms by (auto simp: recover_panics_def request_log_def Let_def in_step_def sent_status_def conn_header_def
        conn_write_def fresh_connection_def split: if_splits)
qed

end
