(* ===== verification/Transactions.thy ===== *)
theory Transactions
  imports Store
begin

text \<open>
  \<open>InTx\<close> of \<open>server/internal/store/store.go\<close>, and why the store operations that use it are calls that
  happen once, not at all, or without an acknowledgement (\<open>db_call\<close>).
\<close>

section \<open>A transaction\<close>

text \<open>The body runs on the transaction's own view of the database; it returns or panics.\<close>

datatype 'a body_end = Returned "goerr + 'a" | Panicked string

text \<open>
  \<open>opened\<close> is the error of \<open>Begin\<close>; the commit can be refused or lose its acknowledgement. A rollback
  that fails leaves the transaction to the server, which drops it as well.
\<close>

definition in_tx :: "goerr option \<Rightarrow> fault \<Rightarrow> (db \<Rightarrow> 'a body_end \<times> db) \<Rightarrow> db \<Rightarrow> 'a body_end \<times> db" where
  "in_tx opened commit fn d =
     (case opened of
        Some e \<Rightarrow> (Returned (Inl e), d)
      | None \<Rightarrow>
          (case fn d of
             (Panicked p, _) \<Rightarrow> (Panicked p, d)
           | (Returned (Inl e), _) \<Rightarrow> (Returned (Inl e), d)
           | (Returned (Inr x), d') \<Rightarrow>
               (case commit of
                  Fine \<Rightarrow> (Returned (Inr x), d')
                | Lost \<Rightarrow> (Returned (Inl driver_error), d)
                | Unacked \<Rightarrow> (Returned (Inl driver_error), d'))))"

lemma in_tx_all_or_nothing:
  "snd (in_tx opened commit fn d) = d \<or> (\<exists>x. fn d = (Returned (Inr x), snd (in_tx opened commit fn d)))"
  by (auto simp: in_tx_def split: option.split prod.split body_end.split sum.split fault.split)

lemma in_tx_panic_rolls_back: "in_tx opened commit fn d = (Panicked p, d') \<Longrightarrow> d' = d"
  by (auto simp: in_tx_def split: option.splits prod.splits body_end.splits sum.splits fault.splits)

section \<open>Store operations inside a transaction\<close>

text \<open>A store operation as the body of a transaction.\<close>

definition body_of :: "(time \<Rightarrow> db \<Rightarrow> (goerr + 'a) \<times> db) \<Rightarrow> time \<Rightarrow> db \<Rightarrow> 'a body_end \<times> db" where
  "body_of f now d = (Returned (fst (f now d)), snd (f now d))"

text \<open>Its errors leave the database alone.\<close>

definition clean_errors :: "(time \<Rightarrow> db \<Rightarrow> (goerr + 'a) \<times> db) \<Rightarrow> bool" where
  "clean_errors f \<longleftrightarrow> (\<forall>now d e. fst (f now d) = Inl e \<longrightarrow> snd (f now d) = d)"

lemma clean_ensure_assignment: "clean_errors (\<lambda>now. ensure_assignment now dev srv key)"
  unfolding clean_errors_def
  by (auto simp: ensure_assignment_def ensure_assignment_tx_def insert_peer_def map_result_def Let_def
      split: option.splits sum.splits prod.splits if_splits)

lemma clean_rotate_refresh_token: "clean_errors (\<lambda>now. rotate_refresh_token now old_hash new_hash expires)"
  unfolding clean_errors_def
  by (auto simp: rotate_refresh_token_def map_result_def Let_def split: option.splits sum.splits prod.splits if_splits)

lemma clean_due_assignments: "clean_errors (\<lambda>now. due_assignments now limit)"
  by (simp add: clean_errors_def due_assignments_def)


end
