(* ===== verification/AgentMain.thy ===== *)
theory AgentMain
  imports Agent
begin

text \<open>
  \<open>edge/cmd/edge-agent/main.go\<close>: from the flags and the files of a box to a listening agent.
\<close>

record agent_flags =
  fl_addr :: string
  fl_interface :: string
  fl_token_file :: string
  fl_state_dir :: string
  fl_tls_cert :: string
  fl_tls_key :: string

definition default_flags :: agent_flags where
  "default_flags = \<lparr>fl_addr = ''127.0.0.1:8443'', fl_interface = ''wg0'', fl_token_file = ''/etc/proxify/agent.token'',
     fl_state_dir = ''/var/lib/proxify-edge'', fl_tls_cert = [], fl_tls_key = []\<rparr>"

text \<open>How the server listens: at an address, with the files of its certificate when it serves TLS.\<close>

datatype listener = Plain string | With_tls string string string

definition listen_as :: "agent_flags \<Rightarrow> listener" where
  "listen_as fl =
     (if fl_tls_cert fl \<noteq> [] \<and> fl_tls_key fl \<noteq> [] then With_tls (fl_addr fl) (fl_tls_cert fl) (fl_tls_key fl)
      else Plain (fl_addr fl))"

text \<open>\<open>read\<close> is \<open>os.ReadFile\<close>, \<open>instance_id\<close> the outcome of \<open>loadOrCreateInstanceID\<close>; an error exits.\<close>

definition start_agent ::
  "(string list \<Rightarrow> 'w \<Rightarrow> (goerr + string) \<times> 'w) \<Rightarrow> (string \<Rightarrow> goerr + string) \<Rightarrow> (string \<Rightarrow> goerr + string) \<Rightarrow> string \<Rightarrow>
   agent_flags \<Rightarrow> goerr + ('w agent \<times> listener)" where
  "start_agent exec read instance_id version fl =
     (case read_token_file (read (fl_token_file fl)) of
        Inl e \<Rightarrow> Inl e
      | Inr token \<Rightarrow>
          (case new_agent exec (fl_interface fl) token version (instance_id (fl_state_dir fl)) of
             Inl e \<Rightarrow> Inl e
           | Inr a \<Rightarrow> Inr (a, listen_as fl)))"

text \<open>A box that serves peers does so behind a shared secret of at least 32 characters.\<close>

lemma agent_needs_a_secret:
  assumes "start_agent exec read instance_id version fl = Inr (a, l)"
  shows "32 \<le> length (ag_token a) \<and> \<not> authed a []"
  using assms by (auto simp: start_agent_def new_agent_def read_token_file_def Let_def authed_def split: sum.splits if_splits)

text \<open>With the flags left alone the listener is reachable from the box itself only.\<close>

lemma default_listener_is_local: "listen_as default_flags = Plain ''127.0.0.1:8443''"
  by (simp add: listen_as_def default_flags_def)

text \<open>A certificate without its key, or a key without its certificate, is dropped: the agent serves in the clear.\<close>

lemma half_tls_is_plaintext: "fl_tls_cert fl = [] \<or> fl_tls_key fl = [] \<Longrightarrow> listen_as fl = Plain (fl_addr fl)"
  by (auto simp: listen_as_def)

end
