(* ===== verification/ApiLaws.thy ===== *)
theory ApiLaws
  imports Admin SessionLaws
begin

text \<open>Ownership of devices, and what deleting one guarantees.\<close>

section \<open>Ownership\<close>

text \<open>A device reference that does not name a device of the user.\<close>

definition foreign :: "(string \<Rightarrow> uuid option) \<Rightarrow> uuid \<Rightarrow> string \<Rightarrow> db \<Rightarrow> bool" where
  "foreign parse_id uid ref d \<longleftrightarrow>
     (case parse_id ref of
        None \<Rightarrow> True
      | Some i \<Rightarrow> (case find (\<lambda>v. d_id v = i) (devices d) of None \<Rightarrow> True | Some v \<Rightarrow> d_user_id v \<noteq> uid))"

lemma own_device_foreign:
  assumes "foreign parse_id uid ref (w_db w)"
  shows "\<exists>w'. run_state (own_device parse_id uid ref act) w = (device_not_found, w') \<and> w_db w' = w_db w \<and> w_edge w' = w_edge w"
proof (cases "parse_id ref")
  case None
  obtain r w' where run: "run_state (db_call (\<lambda>now d. (Inl bad_uuid, d)) :: (_, goerr + device) proc) w = (r, w')" by (rule prod.exhaust)
  note o = db_call_outcome [OF run]
  then have "isl r" "w_db w' = w_db w" "w_edge w' = w_edge w" by auto
  with None run show ?thesis by (auto simp: own_device_def store_device_by_ref_def isl_def)
next
  case (Some i)
  obtain r w' where run: "run_state (store_device_by_id i) w = (r, w')" by (rule prod.exhaust)
  note o = db_call_outcome [OF run [unfolded store_device_by_id_def]]
  then have w': "w_db w' = w_db w" "w_edge w' = w_edge w" by (auto simp: device_by_id_def)
  have "isl r \<or> (\<exists>v. r = Inr v \<and> d_user_id v \<noteq> uid)"
    using o assms Some by (auto simp: foreign_def device_by_id_def split: option.splits)
  with Some run w' show ?thesis by (auto simp: own_device_def store_device_by_ref_def isl_def)
qed

text \<open>
  C14 (foreign_device_untouchable). A user cannot do anything with a device that is not theirs: deleting
  it, rotating its key, releasing its tunnels or asking for their status is refused with 400 or 404,
  the same for a device of somebody else and for none at all, and changes neither the database nor a
  box.
\<close>

theorem foreign_device_untouchable:
  assumes "foreign parse_id uid ref (w_db w)"
  shows "\<exists>w1 w2 w3 w4.
    run_state (handle_delete_device parse_id uid ref) w = (device_not_found, w1) \<and>
    run_state (handle_release parse_id uid ref) w = (device_not_found, w2) \<and>
    run_state (handle_rotate_key parse_id uid ref key) w =
      (if wgkey_validate key = None then invalid_public_key else device_not_found, w3) \<and>
    run_state (handle_tunnel_status parse_id uid ref) w = (if ref = [] then device_id_required else device_not_found, w4) \<and>
    (\<forall>v \<in> {w1, w2, w3, w4}. w_db v = w_db w \<and> w_edge v = w_edge w)"
proof -
  note own = own_device_foreign [OF assms]
  obtain w1 where 1: "run_state (handle_delete_device parse_id uid ref) w = (device_not_found, w1)" "w_db w1 = w_db w \<and> w_edge w1 = w_edge w"
    unfolding handle_delete_device_def using own by blast
  obtain w2 where 2: "run_state (handle_release parse_id uid ref) w = (device_not_found, w2)" "w_db w2 = w_db w \<and> w_edge w2 = w_edge w"
    unfolding handle_release_def using own by blast
  have "\<exists>w3. run_state (handle_rotate_key parse_id uid ref key) w =
      (if wgkey_validate key = None then invalid_public_key else device_not_found, w3) \<and> w_db w3 = w_db w \<and> w_edge w3 = w_edge w"
  proof (cases "wgkey_validate key")
    case (Some k)
    show ?thesis unfolding handle_rotate_key_def Some option.case using own by simp
  qed (simp add: handle_rotate_key_def)
  then obtain w3 where 3: "run_state (handle_rotate_key parse_id uid ref key) w =
      (if wgkey_validate key = None then invalid_public_key else device_not_found, w3)" "w_db w3 = w_db w \<and> w_edge w3 = w_edge w"
    by blast
  have "\<exists>w4. run_state (handle_tunnel_status parse_id uid ref) w = (if ref = [] then device_id_required else device_not_found, w4) \<and>
      w_db w4 = w_db w \<and> w_edge w4 = w_edge w"
    using own by (cases "ref = []") (simp_all add: handle_tunnel_status_def)
  then obtain w4 where 4: "run_state (handle_tunnel_status parse_id uid ref) w = (if ref = [] then device_id_required else device_not_found, w4)"
      "w_db w4 = w_db w \<and> w_edge w4 = w_edge w" by blast
  have all: "\<forall>v \<in> {w1, w2, w3, w4}. w_db v = w_db w \<and> w_edge v = w_edge w"
    by (intro ballI, elim insertE emptyE) (simp_all only: 1(2) 2(2) 3(2) 4(2) simp_thms)
  show ?thesis by (intro exI conjI) (rule 1(1) 2(1) 3(1) 4(1) all)+
qed

section \<open>Deleting a device\<close>

lemma revoke_device_rows:
  "\<forall>v \<in> set (devices (snd (revoke_device now dev d))). d_id v = dev \<longrightarrow> d_revoked_at v \<noteq> None"
  unfolding revoke_device_def snd_conv by (simp add: set_update_where ball_Un)

lemma begin_revoke_unwanted: "\<not> wanted (begin_revoke now p)"
  by (simp add: begin_revoke_def wanted_def)

lemma begin_revoke_device_rows:
  "\<forall>p \<in> set (peers (snd (begin_revoke_for_device now dev d))). p_device_id p = dev \<longrightarrow> \<not> wanted p"
  by (auto simp: begin_revoke_for_device_def revoke_where_def set_update_where begin_revoke_unwanted split: if_splits)

text \<open>A device that is gone: retired, and with no peer that is wanted on a box.\<close>

definition device_gone :: "uuid \<Rightarrow> db \<Rightarrow> bool" where
  "device_gone dev d \<longleftrightarrow> (\<forall>v \<in> set (devices d). d_id v = dev \<longrightarrow> d_revoked_at v \<noteq> None) \<and>
     (\<forall>p \<in> set (peers d). p_device_id p = dev \<longrightarrow> \<not> wanted p)"

lemma provision_gone:
  assumes "device_gone dev (w_db w)" and "run_state (provision cl rq) w = (r, w')" and "rq_device_id rq = dev"
  shows "isl r \<and> w_db w' = w_db w \<and> w_edge w' = w_edge w"
proof -
  obtain re w1 where 1: "run_state (store_entitlement (rq_user_id rq)) w = (re, w1)" by (rule prod.exhaust)
  have w1: "w_db w1 = w_db w" "w_edge w1 = w_edge w"
    using db_call_outcome [OF 1 [unfolded store_entitlement_def]] by (auto simp: get_entitlement_def)
  obtain rd w2 where 2: "run_state (store_device_by_id dev) w1 = (rd, w2)" by (rule prod.exhaust)
  have w2: "w_db w2 = w_db w" "w_edge w2 = w_edge w"
    using db_call_outcome [OF 2 [unfolded store_device_by_id_def]] w1 by (auto simp: device_by_id_def)
  have rd: "d_revoked_at v \<noteq> None" if "rd = Inr v" for v
  proof -
    have "find (\<lambda>v. d_id v = dev) (devices (w_db w)) = Some v"
      using db_call_outcome [OF 2 [unfolded store_device_by_id_def]] w1 that
      by (auto simp: device_by_id_def driver_error_def split: option.splits)
    from find_Some_iff_set [OF this] assms(1) show ?thesis by (auto simp: device_gone_def)
  qed
  show ?thesis
  proof (cases re)
    case (Inl e)
    with assms(2) 1 w1 show ?thesis by (auto simp: provision_def)
  next
    case (Inr ent)
    show ?thesis
    proof (cases "e_active ent")
      case False
      with Inr assms(2) 1 w1 show ?thesis by (auto simp: provision_def)
    next
      case True
      show ?thesis
      proof (cases rd)
        case (Inl e)
        with True Inr assms(2,3) 1 2 w2 \<open>re = Inr ent\<close> show ?thesis by (auto simp: provision_def)
      next
        case rd': (Inr v)
        with rd have "d_revoked_at v \<noteq> None" by blast
        with rd' True \<open>re = Inr ent\<close> assms(2,3) 1 2 w2 show ?thesis by (auto simp: provision_def)
      qed
    qed
  qed
qed


text \<open>Rotating a device's key leaves its assignments as they are until the next provisioning request.\<close>

lemma rotation_leaves_assignments: "peers (snd (rotate_device_key dev key d)) = peers d"
  by (simp add: rotate_device_key_def)

end
