(* ===== verification/WgLaws.thy ===== *)
theory WgLaws
  imports Wg
begin

text \<open>
  What the WireGuard tools are documented to do to the peer table of an interface, and what the
  agent's driver makes of it: reading the dump back, rotation, synchronisation, also when programs
  fail in between.
\<close>

section \<open>Keys\<close>

definition canonical :: "string \<Rightarrow> bool" where
  "canonical k \<longleftrightarrow> validate_key k = Inr k"

lemma validate_key_cases:
  "(\<exists>raw. validate_key key = Inr (b64_encode raw) \<and> bytes raw \<and> length raw = 32) \<or> validate_key key = Inl (Sentinel ErrInvalidKey)"
  by (auto simp: validate_key_def dest: decode_bytes split: option.splits)

lemma validate_encode: "bytes raw \<Longrightarrow> length raw = 32 \<Longrightarrow> validate_key (b64_encode raw) = Inr (b64_encode raw)"
  by (simp add: validate_key_def length_encode decode_encode)

lemma validate_canonical: "validate_key key = Inr k \<Longrightarrow> canonical k"
  using validate_key_cases [of key] by (auto simp: canonical_def validate_encode)

lemma canonical_nonempty: "canonical k \<Longrightarrow> k \<noteq> []"
  by (auto simp: canonical_def validate_key_def)

section \<open>The tools\<close>

type_synonym wg_table = "string \<Rightarrow> (ipv4 \<times> nat) list option"

text \<open>An allowed address belongs to one peer: giving it to a peer takes it from any other.\<close>

definition give :: "string \<Rightarrow> ipv4 \<times> nat \<Rightarrow> wg_table \<Rightarrow> wg_table" where
  "give k a t = (\<lambda>j. if j = k then Some [a] else map_option (filter (\<lambda>b. b \<noteq> a)) (t j))"

fun wg_effect :: "wg_cmd \<Rightarrow> wg_table \<Rightarrow> wg_table" where
  "wg_effect (SetAllowed key ip) t = give key (ip, 32) t"
| "wg_effect (RemoveCmd key) t = t(key := None)"
| "wg_effect _ t = t"

text \<open>
  The dump: a line about the interface, then one line per peer with the key, the preshared key, the
  endpoint, the allowed addresses and the counters, separated by tabs.
\<close>

definition allowed_text :: "(ipv4 \<times> nat) list \<Rightarrow> string" where
  "allowed_text al = (if al = [] then ''(none)'' else join '','' (map prefix_text al))"

record dump_entry =
  de_key :: string
  de_psk :: string
  de_endpoint :: string
  de_allowed :: "(ipv4 \<times> nat) list"
  de_rest :: string

definition entry_text :: "dump_entry \<Rightarrow> string" where
  "entry_text e = de_key e @ CHR 0x09 # de_psk e @ CHR 0x09 # de_endpoint e @ CHR 0x09 #
     allowed_text (de_allowed e) @ CHR 0x09 # de_rest e"

definition dump_text :: "string \<Rightarrow> dump_entry list \<Rightarrow> string" where
  "dump_text header es = header @ concat (map (\<lambda>e. CHR 0x0A # entry_text e) es) @ [CHR 0x0A]"

text \<open>Text without tabs and line breaks, and with no white space at its ends.\<close>

definition plain :: "string \<Rightarrow> bool" where
  "plain s \<longleftrightarrow> CHR 0x09 \<notin> set s \<and> CHR 0x0A \<notin> set s"

definition solid :: "string \<Rightarrow> bool" where
  "solid s \<longleftrightarrow> s \<noteq> [] \<and> \<not> is_space (hd s) \<and> \<not> is_space (last s) \<and> CHR 0x0A \<notin> set s"

definition entry_ok :: "dump_entry \<Rightarrow> bool" where
  "entry_ok e \<longleftrightarrow> canonical (de_key e) \<and> plain (de_psk e) \<and> plain (de_endpoint e) \<and> solid (de_rest e) \<and>
     (\<forall>a \<in> set (de_allowed e). snd a \<le> 32)"

definition shows_table :: "string \<Rightarrow> wg_table \<Rightarrow> bool" where
  "shows_table out t \<longleftrightarrow>
     (\<exists>header es. out = dump_text header es \<and> solid header \<and> (\<forall>e \<in> set es. entry_ok e) \<and>
        distinct (map de_key es) \<and> t = map_of (map (\<lambda>e. (de_key e, de_allowed e)) es))"

text \<open>
  \<open>tbl\<close> reads the peer table off the machine. A command has its effect; when it fails, its effect
  may or may not have taken place. A dump that succeeds shows the table.
\<close>

fun cmd_key_ok :: "wg_cmd \<Rightarrow> bool" where
  "cmd_key_ok (SetAllowed key ip) = canonical key"
| "cmd_key_ok (RemoveCmd key) = canonical key"
| "cmd_key_ok _ = True"

definition tools_ok :: "'w wg_client \<Rightarrow> ('w \<Rightarrow> wg_table) \<Rightarrow> bool" where
  "tools_ok c tbl \<longleftrightarrow>
     (\<forall>cmd w r w'. cmd_key_ok cmd \<longrightarrow> run_state (wg_run c cmd) w = (r, w') \<longrightarrow>
        (tbl w' = wg_effect cmd (tbl w) \<or> (isl r \<and> tbl w' = tbl w)) \<and>
        (\<forall>out. cmd = DumpCmd \<longrightarrow> r = Inr out \<longrightarrow> shows_table out (tbl w)))"

definition tools_work :: "'w wg_client \<Rightarrow> ('w \<Rightarrow> bool) \<Rightarrow> bool" where
  "tools_work c healthy \<longleftrightarrow>
     (\<forall>cmd w r w'. healthy w \<longrightarrow> run_state (wg_run c cmd) w = (r, w') \<longrightarrow> \<not> isl r \<and> healthy w')"

section \<open>Reading the dump\<close>

lemma alphabet_val: "b64_val c \<noteq> None \<Longrightarrow> c \<noteq> CHR 0x09 \<and> c \<noteq> CHR 0x0A \<and> \<not> is_space c"
  by (auto simp: b64_val_def is_space_def Let_def split: if_splits)

lemma b64_encode_chars: "bytes bs \<Longrightarrow> \<forall>c \<in> set (b64_encode bs). b64_val c \<noteq> None \<or> c = CHR 0x3D"
proof (induction bs rule: b64_encode.induct)
  case (1 a b c rest)
  then have r: "0 \<le> a" "a < 256" "0 \<le> b" "b < 256" "0 \<le> c" "c < 256" and IH: "\<forall>c \<in> set (b64_encode rest). b64_val c \<noteq> None \<or> c = CHR 0x3D"
    by (auto simp: bytes_def)
  note q = quad_split [OF r]
  show ?case
    unfolding b64_encode.simps set_append ball_Un list.set ball_simps
    using IH b64_val_char [OF q(1,2)] b64_val_char [OF q(3,4)] b64_val_char [OF q(5,6)] b64_val_char [OF q(7,8)] by blast
next
  case (2 a b)
  then have r: "0 \<le> a" "a < 256" "0 \<le> b" "b < 256" "(0 :: int) \<le> 0" "(0 :: int) < 256" by (auto simp: bytes_def)
  note q = quad_split [OF r]
  have z: "0 \<le> b mod 16 * 4" "b mod 16 * 4 < 64" using q(5,6) by (simp_all only: div_0 add_0_right)
  show ?case
    unfolding b64_encode.simps list.set ball_simps
    using b64_val_char [OF q(1,2)] b64_val_char [OF q(3,4)] b64_val_char [OF z] by blast
next
  case (3 a)
  then have r: "0 \<le> a" "a < 256" "(0 :: int) \<le> 0" "(0 :: int) < 256" by (auto simp: bytes_def)
  note q = quad_split [OF r(1,2) r(3,4) r(3,4)]
  have z: "0 \<le> a mod 4 * 16" "a mod 4 * 16 < 64" using q(3,4) by (simp_all only: div_0 add_0_right)
  show ?case
    unfolding b64_encode.simps list.set ball_simps
    using b64_val_char [OF q(1,2)] b64_val_char [OF z] by blast
qed simp

lemma canonical_chars:
  assumes "canonical k" and "c \<in> set k"
  shows "c \<noteq> CHR 0x09" "c \<noteq> CHR 0x0A" "\<not> is_space c"
proof -
  obtain raw where "k = b64_encode raw" "bytes raw"
    using assms(1) validate_key_cases [of k] by (auto simp: canonical_def)
  then have "b64_val c \<noteq> None \<or> c = CHR 0x3D" using b64_encode_chars assms(2) by blast
  then show "c \<noteq> CHR 0x09" "c \<noteq> CHR 0x0A" "\<not> is_space c"
    using alphabet_val [of c] by (auto simp: is_space_def)
qed

lemma addr_char_facts: "addr_char c \<Longrightarrow> c \<noteq> CHR 0x09 \<and> c \<noteq> CHR 0x0A \<and> c \<noteq> CHR 0x2C"
  by (auto simp: addr_char_def is_digit_def)

lemma set_join: "set (join [s] xs) \<subseteq> insert s (\<Union> (set ` set xs))"
  by (induction "[s]" xs rule: join.induct) auto

lemma allowed_text_plain: "plain (allowed_text al)"
proof -
  have "c \<noteq> CHR 0x09 \<and> c \<noteq> CHR 0x0A" if "c \<in> set (allowed_text al)" for c
  proof (cases "al = []")
    case True
    then show ?thesis using that by (auto simp: allowed_text_def)
  next
    case False
    then have "c = CHR 0x2C \<or> (\<exists>a \<in> set al. c \<in> set (prefix_text a))"
      using that set_join [of "CHR 0x2C" "map prefix_text al"] by (auto simp: allowed_text_def)
    then show ?thesis using prefix_text_chars addr_char_facts by fastforce
  qed
  then show ?thesis unfolding plain_def by blast
qed

lemma first_of_join: "xs \<noteq> [] \<Longrightarrow> s \<notin> set (hd xs) \<Longrightarrow> hd (split_on s (join [s] xs)) = hd xs"
  by (induction "[s]" xs rule: join.induct) (auto simp: split_on_none split_on_append)

definition first_addr :: "(ipv4 \<times> nat) list \<Rightarrow> ipv4 option" where
  "first_addr al = (case al of [] \<Rightarrow> None | a # _ \<Rightarrow> Some (fst a))"

lemma allowed_addr_text: "\<forall>a \<in> set al. snd a \<le> 32 \<Longrightarrow> allowed_addr (allowed_text al) = first_addr al"
proof (cases al)
  case Nil
  have "allowed_addr ''(none)'' = None" by code_simp
  then show ?thesis using Nil by (simp add: allowed_text_def first_addr_def)
next
  case (Cons a rest)
  assume "\<forall>a \<in> set al. snd a \<le> 32"
  then have "parse_prefix4 (prefix_text a) = Some a" using parse_prefix_text [of "snd a" "fst a"] Cons by simp
  moreover have "CHR 0x2C \<notin> set (prefix_text a)" using prefix_text_chars addr_char_facts by blast
  ultimately show ?thesis
    using first_of_join [of "map prefix_text al" "CHR 0x2C"] Cons
    by (simp add: allowed_addr_def allowed_text_def first_addr_def)
qed

lemma entry_line:
  assumes "entry_ok e"
  shows "dump_line (entry_text e) m = AList.update (de_key e) (first_addr (de_allowed e)) m"
proof -
  let ?al = "allowed_text (de_allowed e)"
  have key: "CHR 0x09 \<notin> set (de_key e)" "de_key e \<noteq> []" "\<not> is_space (hd (de_key e))"
    using assms canonical_chars canonical_nonempty by (auto simp: entry_ok_def)
  have f: "CHR 0x09 \<notin> set (de_psk e)" "CHR 0x09 \<notin> set (de_endpoint e)" "CHR 0x09 \<notin> set ?al"
    using assms allowed_text_plain [of "de_allowed e"] by (auto simp: entry_ok_def plain_def)
  have s: "split_on (CHR 0x09) (entry_text e) = de_key e # de_psk e # de_endpoint e # ?al # split_on (CHR 0x09) (de_rest e)"
    unfolding entry_text_def using key(1) f by (simp add: split_on_append)
  have "length (split_on (CHR 0x09) (de_rest e)) \<noteq> 0" using split_on_nonempty by simp
  moreover have "trim_space (entry_text e) \<noteq> []"
  proof -
    have "hd (entry_text e) = hd (de_key e)" "entry_text e \<noteq> []" using key(2) by (simp_all add: entry_text_def)
    then have "dropWhile is_space (entry_text e) = entry_text e" using key(3) by (cases "entry_text e") auto
    moreover have "\<exists>c \<in> set (rev (entry_text e)). \<not> is_space c"
      using key(2,3) by (intro bexI [of _ "hd (de_key e)"]) (simp_all add: entry_text_def)
    ultimately show ?thesis unfolding trim_space_def by (simp add: dropWhile_eq_Nil_conv)
  qed
  ultimately show ?thesis
    using s assms allowed_addr_text [of "de_allowed e"] by (simp add: dump_line_def entry_ok_def Let_def)
qed

lemma entry_text_solid: "entry_ok e \<Longrightarrow> CHR 0x0A \<notin> set (entry_text e) \<and> entry_text e \<noteq> [] \<and> last (entry_text e) = last (de_rest e)"
  using canonical_chars(2) [of "de_key e" "CHR 0x0A"] allowed_text_plain [of "de_allowed e"]
  by (auto simp: entry_text_def entry_ok_def plain_def solid_def)

lemma dump_body_last:
  "solid header \<Longrightarrow> \<forall>e \<in> set es. entry_ok e \<Longrightarrow> \<not> is_space (last (header @ concat (map (\<lambda>e. CHR 0x0A # entry_text e) es)))"
proof (induction es rule: rev_induct)
  case (snoc e es)
  then have "last (entry_text e) = last (de_rest e)" "entry_text e \<noteq> []" "\<not> is_space (last (de_rest e))"
    using entry_text_solid [of e] by (auto simp: entry_ok_def solid_def)
  then show ?case by simp
qed (simp add: solid_def)

lemma dump_lines:
  "CHR 0x0A \<notin> set header \<Longrightarrow> \<forall>e \<in> set es. entry_ok e \<Longrightarrow>
   split_on (CHR 0x0A) (header @ concat (map (\<lambda>e. CHR 0x0A # entry_text e) es)) = header # map entry_text es"
proof (induction es arbitrary: header)
  case (Cons e es)
  then show ?case using entry_text_solid [of e] by (simp add: split_on_append)
qed (simp add: split_on_none)

lemma trim_line_end:
  assumes "s \<noteq> []" "\<not> is_space (hd s)" "\<not> is_space (last s)" "is_space c"
  shows "trim_space (s @ [c]) = s"
proof -
  have "dropWhile is_space (s @ [c]) = s @ [c]" using assms(1,2) by (cases s) auto
  moreover have "dropWhile is_space (rev (s @ [c])) = dropWhile is_space (rev s)" using assms(4) by simp
  moreover have "dropWhile is_space (rev s) = rev s"
    using assms(1,3) by (cases s rule: rev_cases) auto
  ultimately show ?thesis by (simp add: trim_space_def)
qed

lemma trim_dump:
  assumes "solid header" and "\<forall>e \<in> set es. entry_ok e"
  shows "trim_space (dump_text header es) = header @ concat (map (\<lambda>e. CHR 0x0A # entry_text e) es)"
proof -
  have "is_space (CHR 0x0A)" by (simp add: is_space_def)
  with trim_line_end [OF _ _ dump_body_last [OF assms]] show ?thesis
    using assms(1) by (simp add: dump_text_def solid_def)
qed

lemma fold_entries:
  assumes "\<forall>e \<in> set es. entry_ok e" and "distinct (map de_key es)" and "de_key ` set es \<inter> fst ` set m = {}"
  shows "fold dump_line (map entry_text es) m = m @ map (\<lambda>e. (de_key e, first_addr (de_allowed e))) es"
  using assms
proof (induction es arbitrary: m)
  case (Cons e es)
  have "AList.update (de_key e) v m = m @ [(de_key e, v)]" for v
    using Cons.prems(3) by (induction m) auto
  moreover have "fold dump_line (map entry_text es) (m @ [(de_key e, first_addr (de_allowed e))]) =
      (m @ [(de_key e, first_addr (de_allowed e))]) @ map (\<lambda>e. (de_key e, first_addr (de_allowed e))) es"
    by (rule Cons.IH) (use Cons.prems in auto)
  ultimately show ?case using Cons.prems(1) by (simp add: entry_line)
qed simp

lemma parse_dump_text:
  assumes "solid header" "\<forall>e \<in> set es. entry_ok e" "distinct (map de_key es)"
  shows "parse_dump (dump_text header es) = map (\<lambda>e. (de_key e, first_addr (de_allowed e))) es"
proof -
  have "CHR 0x0A \<notin> set header" using assms(1) by (simp add: solid_def)
  from dump_lines [OF this assms(2)] show ?thesis
    using fold_entries [OF assms(2,3), of "[]"] by (simp add: parse_dump_def trim_dump [OF assms(1,2)])
qed

text \<open>
  C31 (dump_read_back). What \<open>wg show dump\<close> prints about a table, \<open>ListPeers\<close> reads back: exactly the
  keys of the table, each with its first allowed address, whatever the other columns hold.
\<close>

theorem dump_read_back:
  assumes "shows_table out t"
  shows "map_of (parse_dump out) = (\<lambda>k. map_option first_addr (t k)) \<and> distinct (map fst (parse_dump out))"
proof -
  obtain header es where o: "out = dump_text header es" "solid header" "\<forall>e \<in> set es. entry_ok e"
    "distinct (map de_key es)" "t = map_of (map (\<lambda>e. (de_key e, de_allowed e)) es)"
    using assms unfolding shows_table_def by blast
  have "map_of (map (\<lambda>e. (de_key e, f (de_allowed e))) es) k =
      map_option f (map_of (map (\<lambda>e. (de_key e, de_allowed e)) es) k)" for f :: "_ \<Rightarrow> ipv4 option" and k
    by (induction es) auto
  then show ?thesis
    using parse_dump_text [OF o(2-4)] o(1,4,5) by (auto simp: comp_def fun_eq_iff)
qed

end
