(* ===== verification/WgSync.thy ===== *)
theory WgSync
  imports WgLaws
begin

text \<open>
  The driver's three mutations on the peer table, with the tools of \<open>WgLaws\<close> failing anywhere: what a
  call that reports success has done, and what a call cut short can have done.
\<close>

section \<open>Single steps\<close>

lemma run_and_then:
  "run_state (and_then m f) w =
     (case run_state m w of (Inl e, w1) \<Rightarrow> (Inl e, w1) | (Inr x, w1) \<Rightarrow> run_state (f x) w1)"
  by (auto simp: and_then_def split: prod.splits sum.splits)

lemma and_then_Inr:
  assumes "run_state (and_then m f) w = (Inr y, w')"
  obtains x w1 where "run_state m w = (Inr x, w1)" "run_state (f x) w1 = (Inr y, w')"
  using assms by (auto simp: run_and_then split: prod.splits sum.splits)

lemma tools_step:
  assumes "tools_ok c tbl" "cmd_key_ok cmd" "run_state (wg_run c cmd) w = (r, w')"
  shows "tbl w' = wg_effect cmd (tbl w) \<or> (isl r \<and> tbl w' = tbl w)"
    "cmd = DumpCmd \<Longrightarrow> r = Inr out \<Longrightarrow> shows_table out (tbl w)"
  using assms unfolding tools_ok_def by blast+

lemma set_step:
  assumes "tools_ok c tbl" "canonical k" "run_state (wg_set c k ip) w = (r, w')"
  shows "tbl w' = give k (ip, 32) (tbl w) \<or> (isl r \<and> tbl w' = tbl w)"
proof -
  obtain r0 w0 where "run_state (wg_run c (SetAllowed k ip)) w = (r0, w0)"
    by (cases "run_state (wg_run c (SetAllowed k ip)) w")
  with tools_step(1) [OF assms(1), of "SetAllowed k ip" w r0 w0] assms(2,3) show ?thesis
    by (cases r0) (auto simp: wg_set_def run_and_then)
qed

lemma remove_step:
  assumes "tools_ok c tbl" "canonical k" "run_state (wg_remove c k) w = (r, w')"
  shows "tbl w' = (tbl w)(k := None) \<or> (isl r \<and> tbl w' = tbl w)"
proof -
  obtain r0 w0 where "run_state (wg_run c (RemoveCmd k)) w = (r0, w0)"
    by (cases "run_state (wg_run c (RemoveCmd k)) w")
  with tools_step(1) [OF assms(1), of "RemoveCmd k" w r0 w0] assms(2,3) show ?thesis
    by (cases r0) (auto simp: wg_remove_def run_and_then)
qed

lemma quiet_step:
  assumes "tools_ok c tbl" "cmd = DumpCmd \<or> cmd = ShowCmd \<or> cmd = SaveCmd" "run_state (wg_run c cmd) w = (r, w')"
  shows "tbl w' = tbl w"
  using tools_step(1) [OF assms(1) _ assms(3)] assms(2) by auto

lemma save_step: "tools_ok c tbl \<Longrightarrow> run_state (wg_save c) w = (r, w') \<Longrightarrow> tbl w' = tbl w"
  using quiet_step [of c tbl SaveCmd w]
  by (auto simp: wg_save_def split: prod.splits sum.splits if_splits)

lemma list_step:
  assumes "tools_ok c tbl" "run_state (list_peers c) w = (r, w')"
  shows "tbl w' = tbl w"
    "r = Inr m \<Longrightarrow> map_of m = (\<lambda>k. map_option first_addr (tbl w k)) \<and> distinct (map fst m)"
proof -
  obtain r0 w0 where run: "run_state (wg_run c DumpCmd) w = (r0, w0)" by (cases "run_state (wg_run c DumpCmd) w")
  with quiet_step [OF assms(1) _ run] assms(2) show "tbl w' = tbl w"
    by (cases r0) (auto simp: list_peers_def run_and_then)
  assume "r = Inr m"
  then obtain out where "r0 = Inr out" "m = parse_dump out"
    using run assms(2) by (cases r0) (auto simp: list_peers_def run_and_then)
  with tools_step(2) [OF assms(1) _ run] have "shows_table out (tbl w)" by simp
  then obtain header es where o: "out = dump_text header es" "solid header" "\<forall>e \<in> set es. entry_ok e"
    "distinct (map de_key es)" "tbl w = map_of (map (\<lambda>e. (de_key e, de_allowed e)) es)"
    unfolding shows_table_def by blast
  have "map_of (map (\<lambda>e. (de_key e, f (de_allowed e))) es) k =
      map_option f (map_of (map (\<lambda>e. (de_key e, de_allowed e)) es) k)" for f :: "_ \<Rightarrow> ipv4 option" and k
    by (induction es) auto
  then show "map_of m = (\<lambda>k. map_option first_addr (tbl w k)) \<and> distinct (map fst m)"
    using parse_dump_text [OF o(2-4)] o(1,4,5) \<open>m = parse_dump out\<close> by (auto simp: comp_def fun_eq_iff)
qed

section \<open>One peer\<close>

definition replaced :: "string \<Rightarrow> string \<Rightarrow> wg_table \<Rightarrow> wg_table" where
  "replaced key replaces t =
     (if replaces \<noteq> [] \<and> replaces \<noteq> key
      then (case validate_key replaces of Inl e \<Rightarrow> t | Inr old \<Rightarrow> t(old := None)) else t)"

lemma drop_replaced_step:
  assumes "tools_ok c tbl" "run_state (drop_replaced c key replaces) w = (r, w')"
  shows "tbl w' = replaced key replaces (tbl w) \<or> (isl r \<and> tbl w' = tbl w)"
  using assms remove_step [OF assms(1) validate_canonical]
  by (auto simp: drop_replaced_def replaced_def split: if_splits sum.splits)

lemma set_peer_step:
  assumes tools: "tools_ok c tbl" and run: "run_state (set_peer c peer replaces) w = (r, w')"
  shows "(r = Inr () \<longrightarrow> (\<exists>key ip. validate_key (wp_public_key peer) = Inr key \<and> wp_tunnel_ip peer = Some ip \<and>
            tbl w' = give key (ip, 32) (replaced key replaces (tbl w)))) \<and>
    (tbl w' = tbl w \<or> (\<exists>key. validate_key (wp_public_key peer) = Inr key \<and>
       (tbl w' = replaced key replaces (tbl w) \<or>
        (\<exists>ip. wp_tunnel_ip peer = Some ip \<and> tbl w' = give key (ip, 32) (replaced key replaces (tbl w))))))"
proof (cases "validate_key (wp_public_key peer)")
  case (Inl e)
  with run show ?thesis by (auto simp: set_peer_def)
next
  case (Inr key)
  show ?thesis
  proof (cases "wp_tunnel_ip peer")
    case None
    with Inr run show ?thesis by (auto simp: set_peer_def)
  next
    case (Some ip)
    let ?t = "replaced key replaces (tbl w)"
    obtain r1 w1 where 1: "run_state (drop_replaced c key replaces) w = (r1, w1)"
      by (cases "run_state (drop_replaced c key replaces) w")
    obtain r2 w2 where 2: "run_state (wg_set c key ip) w1 = (r2, w2)" by (cases "run_state (wg_set c key ip) w1")
    obtain r3 w3 where 3: "run_state (wg_save c) w2 = (r3, w3)" by (cases "run_state (wg_save c) w2")
    note s1 = drop_replaced_step [OF tools 1] and s2 = set_step [OF tools validate_canonical [OF Inr] 2]
      and s3 = save_step [OF tools 3]
    have all: "(r, w') = (case r1 of Inl e \<Rightarrow> (Inl e, w1) | Inr _ \<Rightarrow> (case r2 of Inl e \<Rightarrow> (Inl e, w2) | Inr _ \<Rightarrow> (r3, w3)))"
      using run Inr Some 1 2 3 by (auto simp: set_peer_def run_and_then split: sum.splits)
    show ?thesis
    proof (cases r1)
      case (Inl e)
      with all s1 Inr show ?thesis by auto
    next
      case r1: (Inr x)
      show ?thesis
      proof (cases r2)
        case (Inl e)
        with all r1 s1 s2 Inr Some show ?thesis by auto
      next
        case (Inr y)
        with all r1 s1 s2 s3 \<open>validate_key (wp_public_key peer) = Inr key\<close> Some show ?thesis by auto
      qed
    qed
  qed
qed

text \<open>
  C18 (rotation_never_both). While a key replaces another one, the box never accepts both, wherever
  the commands fail or the process dies: the new key is installed only after the old one is gone. A
  success means the old key is gone and the new one holds the address.
\<close>

theorem rotation_never_both:
  assumes "tools_ok c tbl" and "validate_key (wp_public_key peer) = Inr key" and "validate_key replaces = Inr old"
    and "old \<noteq> key" and "run_state (set_peer c peer replaces) w = (r, w')"
  shows "(tbl w' key \<noteq> tbl w key \<longrightarrow> tbl w' old = None) \<and> (tbl w' = tbl w \<or> tbl w' old = None) \<and>
    (r = Inr () \<longrightarrow> tbl w' old = None \<and> (\<exists>ip. wp_tunnel_ip peer = Some ip \<and> tbl w' key = Some [(ip, 32)]))"
proof -
  have "replaces \<noteq> key" using assms(2-4) validate_canonical [of "wp_public_key peer" key] by (auto simp: canonical_def)
  moreover have "replaces \<noteq> []" using assms(3) by (auto simp: validate_key_def)
  ultimately have rep: "replaced key replaces (tbl w) = (tbl w)(old := None)"
    using assms(3) by (simp add: replaced_def)
  have step: "r = Inr () \<Longrightarrow> \<exists>ip. wp_tunnel_ip peer = Some ip \<and> tbl w' = give key (ip, 32) ((tbl w)(old := None))"
    "tbl w' = tbl w \<or> tbl w' = (tbl w)(old := None) \<or> (\<exists>ip. tbl w' = give key (ip, 32) ((tbl w)(old := None)))"
    using set_peer_step [OF assms(1,5)] assms(2) unfolding rep [symmetric] by auto
  have g: "give key (ip, 32) ((tbl w)(old := None)) old = None" "give key (ip, 32) ((tbl w)(old := None)) key = Some [(ip, 32)]"
    "((tbl w)(old := None)) key = tbl w key" for ip
    using assms(4) by (simp_all add: give_def)
  have any: "tbl w' = tbl w \<or> tbl w' old = None" using step(2) g(1) by (metis fun_upd_same)
  moreover have "tbl w' old = None \<and> (\<exists>ip. wp_tunnel_ip peer = Some ip \<and> tbl w' key = Some [(ip, 32)])" if "r = Inr ()"
    using step(1) [OF that] g by metis
  ultimately show ?thesis by auto
qed

section \<open>The whole table\<close>

lemma each_ok_Inr:
  assumes "run_state (each_ok xs f) w = (Inr u, w')" and "Inv {} w"
    and "\<And>x seen v v' u. x \<in> set xs \<Longrightarrow> Inv seen v \<Longrightarrow> run_state (f x) v = (Inr u, v') \<Longrightarrow> Inv (insert x seen) v'"
  shows "Inv (set xs) w'"
proof -
  have "Inv (seen \<union> set xs) w'" if "run_state (each_ok xs f) w = (Inr u, w')" "Inv seen w"
    "\<And>x seen v v' u. x \<in> set xs \<Longrightarrow> Inv seen v \<Longrightarrow> run_state (f x) v = (Inr u, v') \<Longrightarrow> Inv (insert x seen) v'" for seen
    using that
  proof (induction xs arbitrary: w seen)
    case (Cons x xs)
    then obtain y w1 where "run_state (f x) w = (Inr y, w1)" "run_state (each_ok xs f) w1 = (Inr u, w')"
      by (auto elim: and_then_Inr)
    moreover have "Inv (insert x seen) w1" using Cons.prems(3) [of x seen w] Cons.prems(2) calculation(1) by simp
    ultimately have "Inv (insert x seen \<union> set xs) w'" using Cons.prems(3) by (intro Cons.IH) auto
    then show ?case by simp
  qed simp
  from this [of "{}"] assms show ?thesis by simp
qed

text \<open>The table a peer set asks for, and the tables in which every peer has one host address or none.\<close>

definition tidy :: "wg_table \<Rightarrow> bool" where
  "tidy t \<longleftrightarrow> (\<forall>k al. t k = Some al \<longrightarrow> al = [] \<or> (\<exists>a. al = [(a, 32)]))"

definition want_table :: "(string \<times> ipv4) list \<Rightarrow> wg_table" where
  "want_table want k = map_option (\<lambda>ip. [(ip, 32)]) (map_of want k)"

lemma tidy_give: "tidy t \<Longrightarrow> tidy (give k (ip, 32) t)"
proof -
  assume t: "tidy t"
  show ?thesis
    unfolding tidy_def
  proof (intro allI impI)
    fix j al
    assume "give k (ip, 32) t j = Some al"
    then consider "al = [(ip, 32)]" | bs where "t j = Some bs" "al = filter (\<lambda>b. b \<noteq> (ip, 32)) bs"
      by (auto simp: give_def split: if_splits)
    then show "al = [] \<or> (\<exists>a. al = [(a, 32)])"
    proof cases
      case 2
      then have "bs = [] \<or> (\<exists>a. bs = [(a, 32)])" using t by (simp add: tidy_def)
      with 2(2) show ?thesis by (auto split: if_splits)
    qed simp
  qed
qed

lemma tidy_remove: "tidy t \<Longrightarrow> tidy (t(k := None))"
  by (simp add: tidy_def)

text \<open>A table that is right on the keys of \<open>done\<close> and on those that were right from the start.\<close>

definition partly :: "(string \<times> ipv4) list \<Rightarrow> (string \<times> ipv4 option) list \<Rightarrow> string set \<Rightarrow> wg_table \<Rightarrow> bool" where
  "partly want current ready t \<longleftrightarrow>
     (\<forall>k. t k \<noteq> None \<longrightarrow> map_of want k \<noteq> None) \<and>
     (\<forall>k ip. map_of want k = Some ip \<longrightarrow> k \<in> ready \<or> map_of current k = Some (Some ip) \<longrightarrow> t k = Some [(ip, 32)])"

lemma partly_give:
  assumes "partly want current ready t" and "map_of want k = Some ip"
    and other: "\<And>j. j \<noteq> k \<Longrightarrow> map_of want j \<noteq> Some ip"
  shows "partly want current (insert k ready) (give k (ip, 32) t)"
  using assms(1,2) other unfolding partly_def give_def by (auto split: if_splits)

lemma partly_all:
  assumes "partly want current ready t" and "fst ` set want \<subseteq> ready"
  shows "t = want_table want"
proof
  fix k
  show "t k = want_table want k"
  proof (cases "map_of want k")
    case None
    with assms(1) show ?thesis by (auto simp: partly_def want_table_def)
  next
    case (Some ip)
    then have "k \<in> ready" using assms(2) map_of_SomeD [OF Some] by force
    with Some assms(1) show ?thesis by (simp add: partly_def want_table_def)
  qed
qed

lemma want_map_canonical:
  "want_map ps m = Inr want \<Longrightarrow> \<forall>k \<in> fst ` set m. canonical k \<Longrightarrow> \<forall>k \<in> fst ` set want. canonical k"
proof (induction ps arbitrary: m)
  case (Cons p ps)
  then obtain key ip where k: "validate_key (wp_public_key p) = Inr key" "want_map ps (AList.update key ip m) = Inr want"
    by (auto split: sum.splits option.splits)
  show ?case
    by (rule Cons.IH [OF k(2)]) (use Cons.prems(2) validate_canonical [OF k(1)] in \<open>auto simp: dom_update\<close>)
qed simp

text \<open>Keys of a dump are canonical, so removing them is a well-formed command.\<close>

lemma table_canonical:
  assumes "shows_table out t" "t k \<noteq> None"
  shows "canonical k"
  using assms map_of_SomeD by (fastforce simp: shows_table_def entry_ok_def)

definition order_ok :: "(string list \<Rightarrow> string list) \<Rightarrow> bool" where
  "order_ok order \<longleftrightarrow> (\<forall>ks. set (order ks) = set ks)"

lemma sync_removals:
  assumes tools: "tools_ok c tbl" and can: "\<And>k. tbl w k \<noteq> None \<Longrightarrow> canonical k"
    and cur: "map_of current = (\<lambda>k. map_option first_addr (tbl w k))" and order: "order_ok order"
    and run: "run_state (each_ok (order (map fst current)) (\<lambda>key.
        if map_of want key = None then wg_remove c key else ret (Inr ()))) w = (Inr u, w')"
  shows "tbl w' = (\<lambda>k. if map_of want k = None then None else tbl w k)"
proof -
  let ?Inv = "\<lambda>seen v. tbl v = (\<lambda>k. if map_of want k = None \<and> k \<in> seen then None else tbl w k)"
  have keys: "k \<in> set (order (map fst current)) \<longleftrightarrow> tbl w k \<noteq> None" for k
    using order cur map_of_eq_None_iff [of current k] by (auto simp: order_ok_def fun_eq_iff)
  have "?Inv (set (order (map fst current))) w'"
  proof (rule each_ok_Inr [OF run, where Inv = ?Inv])
    fix x seen v v' and u :: unit
    assume x: "x \<in> set (order (map fst current))" and inv: "?Inv seen v"
      and step: "run_state (if map_of want x = None then wg_remove c x else ret (Inr ())) v = (Inr u, v')"
    show "?Inv (insert x seen) v'"
    proof (cases "map_of want x = None")
      case True
      have "canonical x" using x keys can by simp
      with remove_step [OF tools this, of v "Inr u" v'] step True have "tbl v' = (tbl v)(x := None)" by simp
      with inv True show ?thesis by (auto simp: fun_eq_iff)
    next
      case False
      with step inv show ?thesis by (auto simp: fun_eq_iff)
    qed
  qed simp
  then show ?thesis using keys by (auto simp: fun_eq_iff)
qed

text \<open>The four phases of a synchronisation that succeeds.\<close>

lemma sync_phases:
  assumes "want_map ps [] = Inr want" and "run_state (sync_wg order c ps) w = (Inr u, w')"
  obtains current w1 u2 w2 u3 w3 where "run_state (list_peers c) w = (Inr current, w1)"
    and "run_state (each_ok (order (map fst current)) (\<lambda>key.
             if map_of want key = None then wg_remove c key else ret (Inr ()))) w1 = (Inr u2, w2)"
    and "run_state (each_ok (order (map fst want)) (\<lambda>key.
             if map_of current key = Some (map_of want key) then ret (Inr ())
             else wg_set c key (the (map_of want key)))) w2 = (Inr u3, w3)"
    and "run_state (wg_save c) w3 = (Inr u, w')"
proof -
  from assms(2) [unfolded sync_wg_def] show thesis
  proof (rule and_then_Inr)
    fix current w1
    assume 1: "run_state (list_peers c) w = (Inr current, w1)"
      and "run_state (case want_map ps [] of Inl e \<Rightarrow> ret (Inl e) | Inr want \<Rightarrow>
           and_then (each_ok (order (map fst current)) (\<lambda>key.
             if map_of want key = None then wg_remove c key else ret (Inr ()))) (\<lambda>_.
           and_then (each_ok (order (map fst want)) (\<lambda>key.
             if map_of current key = Some (map_of want key) then ret (Inr ())
             else wg_set c key (the (map_of want key)))) (\<lambda>_.
           wg_save c))) w1 = (Inr u, w')"
    from this(2) [unfolded assms(1) sum.case] show thesis
      by (elim and_then_Inr) (rule that [OF 1])
  qed
qed


text \<open>The keys alone, without any assumption about addresses.\<close>

lemma sync_keys_exact:
  assumes tools: "tools_ok c tbl" and order: "order_ok order" and want: "want_map ps [] = Inr want"
    and run: "run_state (sync_wg order c ps) w = (Inr u, w')"
  shows "tbl w' k \<noteq> None \<longleftrightarrow> map_of want k \<noteq> None"
proof -
  obtain current w1 u2 w2 u3 w3 where 1: "run_state (list_peers c) w = (Inr current, w1)"
    and 2: "run_state (each_ok (order (map fst current)) (\<lambda>key.
             if map_of want key = None then wg_remove c key else ret (Inr ()))) w1 = (Inr u2, w2)"
    and 3: "run_state (each_ok (order (map fst want)) (\<lambda>key.
             if map_of current key = Some (map_of want key) then ret (Inr ())
             else wg_set c key (the (map_of want key)))) w2 = (Inr u3, w3)"
    and 4: "run_state (wg_save c) w3 = (Inr u, w')"
    by (rule sync_phases [OF want run])
  have t1: "tbl w1 = tbl w" by (rule list_step(1) [OF tools 1])
  have cur: "map_of current = (\<lambda>k. map_option first_addr (tbl w1 k))"
    using list_step(2) [OF tools 1 refl] t1 by simp
  obtain out w0 where "run_state (wg_run c DumpCmd) w = (Inr out, w0)"
    using 1 [unfolded list_peers_def] by (rule and_then_Inr)
  then have shown: "shows_table out (tbl w1)" using tools_step(2) [OF tools] t1 by simp
  have t2: "tbl w2 = (\<lambda>k. if map_of want k = None then None else tbl w1 k)"
    by (rule sync_removals [OF tools table_canonical [OF shown] cur order 2])
  let ?Inv = "\<lambda>seen v. \<forall>k. tbl v k \<noteq> None \<longleftrightarrow> map_of want k \<noteq> None \<and> (k \<in> seen \<or> tbl w1 k \<noteq> None)"
  have "?Inv (set (order (map fst want))) w3"
  proof (rule each_ok_Inr [OF 3, where Inv = ?Inv])
    show "?Inv {} w2" by (simp add: t2)
    fix x seen v v' and u :: unit
    assume x: "x \<in> set (order (map fst want))" and inv: "?Inv seen v"
      and step: "run_state (if map_of current x = Some (map_of want x) then ret (Inr ())
             else wg_set c x (the (map_of want x))) v = (Inr u, v')"
    from x obtain ip where ip: "map_of want x = Some ip"
      using order by (force simp: order_ok_def map_of_eq_None_iff)
    have can: "canonical x"
      using want_map_canonical [OF want] map_of_SomeD [OF ip] by force
    show "?Inv (insert x seen) v'"
    proof (cases "map_of current x = Some (Some ip)")
      case True
      then have "tbl w1 x \<noteq> None" by (auto simp: cur)
      with True step ip inv show ?thesis by auto
    next
      case False
      with step ip set_step [OF tools can, of ip v "Inr u" v'] have "tbl v' = give x (ip, 32) (tbl v)" by simp
      with inv ip show ?thesis by (auto simp: give_def)
    qed
  qed
  moreover have "map_of want k \<noteq> None \<Longrightarrow> k \<in> set (order (map fst want))"
    using order by (auto simp: order_ok_def map_of_eq_None_iff)
  ultimately have "tbl w3 k \<noteq> None \<longleftrightarrow> map_of want k \<noteq> None" by blast
  then show ?thesis using save_step [OF tools 4] by simp
qed

section \<open>A synchronisation cut short\<close>

lemma keeps_and_then:
  assumes "preorder R" "keeps R m" "\<And>w x w1. run_state m w = (Inr x, w1) \<Longrightarrow> keeps R (f x)"
  shows "keeps R (and_then m f)"
proof (rule keepsI)
  fix w r w'
  assume run: "run_state (and_then m f) w = (r, w')"
  obtain r1 w1 where 1: "run_state m w = (r1, w1)" by (cases "run_state m w")
  have s1: "R w w1" by (rule keepsD [OF assms(2) 1])
  show "R w w'"
  proof (cases r1)
    case (Inl e)
    with run 1 s1 show ?thesis by (simp add: run_and_then)
  next
    case (Inr x)
    then have "R w1 w'" using keepsD [OF assms(3)] 1 run by (auto simp: run_and_then)
    with s1 assms(1) show ?thesis unfolding preorder_def by blast
  qed
qed

lemma keeps_each_ok:
  "preorder R \<Longrightarrow> (\<And>x. x \<in> set xs \<Longrightarrow> keeps R (f x)) \<Longrightarrow> keeps R (each_ok xs f)"
  by (induction xs) (auto intro!: keeps_ret keeps_and_then)

definition keeps_keys :: "('w \<Rightarrow> wg_table) \<Rightarrow> string set \<Rightarrow> 'w \<Rightarrow> 'w \<Rightarrow> bool" where
  "keeps_keys tbl ks w w' \<longleftrightarrow> (\<forall>k \<in> ks. tbl w k \<noteq> None \<longrightarrow> tbl w' k \<noteq> None)"

lemma preorder_keeps_keys: "preorder (keeps_keys tbl ks)"
  by (auto simp: preorder_def keeps_keys_def)

lemma give_keeps: "t j \<noteq> None \<Longrightarrow> give k a t j \<noteq> None"
  by (simp add: give_def)

lemma keeps_keys_steps:
  assumes "tools_ok c tbl"
  shows "canonical k \<Longrightarrow> keeps_keys tbl ks w (snd (run_state (wg_set c k ip) w))"
    "canonical k \<Longrightarrow> k \<notin> ks \<Longrightarrow> keeps_keys tbl ks w (snd (run_state (wg_remove c k) w))"
    "keeps_keys tbl ks w (snd (run_state (wg_save c) w))" "keeps_keys tbl ks w (snd (run_state (list_peers c) w))"
proof -
  assume "canonical k"
  from set_step [OF assms this, of ip w "fst (run_state (wg_set c k ip) w)" "snd (run_state (wg_set c k ip) w)"]
  show "keeps_keys tbl ks w (snd (run_state (wg_set c k ip) w))"
    by (auto simp: keeps_keys_def give_def)
next
  assume "canonical k" "k \<notin> ks"
  with remove_step [OF assms this(1), of w "fst (run_state (wg_remove c k) w)" "snd (run_state (wg_remove c k) w)"]
  show "keeps_keys tbl ks w (snd (run_state (wg_remove c k) w))" by (auto simp: keeps_keys_def)
next
  show "keeps_keys tbl ks w (snd (run_state (wg_save c) w))"
    using save_step [OF assms, of w "fst (run_state (wg_save c) w)" "snd (run_state (wg_save c) w)"] by (simp add: keeps_keys_def)
  show "keeps_keys tbl ks w (snd (run_state (list_peers c) w))"
    using list_step(1) [OF assms, of w "fst (run_state (list_peers c) w)" "snd (run_state (list_peers c) w)"]
    by (simp add: keeps_keys_def)
qed

lemma listed_canonical:
  assumes "tools_ok c tbl" "run_state (list_peers c) w = (Inr m, w1)" "k \<in> set (map fst m)"
  shows "canonical k"
proof -
  obtain out w0 where "run_state (wg_run c DumpCmd) w = (Inr out, w0)"
    using assms(2) [unfolded list_peers_def] by (rule and_then_Inr)
  then have "shows_table out (tbl w)" using tools_step(2) [OF assms(1)] by simp
  moreover have "tbl w k \<noteq> None"
    using list_step(2) [OF assms(1,2) refl] assms(3) map_of_eq_None_iff [of m k] by (auto simp: fun_eq_iff)
  ultimately show ?thesis by (rule table_canonical)
qed


end
