(* ===== verification/EdgeRefinement.thy ===== *)
theory EdgeRefinement
  imports HttpClient WgSync
begin

text \<open>
  The control plane's HTTP client and the edge agents together: the wire format both ends agree on,
  how failures are classified, and the refinement of the in-memory fake by the real pair, so that what
  is proved and tested against the fake holds of the boxes.
\<close>

section \<open>The wire format\<close>

definition host_ip :: "ipv4 \<Rightarrow> bool" where
  "host_ip ip \<longleftrightarrow> ip \<noteq> 0 \<and> uint ip div 268435456 \<noteq> 14"

lemma validate_addr_text: "validate_ip (addr_text ip) = (if host_ip ip then Inr ip else Inl (Sentinel ErrInvalidIP))"
  by (simp add: validate_ip_def parse_addr_text host_ip_def)

lemma decode_peer_payload:
  "decode_peer (peer_payload key ip revision replaces) =
     Some \<lparr>pq_public_key = key, pq_tunnel_ip = addr_text ip, pq_revision = revision, pq_replaces = replaces\<rparr>"
  by (simp add: decode_peer_def peer_payload_def)

lemma decode_remove_payload:
  "decode_peer (remove_payload key) = Some \<lparr>pq_public_key = key, pq_tunnel_ip = [], pq_revision = 0, pq_replaces = []\<rparr>"
  by (simp add: decode_peer_def remove_payload_def)

lemma map_all_map: "(\<And>x. x \<in> set xs \<Longrightarrow> f (g x) = Some (h x)) \<Longrightarrow> map_all f (map g xs) = Some (map h xs)"
  by (induction xs) auto

lemma decode_sync_payload:
  "decode_peer_set (sync_payload (map (\<lambda>p. peer_payload (ep_public_key p) (ep_tunnel_ip p) (ep_revision p) []) ps)) =
     Some (map (\<lambda>p. \<lparr>pq_public_key = ep_public_key p, pq_tunnel_ip = addr_text (ep_tunnel_ip p),
        pq_revision = ep_revision p, pq_replaces = []\<rparr>) ps)"
proof -
  have "map_all decode_peer (map (\<lambda>p. peer_payload (ep_public_key p) (ep_tunnel_ip p) (ep_revision p) []) ps) =
      Some (map (\<lambda>p. \<lparr>pq_public_key = ep_public_key p, pq_tunnel_ip = addr_text (ep_tunnel_ip p),
        pq_revision = ep_revision p, pq_replaces = []\<rparr>) ps)"
    by (rule map_all_map) (rule decode_peer_payload)
  then show ?thesis by (simp add: decode_peer_set_def sync_payload_def)
qed


section \<open>Healthy machines\<close>

definition works :: "('w \<Rightarrow> bool) \<Rightarrow> ('w, goerr + 'a) state \<Rightarrow> bool" where
  "works healthy m \<longleftrightarrow> (\<forall>w. healthy w \<longrightarrow> \<not> isl (fst (run_state m w)) \<and> healthy (snd (run_state m w)))"

lemma works_and_then: "works healthy m \<Longrightarrow> (\<And>x. works healthy (f x)) \<Longrightarrow> works healthy (and_then m f)"
  unfolding works_def run_and_then by (auto split: prod.splits sum.splits)

lemma works_ret: "works healthy (ret (Inr x))"
  by (simp add: works_def)

lemma works_each: "(\<And>x. x \<in> set xs \<Longrightarrow> works healthy (f x)) \<Longrightarrow> works healthy (each_ok xs f)"
  by (induction xs) (auto intro: works_ret works_and_then)

lemma works_if: "(b \<Longrightarrow> works healthy m) \<Longrightarrow> (\<not> b \<Longrightarrow> works healthy n) \<Longrightarrow> works healthy (if b then m else n)"
  by simp

lemma works_run: "tools_work c healthy \<Longrightarrow> works healthy (wg_run c cmd)"
  unfolding tools_work_def works_def by (metis prod.collapse)

lemma works_steps:
  assumes "tools_work c healthy"
  shows "works healthy (wg_set c k ip)" "works healthy (wg_remove c k)" "works healthy (wg_save c)" "works healthy (list_peers c)"
proof -
  note r = works_run [OF assms]
  show "works healthy (wg_set c k ip)" "works healthy (wg_remove c k)" "works healthy (list_peers c)"
    unfolding wg_set_def wg_remove_def list_peers_def by (intro works_and_then works_ret r)+
  show "works healthy (wg_save c)"
    using r [of SaveCmd] unfolding works_def wg_save_def by (auto split: prod.splits sum.splits)
qed

lemma works_set_peer:
  assumes "tools_work c healthy" "validate_key k = Inr key" "replaces = [] \<or> canonical replaces"
  shows "works healthy (set_peer c \<lparr>wp_public_key = k, wp_tunnel_ip = Some ip\<rparr> replaces)"
proof -
  have "works healthy (drop_replaced c key replaces)"
    using assms(3) works_steps(2) [OF assms(1)]
    by (auto simp: drop_replaced_def canonical_def intro: works_ret)
  then show ?thesis
    using assms(2) works_steps [OF assms(1)] by (auto simp: set_peer_def intro!: works_and_then)
qed

lemma works_remove_peer: "tools_work c healthy \<Longrightarrow> canonical k \<Longrightarrow> works healthy (remove_wg_peer c k)"
  using works_steps by (auto simp: remove_wg_peer_def canonical_def intro!: works_and_then)

lemma works_sync: "tools_work c healthy \<Longrightarrow> want_map ps [] = Inr want \<Longrightarrow> works healthy (sync_wg order c ps)"
  using works_steps [of c healthy] unfolding sync_wg_def
  by (auto intro!: works_and_then works_each works_ret)

lemma worksD:
  assumes "works healthy m" "healthy w"
  obtains x w' where "run_state m w = (Inr x, w')" "healthy w'"
proof (cases "run_state m w")
  case (Pair r w')
  with assms have "\<not> isl r" "healthy w'" unfolding works_def by auto
  with Pair that show thesis by (cases r) auto
qed

section \<open>The handlers\<close>

lemma want_map_keys:
  assumes "\<forall>p \<in> set ps. canonical (wp_public_key p) \<and> wp_tunnel_ip p \<noteq> None"
  shows "\<exists>want. want_map ps m = Inr want \<and> fst ` set want = wp_public_key ` set ps \<union> fst ` set m"
  using assms
proof (induction ps arbitrary: m)
  case (Cons p ps)
  then obtain ip where p: "validate_key (wp_public_key p) = Inr (wp_public_key p)" "wp_tunnel_ip p = Some ip"
    by (auto simp: canonical_def)
  have "\<forall>p \<in> set ps. canonical (wp_public_key p) \<and> wp_tunnel_ip p \<noteq> None" using Cons.prems by simp
  from Cons.IH [OF this, of "AList.update (wp_public_key p) ip m"]
  obtain want where "want_map ps (AList.update (wp_public_key p) ip m) = Inr want"
    "fst ` set want = wp_public_key ` set ps \<union> fst ` set (AList.update (wp_public_key p) ip m)"
    by blast
  then show ?case using p by (auto simp: dom_update)
qed simp

lemma set_peer_reply:
  assumes "tools_ok (ag_wg a) tbl" "tools_work (ag_wg a) healthy" "healthy w"
    and "canonical key" "host_ip ip" "replaces = [] \<or> canonical replaces"
  shows "\<exists>w'. run_state (handle_set_peer a (Some (peer_payload key ip revision replaces))) w =
      (reply_json 200 (AMap [(''applied_revision'', AInt64 revision)]), w') \<and> healthy w' \<and>
    tbl w' = give key (ip, 32) (if replaces \<noteq> [] \<and> replaces \<noteq> key then (tbl w)(replaces := None) else tbl w)"
proof -
  let ?p = "\<lparr>wp_public_key = key, wp_tunnel_ip = Some ip\<rparr>"
  have key: "validate_key key = Inr key" using assms(4) by (simp add: canonical_def)
  obtain x w' where run: "run_state (set_peer (ag_wg a) ?p replaces) w = (Inr x, w')" "healthy w'"
    using worksD [OF works_set_peer [OF assms(2) key assms(6)] assms(3)] by blast
  have "tbl w' = give key (ip, 32) (replaced key replaces (tbl w))"
    using set_peer_step [OF assms(1) run(1)] key by auto
  then have "tbl w' = give key (ip, 32) (if replaces \<noteq> [] \<and> replaces \<noteq> key then (tbl w)(replaces := None) else tbl w)"
    using assms(6) by (auto simp: replaced_def canonical_def)
  moreover have "run_state (handle_set_peer a (Some (peer_payload key ip revision replaces))) w =
      (reply_json 200 (AMap [(''applied_revision'', AInt64 revision)]), w')"
    using run(1) assms(5) by (simp add: handle_set_peer_def decode_body_def decode_peer_payload validate_addr_text)
  ultimately show ?thesis using run(2) by blast
qed

lemma remove_peer_reply:
  assumes "tools_ok (ag_wg a) tbl" "tools_work (ag_wg a) healthy" "healthy w" "canonical key"
  shows "\<exists>w'. run_state (handle_remove_peer a (Some (remove_payload key))) w =
      (reply_json 200 (AMap [(''removed'', ABool True)]), w') \<and> healthy w' \<and>
    (\<forall>k. tbl w' k \<noteq> None \<longleftrightarrow> k \<noteq> key \<and> tbl w k \<noteq> None)"
proof -
  have key: "validate_key key = Inr key" using assms(4) by (simp add: canonical_def)
  obtain x w' where run: "run_state (remove_wg_peer (ag_wg a) key) w = (Inr x, w')" "healthy w'"
    using worksD [OF works_remove_peer [OF assms(2,4)] assms(3)] by blast
  from run(1) [unfolded remove_wg_peer_def key sum.case] obtain y w1 where
    1: "run_state (wg_remove (ag_wg a) key) w = (Inr y, w1)" and 2: "run_state (wg_save (ag_wg a)) w1 = (Inr x, w')"
    by (rule and_then_Inr)
  have "tbl w' = (tbl w)(key := None)"
    using remove_step [OF assms(1,4) 1] save_step [OF assms(1) 2] by simp
  moreover have "run_state (handle_remove_peer a (Some (remove_payload key))) w =
      (reply_json 200 (AMap [(''removed'', ABool True)]), w')"
    using run(1) by (simp add: handle_remove_peer_def decode_body_def decode_remove_payload)
  ultimately show ?thesis using run(2) by auto
qed

lemma sync_reply:
  assumes "tools_ok (ag_wg a) tbl" "tools_work (ag_wg a) healthy" "healthy w" "order_ok order"
    and "\<forall>p \<in> set ps. canonical (ep_public_key p) \<and> host_ip (ep_tunnel_ip p)"
  shows "\<exists>w'. run_state (handle_sync order a (Some (sync_payload
        (map (\<lambda>p. peer_payload (ep_public_key p) (ep_tunnel_ip p) (ep_revision p) []) ps)))) w =
      (reply_json 200 (AMap [(''synced'', AInt (int (length ps)))]), w') \<and> healthy w' \<and>
    (\<forall>k. tbl w' k \<noteq> None \<longleftrightarrow> k \<in> ep_public_key ` set ps)"
proof -
  let ?g = "\<lambda>p. \<lparr>wp_public_key = ep_public_key p, wp_tunnel_ip = Some (ep_tunnel_ip p)\<rparr>"
  have "map_all request_peer (map (\<lambda>p. \<lparr>pq_public_key = ep_public_key p, pq_tunnel_ip = addr_text (ep_tunnel_ip p),
        pq_revision = ep_revision p, pq_replaces = []\<rparr>) ps) = Some (map ?g ps)"
    by (rule map_all_map) (use assms(5) in \<open>simp add: request_peer_def validate_addr_text\<close>)
  moreover obtain want where want: "want_map (map ?g ps) [] = Inr want" "fst ` set want = ep_public_key ` set ps"
    using want_map_keys [of "map ?g ps" "[]"] assms(5) by (auto simp: image_image)
  obtain x w' where run: "run_state (sync_wg order (ag_wg a) (map ?g ps)) w = (Inr x, w')" "healthy w'"
    using worksD [OF works_sync [OF assms(2) want(1)] assms(3)] by blast
  moreover have "tbl w' k \<noteq> None \<longleftrightarrow> k \<in> ep_public_key ` set ps" for k
    using sync_keys_exact [OF assms(1,4) want(1) run(1), of k] map_of_eq_None_iff [of want k] want(2) by simp
  ultimately show ?thesis
    by (simp add: handle_sync_def decode_body_def decode_sync_payload)
qed

text \<open>
  The agent does not look at revisions: a write that arrives late,
  after the rotation that superseded its key, is applied. The superseded key is back on the box with
  the address, and the current key is left without one, so the device's traffic goes to the old key.
\<close>

theorem late_write_steals_the_address:
  assumes "tools_ok (ag_wg a) tbl" and "tools_work (ag_wg a) healthy" and "healthy w"
    and "canonical old_key" and "canonical new_key" and "old_key \<noteq> new_key" and "host_ip ip"
  shows "\<exists>w1 w2.
    run_state (handle_set_peer a (Some (peer_payload new_key ip newer old_key))) w =
      (reply_json 200 (AMap [(''applied_revision'', AInt64 newer)]), w1) \<and>
    run_state (handle_set_peer a (Some (peer_payload old_key ip older []))) w1 =
      (reply_json 200 (AMap [(''applied_revision'', AInt64 older)]), w2) \<and>
    tbl w1 old_key = None \<and> tbl w1 new_key = Some [(ip, 32)] \<and>
    tbl w2 old_key = Some [(ip, 32)] \<and> tbl w2 new_key = Some []"
proof -
  have "old_key = [] \<or> canonical old_key" using assms(4) by simp
  from set_peer_reply [OF assms(1-3,5,7) this, of newer] obtain w1 where
    1: "run_state (handle_set_peer a (Some (peer_payload new_key ip newer old_key))) w =
      (reply_json 200 (AMap [(''applied_revision'', AInt64 newer)]), w1)" "healthy w1"
      "tbl w1 = give new_key (ip, 32) ((tbl w)(old_key := None))"
    using assms(6) canonical_nonempty [OF assms(4)] by auto
  from set_peer_reply [OF assms(1,2) 1(2) assms(4,7), of "[]" older] obtain w2 where
    2: "run_state (handle_set_peer a (Some (peer_payload old_key ip older []))) w1 =
      (reply_json 200 (AMap [(''applied_revision'', AInt64 older)]), w2)" "tbl w2 = give old_key (ip, 32) (tbl w1)"
    by auto
  have "tbl w1 old_key = None" "tbl w1 new_key = Some [(ip, 32)]" using assms(6) by (simp_all add: 1(3) give_def)
  moreover from this have "tbl w2 old_key = Some [(ip, 32)]" "tbl w2 new_key = Some []"
    using assms(6) by (simp_all add: 2(2) give_def)
  ultimately show ?thesis using 1(1) 2(1) by blast
qed

section \<open>The fleet refines the fake\<close>

definition base_url :: "server \<Rightarrow> string" where
  "base_url s = trim_right_slash (s_agent_url s)"

text \<open>A deployment: every server's agent is reachable, shares its token and has working tools.\<close>

definition deployment ::
  "(string \<Rightarrow> 'w agent) \<Rightarrow> (string \<Rightarrow> bool) \<Rightarrow> ('w \<Rightarrow> wg_table) \<Rightarrow> ('w \<Rightarrow> bool) \<Rightarrow> server list \<Rightarrow> bool" where
  "deployment agents reach tbl healthy ss \<longleftrightarrow>
     (\<forall>s \<in> set ss. reach (base_url s) \<and> trim_space (s_agent_token s) = ag_token (agents (base_url s)) \<and>
        tools_ok (ag_wg (agents (base_url s))) tbl \<and> tools_work (ag_wg (agents (base_url s))) healthy) \<and>
     (\<forall>s \<in> set ss. \<forall>t \<in> set ss. base_url s = base_url t \<longleftrightarrow> s_code s = s_code t)"

datatype edge_call = CallApply edge_peer | CallRemove string | CallSync "edge_peer list"

fun call_ok :: "edge_call \<Rightarrow> bool" where
  "call_ok (CallApply p) = (canonical (ep_public_key p) \<and> host_ip (ep_tunnel_ip p) \<and> (ep_replaces p = [] \<or> canonical (ep_replaces p)))"
| "call_ok (CallRemove k) = canonical k"
| "call_ok (CallSync ps) = (\<forall>p \<in> set ps. canonical (ep_public_key p) \<and> host_ip (ep_tunnel_ip p))"

fun run_call :: "'e edge_client \<Rightarrow> server \<Rightarrow> edge_call \<Rightarrow> 'e \<Rightarrow> (goerr + unit) \<times> 'e" where
  "run_call cl s (CallApply p) e = apply_peer cl s p e"
| "run_call cl s (CallRemove k) e = remove_peer cl s k e"
| "run_call cl s (CallSync ps) e = sync_peers cl s ps e"

fun run_calls :: "'e edge_client \<Rightarrow> (server \<times> edge_call) list \<Rightarrow> 'e \<Rightarrow> (goerr + unit) list \<times> 'e" where
  "run_calls cl [] e = ([], e)"
| "run_calls cl ((s, c) # cs) e =
     (case run_call cl s c e of (r, e1) \<Rightarrow> (case run_calls cl cs e1 of (rs, e2) \<Rightarrow> (r # rs, e2)))"

lemma run_calls_Cons:
  "fst (run_calls cl ((s, c) # cs) e) = fst (run_call cl s c e) # fst (run_calls cl cs (snd (run_call cl s c e)))"
  "snd (run_calls cl ((s, c) # cs) e) = snd (run_calls cl cs (snd (run_call cl s c e)))"
  by (simp_all add: case_prod_beta)

text \<open>The simulation: the fake's peer maps have the keys of the boxes' tables.\<close>

definition simulates :: "server list \<Rightarrow> ('w \<Rightarrow> wg_table) \<Rightarrow> ('w \<Rightarrow> bool) \<Rightarrow> fake \<Rightarrow> (string \<Rightarrow> 'w) \<Rightarrow> bool" where
  "simulates ss tbl healthy f e \<longleftrightarrow>
     (\<forall>s \<in> set ss. fake_up f s \<and> healthy (e (base_url s)) \<and>
        (\<forall>k. tbl (e (base_url s)) k \<noteq> None \<longleftrightarrow> fake_has_peer f (s_code s) k))"

text \<open>The keys a call leaves on its box.\<close>

fun call_keys :: "edge_call \<Rightarrow> string set \<Rightarrow> string set" where
  "call_keys (CallApply p) ks = insert (ep_public_key p) (if ep_replaces p \<noteq> [] then ks - {ep_replaces p} else ks)"
| "call_keys (CallRemove k) ks = ks - {k}"
| "call_keys (CallSync ps) ks = ep_public_key ` set ps"

lemma fake_call:
  assumes "fake_up f s"
  shows "fst (run_call fake_client s c f) = Inr () \<and> fake_up (snd (run_call fake_client s c f)) = fake_up f \<and>
    {k. fake_has_peer (snd (run_call fake_client s c f)) b k} =
      (if b = s_code s then call_keys c {k. fake_has_peer f b k} else {k. fake_has_peer f b k})"
proof (cases c)
  case (CallApply p)
  have "fst (apply_peer fake_client s p f) = Inr ()" by (rule fake.apply_up [OF assms])
  with fake.apply_held [OF this] show ?thesis using CallApply by (auto simp: fake.apply_up_frame [simplified])
next
  case (CallRemove k)
  have "fst (remove_peer fake_client s k f) = Inr ()" by (rule fake.remove_up [OF assms])
  with fake.remove_held [OF this] show ?thesis using CallRemove by (auto simp: fake.remove_up_frame [simplified])
next
  case (CallSync ps)
  have "fst (sync_peers fake_client s ps f) = Inr ()" by (rule fake.sync_up [OF assms])
  with fake.sync_held [OF this] show ?thesis using CallSync by (auto simp: fake.sync_up_frame [simplified])
qed

lemma authed_bearer: "trim_space tok = ag_token a \<Longrightarrow> authed a (''Bearer '' @ tok)"
proof -
  have "equal_fold ''Bearer '' ''bearer ''" by code_simp
  then show "trim_space tok = ag_token a \<Longrightarrow> authed a (''Bearer '' @ tok)" by (simp add: authed_def)
qed

lemma fleet_post:
  assumes "deployment agents reach tbl healthy ss" "s \<in> set ss"
    and "agent_route order False (agents (base_url s)) ''POST'' path (Some body) = Some m"
    and "run_state m (e (base_url s)) = (reply_json 200 j, w')"
  shows "edge_post (fleet_http order agents reach) s path body e = (Inr (), e(base_url s := w'))"
  using assms authed_bearer [of "s_agent_token s" "agents (base_url s)"]
  by (simp add: edge_post_def fleet_http_def fleet_send_def agent_serve_def deployment_def base_url_def reply_json_def)

lemma fleet_call:
  assumes dep: "deployment agents reach tbl healthy ss" and s: "s \<in> set ss" and "order_ok order"
    and "call_ok c" and healthy: "healthy (e (base_url s))"
  shows "\<exists>w'. run_call (http_client (fleet_http order agents reach)) s c e = (Inr (), e(base_url s := w')) \<and> healthy w' \<and>
    {k. tbl w' k \<noteq> None} = call_keys c {k. tbl (e (base_url s)) k \<noteq> None}"
proof -
  let ?a = "agents (base_url s)"
  have tools: "tools_ok (ag_wg ?a) tbl" "tools_work (ag_wg ?a) healthy"
    using dep s by (simp_all add: deployment_def)
  show ?thesis
  proof (cases c)
    case (CallApply p)
    with set_peer_reply [OF tools healthy, of "ep_public_key p" "ep_tunnel_ip p" "ep_replaces p" "ep_revision p"] assms(4)
    obtain w' where w': "run_state (handle_set_peer ?a (Some (peer_payload (ep_public_key p) (ep_tunnel_ip p)
        (ep_revision p) (ep_replaces p)))) (e (base_url s)) =
      (reply_json 200 (AMap [(''applied_revision'', AInt64 (ep_revision p))]), w')" "healthy w'"
      "tbl w' = give (ep_public_key p) (ep_tunnel_ip p, 32) (if ep_replaces p \<noteq> [] \<and> ep_replaces p \<noteq> ep_public_key p
         then (tbl (e (base_url s)))(ep_replaces p := None) else tbl (e (base_url s)))"
      by auto
    have "{k. tbl w' k \<noteq> None} = call_keys c {k. tbl (e (base_url s)) k \<noteq> None}"
      using CallApply w'(3) by (auto simp: give_def split: if_splits)
    moreover have "agent_route order False ?a ''POST'' ''/v1/peers'' (Some j) = Some (handle_set_peer ?a (Some j))" for j
      by (simp add: agent_route_def)
    ultimately show ?thesis
      using fleet_post [where e = e, OF dep s _ w'(1)] w'(2) CallApply by (auto simp: http_apply_peer_def)
  next
    case (CallRemove k)
    with remove_peer_reply [OF tools healthy, of k] assms(4)
    obtain w' where w': "run_state (handle_remove_peer ?a (Some (remove_payload k))) (e (base_url s)) =
      (reply_json 200 (AMap [(''removed'', ABool True)]), w')" "healthy w'"
      "\<forall>j. tbl w' j \<noteq> None \<longleftrightarrow> j \<noteq> k \<and> tbl (e (base_url s)) j \<noteq> None"
      by auto
    have "{j. tbl w' j \<noteq> None} = call_keys c {j. tbl (e (base_url s)) j \<noteq> None}" using CallRemove w'(3) by auto
    moreover have "agent_route order False ?a ''POST'' ''/v1/peers/remove'' (Some j) = Some (handle_remove_peer ?a (Some j))" for j
      by (simp add: agent_route_def)
    ultimately show ?thesis
      using fleet_post [where e = e, OF dep s _ w'(1)] w'(2) CallRemove by (auto simp: http_remove_peer_def)
  next
    case (CallSync ps)
    with sync_reply [OF tools healthy assms(3), of ps] assms(4)
    obtain w' where w': "run_state (handle_sync order ?a (Some (sync_payload
        (map (\<lambda>p. peer_payload (ep_public_key p) (ep_tunnel_ip p) (ep_revision p) []) ps)))) (e (base_url s)) =
      (reply_json 200 (AMap [(''synced'', AInt (int (length ps)))]), w')" "healthy w'"
      "\<forall>k. tbl w' k \<noteq> None \<longleftrightarrow> k \<in> ep_public_key ` set ps"
      by auto
    have "{j. tbl w' j \<noteq> None} = call_keys c {j. tbl (e (base_url s)) j \<noteq> None}" using CallSync w'(3) by auto
    moreover have "agent_route order False ?a ''POST'' ''/v1/peers/sync'' (Some j) = Some (handle_sync order ?a (Some j))" for j
      by (simp add: agent_route_def)
    ultimately show ?thesis
      using fleet_post [where e = e, OF dep s _ w'(1)] w'(2) CallSync by (auto simp: http_sync_peers_def)
  qed
qed

lemma simulation_step:
  assumes dep: "deployment agents reach tbl healthy ss" and "order_ok order" and sim: "simulates ss tbl healthy f e"
    and s: "s \<in> set ss" and "call_ok c"
  shows "fst (run_call (http_client (fleet_http order agents reach)) s c e) = Inr () \<and>
    fst (run_call fake_client s c f) = Inr () \<and>
    simulates ss tbl healthy (snd (run_call fake_client s c f)) (snd (run_call (http_client (fleet_http order agents reach)) s c e))"
proof -
  have up: "fake_up f s" "healthy (e (base_url s))" using sim s by (simp_all add: simulates_def)
  obtain w' where w': "run_call (http_client (fleet_http order agents reach)) s c e = (Inr (), e(base_url s := w'))"
    "healthy w'" "{k. tbl w' k \<noteq> None} = call_keys c {k. tbl (e (base_url s)) k \<noteq> None}"
    using fleet_call [OF dep s assms(2,5), of e] up(2) by blast
  note fk = fake_call [OF up(1), of c]
  have same: "{k. tbl (e (base_url t)) k \<noteq> None} = {k. fake_has_peer f (s_code t) k}" if "t \<in> set ss" for t
    using sim that by (simp add: simulates_def)
  have "fake_up (snd (run_call fake_client s c f)) t \<and> healthy ((e(base_url s := w')) (base_url t)) \<and>
      (\<forall>k. tbl ((e(base_url s := w')) (base_url t)) k \<noteq> None \<longleftrightarrow> fake_has_peer (snd (run_call fake_client s c f)) (s_code t) k)"
    if t: "t \<in> set ss" for t
  proof (cases "base_url t = base_url s")
    case True
    then have "s_code t = s_code s" using dep s t by (simp add: deployment_def)
    then have "{k. tbl w' k \<noteq> None} = {k. fake_has_peer (snd (run_call fake_client s c f)) (s_code t) k}"
      using w'(3) fk [of "s_code t"] same [OF s] by simp
    then have "\<forall>k. tbl w' k \<noteq> None \<longleftrightarrow> fake_has_peer (snd (run_call fake_client s c f)) (s_code t) k" by blast
    moreover have "fake_up (snd (run_call fake_client s c f)) t" using fk sim t by (simp add: simulates_def)
    ultimately show ?thesis using True w'(2) by simp
  next
    case False
    then have "s_code t \<noteq> s_code s" using dep s t by (metis deployment_def)
    then have "{k. fake_has_peer (snd (run_call fake_client s c f)) (s_code t) k} = {k. tbl (e (base_url t)) k \<noteq> None}"
      using fk [of "s_code t"] same [OF t] by simp
    then have "\<forall>k. tbl (e (base_url t)) k \<noteq> None \<longleftrightarrow> fake_has_peer (snd (run_call fake_client s c f)) (s_code t) k" by blast
    moreover have "fake_up (snd (run_call fake_client s c f)) t" using fk sim t by (simp add: simulates_def)
    moreover have "healthy (e (base_url t))" using sim t by (simp add: simulates_def)
    ultimately show ?thesis using False by simp
  qed
  then show ?thesis using w'(1) fk by (auto simp: simulates_def)
qed


end
