(* ===== verification/EdgeErrors.thy ===== *)
theory EdgeErrors
  imports EdgeRefinement
begin

text \<open>
  What the control plane can conclude from an error of the edge: a rejection means the request was
  malformed and nothing was touched, everything else may be retried or tried elsewhere. Also: who may
  call the agent, what its errors reveal, and the identity of an installation.
\<close>

section \<open>Rejected or unreachable\<close>

text \<open>The requests the agent refuses: no host address, or a key that is not a WireGuard key.\<close>

definition malformed :: "edge_peer \<Rightarrow> bool" where
  "malformed p \<longleftrightarrow> \<not> host_ip (ep_tunnel_ip p) \<or>
     (case validate_key (ep_public_key p) of
        Inl _ \<Rightarrow> True
      | Inr key \<Rightarrow> ep_replaces p \<noteq> [] \<and> ep_replaces p \<noteq> key \<and> isl (validate_key (ep_replaces p)))"

text \<open>The programs' own errors are not the driver's validation errors.\<close>

definition plain_errors :: "'w wg_client \<Rightarrow> bool" where
  "plain_errors c \<longleftrightarrow> (\<forall>cmd w e w'. run_state (wg_run c cmd) w = (Inl e, w') \<longrightarrow> \<not> invalid_peer_error e)"

definition tool_result :: "goerr + 'a \<Rightarrow> bool" where
  "tool_result r \<longleftrightarrow> (case r of Inl e \<Rightarrow> \<not> invalid_peer_error e | Inr _ \<Rightarrow> True)"

lemma tool_result_simps [simp]: "tool_result (Inl e) = (\<not> invalid_peer_error e)" "tool_result (Inr x)"
  by (simp_all add: tool_result_def)

lemma yields_and_then:
  "yields tool_result m \<Longrightarrow> (\<And>x. yields tool_result (f x)) \<Longrightarrow> yields tool_result (and_then m f)"
  unfolding and_then_def by (erule yields_bind) (auto split: sum.splits)

lemma yields_steps:
  assumes "plain_errors c"
  shows "yields tool_result (wg_set c k ip)" "yields tool_result (wg_remove c k)" "yields tool_result (wg_save c)"
proof -
  have run: "yields tool_result (wg_run c cmd)" for cmd
    using assms unfolding yields_def tool_result_def plain_errors_def
    by (metis (no_types, lifting) prod.collapse sum.case_eq_if sum.collapse(1))
  show "yields tool_result (wg_set c k ip)" "yields tool_result (wg_remove c k)"
    unfolding wg_set_def wg_remove_def by (intro yields_and_then run; simp)+
  have "yields tool_result (State_Monad.bind (wg_run c SaveCmd) (\<lambda>r. case r of
      Inl e \<Rightarrow> ret (Inl (Wrap ''persist config: '' e [])) | Inr _ \<Rightarrow> ret (Inr ())))"
    by (rule yields_bind [OF run]) (auto simp: invalid_peer_error_def split: sum.splits)
  then show "yields tool_result (wg_save c)" by (simp add: wg_save_def)
qed

lemma set_peer_tool_errors:
  assumes "plain_errors c" "validate_key k = Inr key" "replaces = [] \<or> replaces = key \<or> \<not> isl (validate_key replaces)"
  shows "yields tool_result (set_peer c \<lparr>wp_public_key = k, wp_tunnel_ip = Some ip\<rparr> replaces)"
proof -
  have "yields tool_result (drop_replaced c key replaces)"
    using assms(3) yields_steps(2) [OF assms(1)] by (auto simp: drop_replaced_def split: sum.splits)
  then show ?thesis
    using assms(2) yields_steps [OF assms(1)] by (auto simp: set_peer_def intro!: yields_and_then)
qed

lemma malformed_set_peer:
  assumes "malformed p" "host_ip (ep_tunnel_ip p)"
  shows "\<exists>err. run_state (set_peer c \<lparr>wp_public_key = ep_public_key p, wp_tunnel_ip = Some (ep_tunnel_ip p)\<rparr> (ep_replaces p)) w = (Inl err, w) \<and>
    invalid_peer_error err"
proof (cases "validate_key (ep_public_key p)")
  case (Inl e)
  then have "e = Sentinel ErrInvalidKey" using validate_key_cases [of "ep_public_key p"] by auto
  with Inl show ?thesis by (simp add: set_peer_def invalid_peer_error_def)
next
  case (Inr key)
  with assms have r: "ep_replaces p \<noteq> []" "ep_replaces p \<noteq> key" "isl (validate_key (ep_replaces p))"
    by (auto simp: malformed_def)
  then obtain e where e: "validate_key (ep_replaces p) = Inl e" by (auto simp: isl_def)
  then have "e = Sentinel ErrInvalidKey" using validate_key_cases [of "ep_replaces p"] by auto
  with e r Inr show ?thesis by (simp add: set_peer_def drop_replaced_def run_and_then invalid_peer_error_def)
qed

lemma fleet_apply:
  assumes "reach (base_url s)" "trim_space (s_agent_token s) = ag_token (agents (base_url s))"
    and "run_state (handle_set_peer (agents (base_url s)) (Some (peer_payload (ep_public_key p) (ep_tunnel_ip p)
          (ep_revision p) (ep_replaces p)))) (e (base_url s)) = (reply_json status j, w')"
  shows "snd (http_apply_peer (fleet_http order agents reach) s p e) = e(base_url s := w')"
    "status = 200 \<Longrightarrow> fst (http_apply_peer (fleet_http order agents reach) s p e) = Inr ()"
    "status = 400 \<Longrightarrow> \<exists>err. fst (http_apply_peer (fleet_http order agents reach) s p e) = Inl err \<and> is_err err ErrRejected"
    "status = 500 \<Longrightarrow> \<exists>err. fst (http_apply_peer (fleet_http order agents reach) s p e) = Inl err \<and> is_err err ErrUnreachable"
proof -
  have au: "authed (agents (base_url s)) (''Bearer '' @ s_agent_token s)" by (rule authed_bearer [OF assms(2)])
  have "run_state (agent_serve order False (agents (base_url s)) \<lparr>hr_method = ''POST'', hr_base = base_url s,
      hr_path = ''/v1/peers'', hr_authorization = ''Bearer '' @ s_agent_token s,
      hr_body = Some (peer_payload (ep_public_key p) (ep_tunnel_ip p) (ep_revision p) (ep_replaces p))\<rparr>) (e (base_url s)) =
      (reply_json status j, w')"
    unfolding agent_serve_def using assms(3) au by (simp add: agent_route_def)
  then have post: "http_apply_peer (fleet_http order agents reach) s p e =
      ((if status div 100 \<noteq> 2 then Inl (status_error s \<lparr>rs_status = status, rs_status_line = int_text status, rs_text = [],
          rs_body = Inr j\<rparr>) else Inr ()), e(base_url s := w'))"
    using assms(1) by (simp add: http_apply_peer_def edge_post_def fleet_http_def fleet_send_def base_url_def reply_json_def)
  show "snd (http_apply_peer (fleet_http order agents reach) s p e) = e(base_url s := w')"
    "status = 200 \<Longrightarrow> fst (http_apply_peer (fleet_http order agents reach) s p e) = Inr ()"
    "status = 400 \<Longrightarrow> \<exists>err. fst (http_apply_peer (fleet_http order agents reach) s p e) = Inl err \<and> is_err err ErrRejected"
    "status = 500 \<Longrightarrow> \<exists>err. fst (http_apply_peer (fleet_http order agents reach) s p e) = Inl err \<and> is_err err ErrUnreachable"
    by (simp_all add: post status_error_def)
qed

text \<open>
  C29 (rejected_means_malformed). Over a reachable agent that shares the token, installing a peer is
  reported as rejected exactly when the request is malformed, and then no command was run; whatever
  the tools do with a well-formed request, the answer is success or an unreachable box, which the
  control plane retries.
\<close>

theorem rejected_means_malformed:
  assumes "reach (base_url s)" and "trim_space (s_agent_token s) = ag_token (agents (base_url s))"
    and "plain_errors (ag_wg (agents (base_url s)))"
    and "http_apply_peer (fleet_http order agents reach) s p e = (r, e')"
  shows "if malformed p then (\<exists>err. r = Inl err \<and> is_err err ErrRejected) \<and> e' = e
    else r = Inr () \<or> (\<exists>err. r = Inl err \<and> is_err err ErrUnreachable)"
proof -
  let ?a = "agents (base_url s)" and ?b = "peer_payload (ep_public_key p) (ep_tunnel_ip p) (ep_revision p) (ep_replaces p)"
  note reply = fleet_apply [where e = e and s = s and agents = agents and reach = reach and order = order and p = p, OF assms(1,2)]
  show ?thesis
  proof (cases "host_ip (ep_tunnel_ip p)")
    case False
    then have m: "malformed p" by (simp add: malformed_def)
    have h: "run_state (handle_set_peer ?a (Some ?b)) (e (base_url s)) =
        (reply_json 400 (error_json ''invalid tunnel_ip''), e (base_url s))"
      using False by (simp add: handle_set_peer_def decode_body_def decode_peer_payload validate_addr_text bad_request_def)
    show ?thesis using reply(1) [OF h] reply(3) [OF h refl] assms(4) m by simp
  next
    case host: True
    obtain r1 w1 where sp: "run_state (set_peer (ag_wg ?a) \<lparr>wp_public_key = ep_public_key p, wp_tunnel_ip = Some (ep_tunnel_ip p)\<rparr>
        (ep_replaces p)) (e (base_url s)) = (r1, w1)" by (rule prod.exhaust)
    have h: "run_state (handle_set_peer ?a (Some ?b)) (e (base_url s)) =
        ((case r1 of Inl err \<Rightarrow> (if invalid_peer_error err then bad_request ''invalid peer'' else reply_json 500 (error_json ''apply failed''))
          | Inr _ \<Rightarrow> reply_json 200 (AMap [(''applied_revision'', AInt64 (ep_revision p))])), w1)"
      using host sp by (cases r1) (simp_all add: handle_set_peer_def decode_body_def decode_peer_payload validate_addr_text)
    show ?thesis
    proof (cases "malformed p")
      case True
      from malformed_set_peer [OF True host, of "ag_wg ?a" "e (base_url s)"] sp
      obtain err where "r1 = Inl err" "invalid_peer_error err" "w1 = e (base_url s)"
        by auto
      with h have "run_state (handle_set_peer ?a (Some ?b)) (e (base_url s)) =
          (reply_json 400 (error_json ''invalid peer''), e (base_url s))"
        by (simp add: bad_request_def)
      from reply(1) [OF this] reply(3) [OF this refl] assms(4) True show ?thesis by simp
    next
      case False
      then obtain key where key: "validate_key (ep_public_key p) = Inr key"
        "ep_replaces p = [] \<or> ep_replaces p = key \<or> \<not> isl (validate_key (ep_replaces p))"
        by (auto simp: malformed_def split: sum.splits)
      have t: "tool_result r1" by (rule yieldsD [OF set_peer_tool_errors [OF assms(3) key] sp])
      show ?thesis
      proof (cases r1)
        case (Inl err)
        with t h have "run_state (handle_set_peer ?a (Some ?b)) (e (base_url s)) =
            (reply_json 500 (error_json ''apply failed''), w1)" by simp
        from reply(4) [OF this refl] assms(4) False show ?thesis by simp
      next
        case (Inr x)
        with h have "run_state (handle_set_peer ?a (Some ?b)) (e (base_url s)) =
            (reply_json 200 (AMap [(''applied_revision'', AInt64 (ep_revision p))]), w1)" by simp
        from reply(2) [OF this refl] assms(4) False show ?thesis by simp
      qed
    qed
  qed
qed

section \<open>Access and identity\<close>

text \<open>
  A request that does not carry the agent's token, whatever else it
  asks, is answered without running a command: the machine's state is unchanged, and the status is an
  error.
\<close>

theorem agent_requires_the_token:
  assumes "\<not> (7 \<le> length (hr_authorization req) \<and> equal_fold (take 7 (hr_authorization req)) ''bearer '' \<and>
    trim_space (drop 7 (hr_authorization req)) = ag_token a)"
  shows "\<exists>rep. run_state (agent_serve order obfuscator a req) w = (rep, w) \<and> ar_status rep \<in> {401, 404, 405}"
proof -
  have "\<not> authed a (hr_authorization req)" using assms by (auto simp: authed_def)
  then show ?thesis by (simp add: agent_serve_def reply_json_def split: option.splits)
qed

lemma hex_digit_solid: "0 \<le> n \<Longrightarrow> n < 16 \<Longrightarrow> \<not> is_space (hex_digit n)"
proof -
  assume "0 \<le> n" "n < 16"
  then have "(of_char (hex_digit n) :: int) = (if n < 10 then n + 48 else n + 87)" by (simp add: hex_digit_def)
  with \<open>0 \<le> n\<close> \<open>n < 16\<close> show ?thesis by (auto simp: is_space_def)
qed

lemma hex_text_solid: "bytes bs \<Longrightarrow> \<forall>c \<in> set (hex_text bs). \<not> is_space c"
proof
  fix c
  assume b: "bytes bs" and "c \<in> set (hex_text bs)"
  then obtain y where y: "y \<in> set bs" "c = hex_digit (y div 16) \<or> c = hex_digit (y mod 16)" by (auto simp: hex_text_def)
  then have "0 \<le> y" "y < 256" using b by (auto simp: bytes_def)
  then have "0 \<le> y div 16" "y div 16 < 16" "0 \<le> y mod 16" "y mod 16 < 16" by simp_all
  then show "\<not> is_space c" using y(2) hex_digit_solid by blast
qed

text \<open>
  The identity of an installation is stable: once an agent has
  started with one, every later start from the same disk reports the same identity, whatever the
  random source or the disk's write errors are by then.
\<close>

theorem instance_id_survives_restart:
  assumes "run_state (load_or_create_instance_id None random write_file) file = (Inr i, file')"
    and "\<And>buf. random = Inr buf \<Longrightarrow> bytes buf \<and> length buf = 16"
  shows "run_state (load_or_create_instance_id None random' write_file') file' = (Inr i, file') \<and> i \<noteq> []"
proof (cases "case file of None \<Rightarrow> [] | Some b \<Rightarrow> trim_space b")
  case Nil
  then obtain buf where buf: "random = Inr buf" "i = hex_text buf" "file' = Some (hex_text buf @ [CHR 0x0A])"
    using assms(1) by (auto simp: load_or_create_instance_id_def Let_def split: sum.splits option.splits)
  have "hex_text buf \<noteq> []" using assms(2) [OF buf(1)] by (cases buf) (auto simp: hex_text_def)
  moreover have "\<not> is_space c" if "c \<in> set (hex_text buf)" for c
    using hex_text_solid assms(2) [OF buf(1)] that by blast
  moreover have "is_space (CHR 0x0A)" by (simp add: is_space_def)
  ultimately have "trim_space (hex_text buf @ [CHR 0x0A]) = hex_text buf" by (intro trim_line_end) simp_all
  with buf \<open>hex_text buf \<noteq> []\<close> show ?thesis by (simp add: load_or_create_instance_id_def Let_def)
next
  case (Cons c cs)
  with assms(1) show ?thesis by (auto simp: load_or_create_instance_id_def split: option.splits)
qed

section \<open>What errors reveal\<close>

text \<open>
  When a program fails, the error that goes to logs is the same for every
  peer key: for two keys and the same failure, removing or installing the one or the other gives the
  same text.
\<close>

theorem keys_stay_out_of_errors:
  assumes "canonical k" and "canonical j"
    and "os (argv i (RemoveCmd k)) w = (Inl (msg, err), w1)" and "os (argv i (RemoveCmd j)) v = (Inl (msg, err), v1)"
    and "os (argv i (SetAllowed k ip)) w = (Inl (msg2, err2), w2)" and "os (argv i (SetAllowed j ip)) v = (Inl (msg2, err2), v2)"
  shows "fst (exec_command os (argv i (RemoveCmd k)) w) = fst (exec_command os (argv i (RemoveCmd j)) v) \<and>
    fst (exec_command os (argv i (SetAllowed k ip)) w) = fst (exec_command os (argv i (SetAllowed j ip)) v)"
proof -
  have redact: "redact_arg x = ''<key>''" if x: "canonical x" for x
  proof -
    obtain raw where raw: "x = b64_encode raw" "length raw = 32"
      using validate_key_cases [of x] x by (auto simp: canonical_def)
    have "has_suffix (b64_encode bs) ''=''" if "length bs mod 3 = 2" for bs
      using that
    proof (induction bs rule: b64_encode.induct)
      case (1 a b c rest)
      then have "has_suffix (b64_encode rest) ''=''" by (simp add: mod_Suc split: if_splits)
      then show ?case by (auto simp: has_suffix_single)
    qed (auto simp: has_suffix_single)
    then show ?thesis using raw by (simp add: redact_arg_def length_encode)
  qed
  show ?thesis
    using assms(3-6) redact [OF assms(1)] redact [OF assms(2)] by (simp add: exec_command_def redact_args_def Let_def)
qed

end
