(* ===== verification/EdgeWitnesses.thy ===== *)
theory EdgeWitnesses
  imports EdgeErrors Fixtures
begin

text \<open>
  A machine with the WireGuard tools, reduced to its peer list, and the conditional properties of the
  edge applied to it.
\<close>

section \<open>A machine\<close>

type_synonym machine = "(string \<times> ipv4 option) list"

definition addrs :: "ipv4 option \<Rightarrow> (ipv4 \<times> nat) list" where
  "addrs x = (case x of None \<Rightarrow> [] | Some ip \<Rightarrow> [(ip, 32)])"

definition machine_table :: "machine \<Rightarrow> wg_table" where
  "machine_table m k = (if canonical k then map_option addrs (map_of m k) else None)"

definition machine_entries :: "machine \<Rightarrow> dump_entry list" where
  "machine_entries m = map (\<lambda>(k, x). \<lparr>de_key = k, de_psk = ''(none)'', de_endpoint = ''1.2.3.4:5'',
     de_allowed = addrs x, de_rest = ''off''\<rparr>) (AList.clearjunk (filter (\<lambda>(k, x). canonical k) m))"

definition machine_give :: "string \<Rightarrow> ipv4 \<Rightarrow> machine \<Rightarrow> machine" where
  "machine_give k ip m = AList.update k (Some ip) (map (\<lambda>(j, x). (j, if x = Some ip then None else x)) m)"

definition machine_run :: "string list \<Rightarrow> machine \<Rightarrow> (goerr + string) \<times> machine" where
  "machine_run args m =
     (case args of
        [_, _, _, _, k, _, px] \<Rightarrow>
          (case parse_prefix4 px of Some (ip, n) \<Rightarrow> (Inr [], machine_give k ip m) | None \<Rightarrow> (Inr [], m))
      | [_, _, _, _, k, _] \<Rightarrow> (Inr [], AList.delete k m)
      | [_, _, _, _] \<Rightarrow> (Inr (dump_text ''privkey'' (machine_entries m)), m)
      | _ \<Rightarrow> (Inr [], m))"

definition demo_wg :: "machine wg_client" where
  "demo_wg = wg_new machine_run ''wg0''"

lemma map_of_filter_key: "map_of (filter (\<lambda>(k, x). P k) m) k = (if P k then map_of m k else None)"
  by (induction m) auto

lemma map_of_map_snd: "map_of (map (\<lambda>(j, x). (j, f x)) m) k = map_option f (map_of m k)"
  by (induction m) auto

lemma machine_shows: "shows_table (dump_text ''privkey'' (machine_entries m)) (machine_table m)"
  unfolding shows_table_def
proof (intro exI conjI)
  let ?c = "AList.clearjunk (filter (\<lambda>(k, x). canonical k) m)"
  show "dump_text ''privkey'' (machine_entries m) = dump_text ''privkey'' (machine_entries m)" ..
  show "solid ''privkey''" by code_simp
  have e: "plain ''(none)''" "plain ''1.2.3.4:5''" "solid ''off''" by code_simp+
  have can: "canonical k" if "(k, x) \<in> set ?c" for k x
  proof -
    have "k \<in> fst ` set ?c" using that by (metis fst_conv image_eqI)
    then have "k \<in> fst ` set (filter (\<lambda>(k, x). canonical k) m)" by (metis clearjunk_keys_set set_map)
    then show ?thesis by auto
  qed
  show "\<forall>e \<in> set (machine_entries m). entry_ok e"
  proof
    fix d
    assume "d \<in> set (machine_entries m)"
    then obtain kx where kx: "kx \<in> set ?c" "d = (\<lambda>(k, x). \<lparr>de_key = k, de_psk = ''(none)'', de_endpoint = ''1.2.3.4:5'',
        de_allowed = addrs x, de_rest = ''off''\<rparr>) kx"
      unfolding machine_entries_def set_map by blast
    obtain k x where k: "kx = (k, x)" by (cases kx)
    have "canonical k" using can kx(1) unfolding k by blast
    then show "entry_ok d"
      using e unfolding kx(2) k by (simp add: entry_ok_def addrs_def split: option.splits)
  qed
  show "distinct (map de_key (machine_entries m))"
    using distinct_clearjunk [of "filter (\<lambda>(k, x). canonical k) m"]
    by (simp add: machine_entries_def comp_def case_prod_beta)
  have "map (\<lambda>e. (de_key e, de_allowed e)) (machine_entries m) = map (\<lambda>(j, x). (j, addrs x)) ?c"
    by (simp add: machine_entries_def comp_def case_prod_beta)
  then show "machine_table m = map_of (map (\<lambda>e. (de_key e, de_allowed e)) (machine_entries m))"
    by (auto simp: fun_eq_iff machine_table_def map_of_map_snd map_of_clearjunk map_of_filter_key)
qed

lemma machine_give_table: "canonical k \<Longrightarrow> machine_table (machine_give k ip m) = give k (ip, 32) (machine_table m)"
proof
  fix j
  assume k: "canonical k"
  show "machine_table (machine_give k ip m) j = give k (ip, 32) (machine_table m) j"
  proof (cases "j = k")
    case True
    then show ?thesis using k by (simp add: machine_table_def machine_give_def give_def update_conv' addrs_def)
  next
    case False
    then show ?thesis
      by (cases "map_of m j")
        (auto simp: machine_table_def machine_give_def give_def update_conv' map_of_map_snd addrs_def split: option.splits)
  qed
qed

lemma prefix32: "parse_prefix4 (addr_text ip @ ''/32'') = Some (ip, 32)"
proof -
  have "dec_text 32 = ''32''" by code_simp
  then show ?thesis using parse_prefix_text [of 32 ip] by (simp add: prefix_text_def)
qed

lemma machine_tools: "tools_ok demo_wg machine_table" "tools_work demo_wg (\<lambda>m. True)"
proof -
  have iface: "wc_interface demo_wg = ''wg0''" "wc_runner demo_wg = machine_run" by (simp_all add: demo_wg_def wg_new_def)
  have run: "run_state (wg_run demo_wg cmd) m = (case cmd of
       SetAllowed k ip \<Rightarrow> (Inr [], machine_give k ip m) | RemoveCmd k \<Rightarrow> (Inr [], AList.delete k m)
     | DumpCmd \<Rightarrow> (Inr (dump_text ''privkey'' (machine_entries m)), m) | _ \<Rightarrow> (Inr [], m))" for cmd m
    by (cases cmd) (simp_all add: wg_run_def iface machine_run_def prefix32)
  show "tools_work demo_wg (\<lambda>m. True)"
    unfolding tools_work_def run by (auto split: wg_cmd.splits)
  have del: "machine_table (AList.delete k m) = (machine_table m)(k := None)" for k m
    by (auto simp: machine_table_def fun_eq_iff delete_conv')
  show "tools_ok demo_wg machine_table"
    unfolding tools_ok_def run
  proof (intro allI impI)
    fix cmd m and r :: "goerr + string" and m'
    assume ok: "cmd_key_ok cmd" and "(case cmd of
       SetAllowed k ip \<Rightarrow> (Inr [], machine_give k ip m) | RemoveCmd k \<Rightarrow> (Inr [], AList.delete k m)
     | DumpCmd \<Rightarrow> (Inr (dump_text ''privkey'' (machine_entries m)), m) | _ \<Rightarrow> (Inr [], m)) = (r, m')"
    then show "(machine_table m' = wg_effect cmd (machine_table m) \<or> (isl r \<and> machine_table m' = machine_table m)) \<and>
        (\<forall>out. cmd = DumpCmd \<longrightarrow> r = Inr out \<longrightarrow> shows_table out (machine_table m))"
      by (cases cmd) (auto simp: machine_give_table del machine_shows)
  qed
qed

text \<open>Two keys and an address.\<close>

definition key_a :: string where "key_a = b64_encode (replicate 32 1)"
definition key_b :: string where "key_b = b64_encode (replicate 32 2)"
definition demo_ip :: ipv4 where "demo_ip = 0x0A4D0002"

lemma demo_keys: "canonical key_a" "canonical key_b" "key_a \<noteq> key_b" "host_ip demo_ip"
proof -
  have r: "bytes (replicate 32 1)" "bytes (replicate 32 2)" by (simp_all add: bytes_def)
  then show "canonical key_a" "canonical key_b"
    by (simp_all add: canonical_def key_a_def key_b_def validate_encode)
  have "b64_decode key_a \<noteq> b64_decode key_b"
    using decode_encode [OF r(1)] decode_encode [OF r(2)] by (simp add: key_a_def key_b_def)
  then show "key_a \<noteq> key_b" by metis
  show "host_ip demo_ip" by code_simp
qed

section \<open>The driver\<close>

lemma dump_read_back_witness: "map_of (parse_dump (dump_text ''privkey'' (machine_entries [(key_a, Some demo_ip)]))) key_a = Some (Some demo_ip)"
  using dump_read_back [OF machine_shows, of "[(key_a, Some demo_ip)]"] demo_keys(1)
  by (simp add: machine_table_def addrs_def first_addr_def)

lemma rotation_never_both_witness:
  "\<exists>r m. run_state (set_peer demo_wg \<lparr>wp_public_key = key_b, wp_tunnel_ip = Some demo_ip\<rparr> key_a) [(key_a, Some demo_ip)] = (r, m) \<and>
     (machine_table m = machine_table [(key_a, Some demo_ip)] \<or> machine_table m key_a = None)"
proof -
  let ?p = "\<lparr>wp_public_key = key_b, wp_tunnel_ip = Some demo_ip\<rparr>"
  obtain r m where run: "run_state (set_peer demo_wg ?p key_a) [(key_a, Some demo_ip)] = (r, m)" by (rule prod.exhaust)
  have "validate_key (wp_public_key ?p) = Inr key_b" "validate_key key_a = Inr key_a"
    using demo_keys by (simp_all add: canonical_def)
  from rotation_never_both [OF machine_tools(1) this demo_keys(3) run] run show ?thesis by blast
qed

text \<open>The address moves from the first key to the second.\<close>

definition demo_set :: "wg_peer list" where
  "demo_set = [\<lparr>wp_public_key = key_b, wp_tunnel_ip = Some demo_ip\<rparr>]"

lemma demo_want: "want_map demo_set [] = Inr [(key_b, demo_ip)]"
  using demo_keys(2) by (simp add: demo_set_def canonical_def)

lemma order_ok_id: "order_ok id"
  by (simp add: order_ok_def)



section \<open>The agent\<close>

definition demo_token :: string where
  "demo_token = ''0123456789abcdef0123456789abcdef''"

definition demo_agent :: "machine agent" where
  "demo_agent = \<lparr>ag_wg = demo_wg, ag_token = demo_token, ag_instance_id = ''id'', ag_version = ''dev''\<rparr>"

lemma late_write_steals_the_address_witness:
  "\<exists>w2. snd (run_state (handle_set_peer demo_agent (Some (peer_payload key_a demo_ip 1 [])))
      (snd (run_state (handle_set_peer demo_agent (Some (peer_payload key_b demo_ip 2 key_a))) []))) = w2 \<and>
     machine_table w2 key_a = Some [(demo_ip, 32)] \<and> machine_table w2 key_b = Some []"
proof -
  have a: "ag_wg demo_agent = demo_wg" by (simp add: demo_agent_def)
  from late_write_steals_the_address [of demo_agent machine_table "\<lambda>m. True" "[]" key_a key_b demo_ip 2 1]
  show ?thesis using machine_tools demo_keys by (auto simp: a)
qed

definition demo_agents :: "string \<Rightarrow> machine agent" where
  "demo_agents b = demo_agent"

definition edge_server :: server where
  "edge_server = server_row.extend (lon\<lparr>s_agent_token := demo_token\<rparr>) (server.fields 0)"

lemma edge_server_facts:
  "trim_space (s_agent_token edge_server) = ag_token (demo_agents b)" "ag_wg (demo_agents b) = demo_wg"
  by (simp add: demo_agents_def, code_simp) (simp add: demo_agents_def demo_agent_def)

definition demo_calls :: "(server \<times> edge_call) list" where
  "demo_calls = [(edge_server, CallApply \<lparr>ep_public_key = key_a, ep_tunnel_ip = demo_ip, ep_replaces = [], ep_revision = 1\<rparr>),
     (edge_server, CallRemove key_a)]"


lemma rejected_means_malformed_witness:
  "\<exists>err. fst (http_apply_peer (fleet_http id demo_agents (\<lambda>b. True)) edge_server
     \<lparr>ep_public_key = ''bad'', ep_tunnel_ip = demo_ip, ep_replaces = [], ep_revision = 1\<rparr> (\<lambda>b. [])) = Inl err \<and> is_err err ErrRejected"
proof -
  let ?p = "\<lparr>ep_public_key = ''bad'', ep_tunnel_ip = demo_ip, ep_replaces = [], ep_revision = 1\<rparr>"
  obtain r e' where run: "http_apply_peer (fleet_http id demo_agents (\<lambda>b. True)) edge_server ?p (\<lambda>b. []) = (r, e')" by (rule prod.exhaust)
  have "plain_errors (ag_wg (demo_agents (base_url edge_server)))"
    using machine_tools(2) edge_server_facts(2) unfolding plain_errors_def tools_work_def by fastforce
  moreover have "malformed ?p" by (simp add: malformed_def validate_key_def)
  ultimately show ?thesis using rejected_means_malformed [OF _ edge_server_facts(1) _ run] run by auto
qed

lemma agent_requires_the_token_witness:
  "\<exists>rep. run_state (agent_serve id False demo_agent \<lparr>hr_method = ''GET'', hr_base = [], hr_path = ''/v1/health'',
     hr_authorization = ''Bearer guess'', hr_body = None\<rparr>) [] = (rep, [])"
proof -
  have "\<not> (7 \<le> length (hr_authorization r) \<and> equal_fold (take 7 (hr_authorization r)) ''bearer '' \<and>
    trim_space (drop 7 (hr_authorization r)) = ag_token demo_agent)"
    if "r = \<lparr>hr_method = ''GET'', hr_base = [], hr_path = ''/v1/health'', hr_authorization = ''Bearer guess'', hr_body = None\<rparr>" for r
    unfolding that by code_simp
  from agent_requires_the_token [OF this [OF refl], of id False "[]"] show ?thesis by blast
qed

lemma instance_id_survives_restart_witness:
  "run_state (load_or_create_instance_id None (Inl (Sentinel ErrNotFound)) None) (Some (hex_text (replicate 16 171) @ [CHR 0x0A])) =
     (Inr (hex_text (replicate 16 171)), Some (hex_text (replicate 16 171) @ [CHR 0x0A]))"
proof -
  have run: "run_state (load_or_create_instance_id None (Inr (replicate 16 171)) None) None =
      (Inr (hex_text (replicate 16 171)), Some (hex_text (replicate 16 171) @ [CHR 0x0A]))"
    by (simp add: load_or_create_instance_id_def)
  have "bytes buf \<and> length buf = 16" if "Inr (replicate 16 171) = (Inr buf :: goerr + int list)" for buf
    using that by (auto simp: bytes_def)
  from instance_id_survives_restart [OF run this, of "Inl (Sentinel ErrNotFound)" None] show ?thesis by blast
qed

lemma keys_stay_out_of_errors_witness:
  "fst (exec_command (\<lambda>c m. (Inl (''busy'', Sentinel ErrNotFound), m)) (argv ''wg0'' (RemoveCmd key_a)) ()) =
   fst (exec_command (\<lambda>c m. (Inl (''busy'', Sentinel ErrNotFound), m)) (argv ''wg0'' (RemoveCmd key_b)) ())"
  using keys_stay_out_of_errors [OF demo_keys(1,2), of "\<lambda>c m. (Inl (''busy'', Sentinel ErrNotFound), m)" "''wg0''" "()"
    "''busy''" "Sentinel ErrNotFound" "()" "()" "()" demo_ip "''busy''" "Sentinel ErrNotFound" "()" "()"] by simp

end
