(* ===== verification/PeerLaws.thy ===== *)
theory PeerLaws
  imports Peers
begin

text \<open>
  What the peer table promises its clients: address allocation (which host address is handed out,
  when allocation can fail), \<open>EnsureAssignment\<close> (idempotence, stable addresses, superseded keys)
  and the revision guard of \<open>MarkApplied\<close>.
\<close>

section \<open>Address allocation\<close>

lemma find_free_unfold:
  "hi < g \<Longrightarrow> find_free taken g hi = None"
  "g \<le> hi \<Longrightarrow> taken g \<Longrightarrow> find_free taken g hi = find_free taken (g + 1) hi"
  "g \<le> hi \<Longrightarrow> \<not> taken g \<Longrightarrow> find_free taken g hi = Some g"
  by (subst find_free.simps, simp)+

lemma find_free_Some:
  "find_free taken g hi = Some h \<Longrightarrow> g \<le> h \<and> h \<le> hi \<and> \<not> taken h \<and> (\<forall>k. g \<le> k \<and> k < h \<longrightarrow> taken k)"
proof (induction taken g hi rule: find_free.induct)
  case (1 taken g hi)
  consider "hi < g" | "g \<le> hi" "\<not> taken g" | "g \<le> hi" "taken g" by linarith
  then show ?case
  proof cases
    case 1
    then show ?thesis using "1.prems" by (simp add: find_free_unfold(1))
  next
    case 2
    then have "h = g" using "1.prems" by (simp add: find_free_unfold(3))
    with 2 show ?thesis by auto
  next
    case 3
    then have "find_free taken (g + 1) hi = Some h"
      using "1.prems" by (simp add: find_free_unfold(2))
    then have IH: "g + 1 \<le> h \<and> h \<le> hi \<and> \<not> taken h \<and> (\<forall>k. g + 1 \<le> k \<and> k < h \<longrightarrow> taken k)"
      using "1.IH" 3 by simp
    moreover have "taken k" if "g \<le> k" "k < h" for k
      using that IH 3 by (cases "k = g") auto
    ultimately show ?thesis by simp
  qed
qed

lemma find_free_None:
  "find_free taken g hi = None \<Longrightarrow> g \<le> k \<Longrightarrow> k \<le> hi \<Longrightarrow> taken k"
proof (induction taken g hi rule: find_free.induct)
  case (1 taken g hi)
  then have g: "g \<le> hi" by simp
  with 1(2) find_free_unfold(3) have "taken g" by fastforce
  with g 1(2) have "find_free taken (g + 1) hi = None"
    by (simp add: find_free_unfold(2))
  with 1 g \<open>taken g\<close> show ?case by (cases "k = g") auto
qed

lemma find_free_first:
  assumes "g \<le> h" "h \<le> hi" "\<not> taken h" "\<And>k. g \<le> k \<Longrightarrow> k < h \<Longrightarrow> taken k"
  shows "find_free taken g hi = Some h"
proof (cases "find_free taken g hi")
  case None
  then show ?thesis using find_free_None assms(1-3) by blast
next
  case (Some k)
  note k = find_free_Some [OF Some]
  then have "\<not> k < h" "\<not> h < k" using assms by blast+
  with Some show ?thesis by simp
qed

text \<open>An IPv4 network: the base address has no host bits, as PostgreSQL's \<open>cidr\<close> requires.\<close>

definition network :: "ipv4 \<Rightarrow> nat \<Rightarrow> bool" where
  "network base bits \<longleftrightarrow> bits \<le> 32 \<and> uint base mod 2 ^ (32 - bits) = 0"

lemma network_room:
  assumes "network base bits" and "g < 2 ^ (32 - bits)"
  shows "uint base + g < 2 ^ 32"
proof -
  let ?m = "2 ^ (32 - bits) :: int"
  have b: "uint base < 2 ^ 32" using unsigned_less [of base] by simp
  have split: "(2 :: int) ^ 32 = 2 ^ bits * ?m"
    using assms(1) by (simp add: network_def flip: power_add)
  obtain q where q: "uint base = q * ?m"
    using assms(1) by (auto simp: network_def mod_eq_0_iff_dvd dvd_def mult.commute)
  have "q * ?m < 2 ^ bits * ?m" using b split q by simp
  then have "q + 1 \<le> 2 ^ bits" by simp
  then have "(q + 1) * ?m \<le> 2 ^ bits * ?m" by (intro mult_right_mono) simp_all
  then show ?thesis using q split assms(2) by (simp add: algebra_simps)
qed

lemma uint_host_addr:
  assumes "network base bits" and "0 \<le> g" and "g \<le> max_offset bits"
  shows "uint (host_addr base g) = uint base + g"
proof -
  have g: "g < 2 ^ (32 - bits)" using assms(3) by (simp add: max_offset_def)
  have top: "uint base + g < 2 ^ LENGTH(32)" using network_room [OF assms(1) g] by simp
  have pos: "0 \<le> uint base + g" using assms(2) by simp
  have "host_addr base g = word_of_int (uint base + g)"
    by (simp add: host_addr_def)
  then show ?thesis
    by (simp only: uint_word_of_int_eq take_bit_int_eq_self [OF pos top])
qed

lemma allocate_ip_Inr:
  assumes "allocate_ip d srv (Cidr4 base bits) = Inr ip"
  shows "\<exists>g. 2 \<le> g \<and> g \<le> max_offset bits \<and> ip = host_addr base g \<and> \<not> ip_taken d srv ip \<and>
    (\<forall>k. 2 \<le> k \<and> k < g \<longrightarrow> ip_taken d srv (host_addr base k))"
proof -
  from assms obtain g where g: "find_free (\<lambda>g. ip_taken d srv (host_addr base g)) 2 (max_offset bits) = Some g"
    and ip: "ip = host_addr base g"
    by (auto simp: allocate_ip_def split: if_splits option.splits)
  show ?thesis
    using find_free_Some [OF g] ip by (intro exI [of _ g]) auto
qed

text \<open>
  C38 (allocate_ip_lowest). The address handed out is the lowest free host address of the server's
  network: it lies strictly between the server's own \<open>.1\<close> and the broadcast address, no live
  peer of the server holds it, and every lower host address is held by a live peer.
\<close>

theorem allocate_ip_lowest:
  assumes "network base bits" and "allocate_ip d srv (Cidr4 base bits) = Inr ip"
  shows "uint base + 1 < uint ip \<and> uint ip < uint base + 2 ^ (32 - bits) - 1 \<and> \<not> ip_taken d srv ip \<and>
    (\<forall>a. uint base + 1 < uint a \<and> uint a < uint ip \<longrightarrow> ip_taken d srv a)"
proof -
  obtain g where g: "2 \<le> g" "g \<le> max_offset bits" and ip: "ip = host_addr base g"
    and free: "\<not> ip_taken d srv ip" and low: "\<forall>k. 2 \<le> k \<and> k < g \<longrightarrow> ip_taken d srv (host_addr base k)"
    using allocate_ip_Inr [OF assms(2)] by blast
  have u: "uint ip = uint base + g" using uint_host_addr [OF assms(1), of g] g ip by simp
  have "ip_taken d srv a" if "uint base + 1 < uint a" "uint a < uint ip" for a
  proof -
    let ?k = "uint a - uint base"
    have k: "2 \<le> ?k" "?k < g" using that u by auto
    then have "uint (host_addr base ?k) = uint a"
      using uint_host_addr [OF assms(1), of ?k] g by simp
    then have "host_addr base ?k = a" by (simp add: word_uint_eq_iff)
    with low k show ?thesis by metis
  qed
  with free u g show ?thesis by (auto simp: max_offset_def)
qed

text \<open>
  Allocation reports an exhausted subnet only when it is: every host
  address from \<open>.2\<close> up to the last one before broadcast is held by a live peer of the server.
\<close>

theorem allocate_ip_exhausted:
  assumes "allocate_ip d srv (Cidr4 base bits) = Inl e" and "2 \<le> g" and "g \<le> max_offset bits"
  shows "e = Sentinel ErrNoAddresses \<and> ip_taken d srv (host_addr base g)"
proof -
  have "\<not> max_offset bits < 1" using assms(2,3) by linarith
  then have n: "find_free (\<lambda>g. ip_taken d srv (host_addr base g)) 2 (max_offset bits) = None"
    and e: "e = Sentinel ErrNoAddresses"
    using assms(1) by (auto simp: allocate_ip_def split: option.splits)
  from find_free_None [OF n assms(2)] assms(3) e show ?thesis by simp
qed

lemma allocate_ip_total:
  assumes net: "network base bits"
    and room: "int (count_where (\<lambda>p. p_server_id p = srv \<and> live p) (peers d)) < max_offset bits - 1"
  shows "\<exists>ip. allocate_ip d srv (Cidr4 base bits) = Inr ip"
proof (rule ccontr)
  assume "\<nexists>ip. allocate_ip d srv (Cidr4 base bits) = Inr ip"
  then obtain e where e: "allocate_ip d srv (Cidr4 base bits) = Inl e"
    by (cases "allocate_ip d srv (Cidr4 base bits)") auto
  let ?rows = "filter (\<lambda>p. p_server_id p = srv \<and> live p) (peers d)" and ?n = "max_offset bits"
  let ?A = "host_addr base ` {2..?n}"
  have "max_offset bits \<ge> 1" using room by linarith
  then have none: "find_free (\<lambda>g. ip_taken d srv (host_addr base g)) 2 ?n = None"
    using e by (auto simp: allocate_ip_def split: option.splits if_splits)
  have "?A \<subseteq> set (map p_tunnel_ip ?rows)"
  proof
    fix a assume "a \<in> ?A"
    then obtain g where "2 \<le> g" "g \<le> ?n" "a = host_addr base g" by auto
    with find_free_None [OF none] have "ip_taken d srv a" by simp
    then show "a \<in> set (map p_tunnel_ip ?rows)"
      by (auto simp: ip_taken_def list_ex_iff)
  qed
  then have "card ?A \<le> card (set (map p_tunnel_ip ?rows))"
    by (intro card_mono) simp_all
  also have "\<dots> \<le> length ?rows" using card_length [of "map p_tunnel_ip ?rows"] by simp
  finally have "card ?A \<le> count_where (\<lambda>p. p_server_id p = srv \<and> live p) (peers d)"
    by (simp add: count_where_def)
  moreover have "int (card ?A) = ?n - 1"
  proof -
    have "uint (host_addr base g) = uint base + g" if "g \<in> {2..?n}" for g
      using uint_host_addr [OF net, of g] that by auto
    then have "inj_on (host_addr base) {2..?n}"
      by (metis (no_types, lifting) add_left_cancel inj_onI)
    then show ?thesis using \<open>max_offset bits \<ge> 1\<close> by (simp add: card_image)
  qed
  ultimately show False using room by linarith
qed

section \<open>EnsureAssignment\<close>

lemma ensure_assignment_Inr:
  "ensure_assignment now dev srv key d = (Inr a, d') \<longleftrightarrow> ensure_assignment_tx now dev srv key d = (Inr a, d')"
  by (cases "ensure_assignment_tx now dev srv key d")
    (auto simp: ensure_assignment_def map_result_def split: sum.splits)

text \<open>The three ways the transaction succeeds.\<close>

lemma ensure_cases:
  assumes "ensure_assignment now dev srv key d = (Inr a, d')"
  obtains
    (same) p where "existing_assignment d dev srv = Some p" "p_public_key p = key"
      "p_state p \<noteq> PeerRevoking" "a = scan_peer p" "d' = d"
  | (rekeyed) p where "existing_assignment d dev srv = Some p"
      "p_public_key p \<noteq> key \<or> p_state p = PeerRevoking" "a = scan_peer (rekey now key p)"
      "d' = d\<lparr>peers := update_where (\<lambda>q. p_id q = p_id p) (rekey now key) (peers d)\<rparr>"
  | (fresh) s ip where "existing_assignment d dev srv = None" "find_server_row d srv = Some s"
      "allocate_ip d srv (s_tunnel_subnet s) = Inr ip"
      "a = scan_peer (new_peer now (next_id d) dev srv key ip)"
      "d' = d\<lparr>peers := peers d @ [new_peer now (next_id d) dev srv key ip], next_id := Suc (next_id d)\<rparr>"
proof -
  have tx: "ensure_assignment_tx now dev srv key d = (Inr a, d')"
    using assms ensure_assignment_Inr by blast
  then obtain s where s: "find_server_row d srv = Some s"
    by (cases "find_server_row d srv") (auto simp: ensure_assignment_tx_def)
  show thesis
  proof (cases "existing_assignment d dev srv")
    case (Some p)
    with tx s show thesis
      by (cases "p_public_key p = key \<and> p_state p \<noteq> PeerRevoking")
        (auto simp: ensure_assignment_tx_def intro: same rekeyed)
  next
    case None
    with tx s obtain ip where ip: "allocate_ip d srv (s_tunnel_subnet s) = Inr ip"
      by (cases "allocate_ip d srv (s_tunnel_subnet s)") (auto simp: ensure_assignment_tx_def)
    with None tx s have "insert_peer now dev srv key ip d = (Inr a, d')"
      by (simp add: ensure_assignment_tx_def)
    then show thesis
      by (intro fresh [OF None s ip]) (auto simp: insert_peer_def Let_def split: if_splits)
  qed
qed

lemma ensure_server_exists:
  "ensure_assignment now dev srv key d = (Inr a, d') \<Longrightarrow> \<exists>s. find_server_row d srv = Some s"
  unfolding ensure_assignment_Inr by (cases "find_server_row d srv") (auto simp: ensure_assignment_tx_def)

lemma live_unique:
  assumes "wf_peers d" "p \<in> set (peers d)" "q \<in> set (peers d)" "live p" "live q"
    and "p_device_id p = p_device_id q" "p_server_id p = p_server_id q"
  shows "p = q"
  by (rule index_unique [of "\<lambda>p. (p_device_id p, p_server_id p)" live "peers d"])
    (use assms in \<open>simp_all add: wf_peers_def\<close>)

lemma ensure_row:
  assumes "wf_peers d" and "ensure_assignment now dev srv key d = (Inr a, d')"
  shows "\<exists>p \<in> set (peers d'). a = scan_peer p \<and> existing_assignment d' dev srv = Some p \<and>
    p_public_key p = key \<and> (p_state p = PeerPending \<or> p_state p = PeerActive)"
proof -
  have wf': "wf_peers d'"
    using assms peers_step_ensure [of d now dev srv key] by (simp add: peers_step_def)
  have ex: "existing_assignment d' dev srv = Some p"
    if "p \<in> set (peers d')" "p_device_id p = dev" "p_server_id p = srv" "live p" for p
  proof -
    have uniq: "q = p" if "q \<in> set (peers d')" "p_device_id q = dev \<and> p_server_id q = srv \<and> p_state q \<noteq> PeerRevoked" for q
    proof (rule live_unique [OF wf' that(1) \<open>p \<in> set (peers d')\<close>])
      show "live q" using that(2) by (simp add: live_def)
    qed (use \<open>live p\<close> \<open>p_device_id p = dev\<close> \<open>p_server_id p = srv\<close> that(2) in simp_all)
    have "p_device_id p = dev \<and> p_server_id p = srv \<and> p_state p \<noteq> PeerRevoked"
      using that by (simp add: live_def)
    with \<open>p \<in> set (peers d')\<close> show ?thesis
      unfolding existing_assignment_def by (rule find_unique) (rule uniq)
  qed
  from assms(2) show ?thesis
  proof (cases rule: ensure_cases)
    case (same p)
    from existing_assignment_SomeD [OF same(1)] same show ?thesis
      by (cases "p_state p") auto
  next
    case (rekeyed p)
    note p = existing_assignment_SomeD [OF rekeyed(1)]
    then have "rekey now key p \<in> set (peers d')"
      unfolding rekeyed(4) by (force simp: set_update_where)
    with p show ?thesis
      using ex [of "rekey now key p"] rekeyed(3) by (force simp: rekey_def live_def)
  next
    case (fresh s ip)
    then have "new_peer now (next_id d) dev srv key ip \<in> set (peers d')" by simp
    then show ?thesis
      using ex [of "new_peer now (next_id d) dev srv key ip"] fresh(4) by (force simp: new_peer_def live_def)
  qed
qed

text \<open>
  A second EnsureAssignment for the same device, server and key
  returns the very same assignment and changes nothing, so an app that provisions on every launch
  is answered from the existing row.
\<close>

theorem ensure_assignment_idempotent:
  assumes "wf_peers d" and "ensure_assignment now dev srv key d = (Inr a, d')"
  shows "ensure_assignment later dev srv key d' = (Inr a, d')"
proof -
  from ensure_row [OF assms] obtain p where p: "a = scan_peer p" "existing_assignment d' dev srv = Some p"
      "p_public_key p = key" "p_state p \<noteq> PeerRevoking" by auto
  have "find_server_row d' srv = find_server_row d srv"
    using assms(2) by (cases rule: ensure_cases) (auto simp: find_server_row_def)
  moreover obtain s where "find_server_row d srv = Some s"
    using ensure_server_exists [OF assms(2)] by blast
  ultimately show ?thesis
    using p by (simp add: ensure_assignment_Inr ensure_assignment_tx_def)
qed

text \<open>
  A device that comes back with a new key while it holds a row on
  the server keeps its row and its tunnel address; the row is pending again at the next revision,
  carries the new key, and remembers the superseded key that must leave the box: the oldest one
  not yet confirmed gone, or the key just replaced.
\<close>

theorem ensure_assignment_rotation:
  assumes "find_server_row d srv \<noteq> None" and "existing_assignment d dev srv = Some p"
    and "p_public_key p \<noteq> key"
  shows "\<exists>a d'. ensure_assignment now dev srv key d = (Inr a, d') \<and>
    pa_id a = p_id p \<and> pa_tunnel_ip a = p_tunnel_ip p \<and> pa_public_key a = key \<and>
    pa_state a = PeerPending \<and> pa_revision a = p_revision p + 1 \<and> \<not> applied a \<and>
    pa_prev_public_key a = coalesce (p_prev_public_key p) (p_public_key p)"
proof -
  obtain s where "find_server_row d srv = Some s" using assms(1) by blast
  with assms(2,3) have "ensure_assignment now dev srv key d = (Inr (scan_peer (rekey now key p)),
      d\<lparr>peers := update_where (\<lambda>q. p_id q = p_id p) (rekey now key) (peers d)\<rparr>)"
    by (simp add: ensure_assignment_Inr ensure_assignment_tx_def)
  with assms(3) show ?thesis
    by (auto simp: rekey_def scan_peer_def applied_def)
qed

text \<open>
  The revision guard of MarkApplied: a confirmation of an older
  revision leaves a row whose desired state has moved on exactly as it was.
\<close>

theorem stale_confirmation_ignored:
  assumes "p \<in> set (peers d)" and "revn < p_revision p"
  shows "p \<in> set (peers (snd (mark_applied now i revn d)))"
proof -
  have "\<not> (p_id p = i \<and> p_state p = PeerPending \<and> p_revision p \<le> revn)" using assms(2) by simp
  with assms(1) show ?thesis unfolding mark_applied_def set_update_where snd_conv
    by (force simp: set_update_where)
qed

end
