(* ===== verification/ProvisionLaws.thy ===== *)
theory ProvisionLaws
  imports Fixtures PeerLaws
begin

text \<open>
  What a provisioning request promises: which errors it can answer with, that a request refused at
  the gate has no effect, that it contacts at most two boxes, that a failed request never takes a
  peer away, and that an admissible request for a reachable server ends with the peer installed.
\<close>

section \<open>Errors\<close>

definition request_error :: "goerr \<Rightarrow> bool" where
  "request_error e \<longleftrightarrow> root_err e \<in> {ErrNotEntitled, ErrDeviceLimit, ErrNoServer, ErrEdgeUnavailable, ErrNotFound}
     \<or> (\<exists>t. root_err e = OtherError t)"

abbreviation good :: "goerr + 'a \<Rightarrow> bool" where
  "good r \<equiv> (\<forall>e. r = Inl e \<longrightarrow> request_error e)"

lemma request_error_simps [simp]:
  "request_error driver_error" "request_error (Wrap a e b) = request_error e"
  "request_error (Sentinel ErrNotEntitled)" "request_error (Sentinel ErrDeviceLimit)"
  "request_error (Sentinel ErrNoServer)" "request_error (Sentinel ErrEdgeUnavailable)"
  "request_error (Sentinel ErrNotFound)"
  by (simp_all add: request_error_def driver_error_def)

lemma good_reads:
  "yields good (store_entitlement uid)" "yields good (store_device_by_id i)"
  "yields good (store_devices_by_user uid)" "yields good (store_servers b)"
  unfolding store_defs
  by (rule yields_db_call; auto simp: get_entitlement_def device_by_id_def devices_by_user_def
      list_servers_def split: option.splits)+

lemma good_check_device_limit: "yields good (check_device_limit uid dev n)"
  unfolding check_device_limit_def Let_def
  by (rule yields_bind [OF good_reads(3)]) (auto split: sum.splits option.splits)

lemma good_candidates: "yields good (candidates req)"
  unfolding candidates_def Let_def
  by (rule yields_bind [OF good_reads(4)])
    (auto split: sum.splits intro!: yields_bind_any)

text \<open>
  C36 (provision_error_kinds). The errors a provisioning request can end with: not entitled, device
  limit, no server, edge unavailable, not found, or a database error. A full subnet and a
  rejection by the box never surface: both are reported as an unavailable edge.
\<close>

theorem provision_error_kinds:
  "\<forall>e w w'. run_state (provision cl req) w = (Inl e, w') \<longrightarrow>
     request_error e \<and> \<not> is_err e ErrNoAddresses \<and> \<not> is_err e ErrRejected \<and> \<not> is_err e ErrUnreachable"
proof (intro allI impI)
  fix e w w'
  assume run: "run_state (provision cl req) w = (Inl e, w')"
  have "yields good (provision cl req)"
    unfolding provision_def edge_unavailable_def
    apply (rule yields_bind [OF good_reads(1)], clarsimp split: sum.splits)
    apply (rule yields_bind [OF good_reads(2)], clarsimp split: sum.splits)
    apply (rule yields_bind [OF good_check_device_limit], clarsimp split: sum.splits)
    apply (rule yields_bind [OF good_candidates], clarsimp split: sum.splits)
    apply (rule yields_bind_any, auto split: sum.splits option.splits)
    done
  from yieldsD [OF this run] have "request_error e" by simp
  then show "request_error e \<and> \<not> is_err e ErrNoAddresses \<and> \<not> is_err e ErrRejected \<and> \<not> is_err e ErrUnreachable"
    by (auto simp: request_error_def is_err_root)
qed

section \<open>Requests refused at the gate\<close>

text \<open>The checks before any server is chosen, on the database the request starts from.\<close>

definition user_devices :: "uuid \<Rightarrow> db \<Rightarrow> device list" where
  "user_devices uid d =
     sort_key d_created_at (filter (\<lambda>v. d_user_id v = uid \<and> d_revoked_at v = None) (devices d))"

definition effective_limit :: "int \<Rightarrow> int" where
  "effective_limit n = (if n \<le> 0 then 1 else n)"

definition within_limit :: "uuid \<Rightarrow> uuid \<Rightarrow> int \<Rightarrow> db \<Rightarrow> bool" where
  "within_limit uid dev n d \<longleftrightarrow> int (length (user_devices uid d)) \<le> effective_limit n \<or>
     (case device_rank (user_devices uid d) dev of None \<Rightarrow> False | Some i \<Rightarrow> int i < effective_limit n)"

definition admissible :: "time \<Rightarrow> request \<Rightarrow> device \<Rightarrow> db \<Rightarrow> bool" where
  "admissible now req dev d \<longleftrightarrow>
     e_active (entitlement_of now (rq_user_id req) d) \<and>
     find (\<lambda>v. d_id v = rq_device_id req) (devices d) = Some dev \<and>
     d_user_id dev = rq_user_id req \<and> d_revoked_at dev = None \<and>
     within_limit (rq_user_id req) (d_id dev) (e_device_limit (entitlement_of now (rq_user_id req) d)) d"

definition same_effects :: "'e world \<Rightarrow> 'e world \<Rightarrow> bool" where
  "same_effects w w' \<longleftrightarrow> w_db w' = w_db w \<and> w_edge w' = w_edge w \<and> w_now w' = w_now w"

lemma same_effects_refl [simp]: "same_effects w w"
  by (simp add: same_effects_def)

lemma read_entitlement:
  "run_state (store_entitlement uid) w = (r, w') \<Longrightarrow>
   same_effects w w' \<and> (r = Inl driver_error \<or> r = Inr (entitlement_of (w_now w) uid (w_db w)))"
  unfolding store_entitlement_def same_effects_def
  by (drule db_call_read) (auto simp: get_entitlement_def)

lemma read_device:
  "run_state (store_device_by_id i) w = (r, w') \<Longrightarrow>
   same_effects w w' \<and> (\<forall>v. r = Inr v \<longrightarrow> find (\<lambda>v. d_id v = i) (devices (w_db w)) = Some v)"
  unfolding store_device_by_id_def same_effects_def
  by (drule db_call_read) (auto simp: device_by_id_def split: option.splits)

lemma read_limit:
  assumes "run_state (check_device_limit uid dev n) w = (r, w')"
  shows "same_effects w w' \<and> (r = Inr () \<longrightarrow> within_limit uid dev n (w_db w))"
proof -
  obtain rd w1 where rd: "run_state (store_devices_by_user uid) w = (rd, w1)"
    by (cases "run_state (store_devices_by_user uid) w")
  then have "same_effects w w1 \<and> (rd = Inl driver_error \<or> rd = Inr (user_devices uid (w_db w)))"
    unfolding store_devices_by_user_def same_effects_def
    by (auto dest!: db_call_read simp: devices_by_user_def user_devices_def)
  with rd assms show ?thesis
    by (auto simp: check_device_limit_def Let_def within_limit_def effective_limit_def
        split: sum.splits option.splits if_splits)
qed

text \<open>
  A request from a user without a running time block, for a
  device that is missing, someone else's or revoked, or beyond the plan's device limit, is answered
  with an error and changes neither the database nor any edge box, whatever store calls fail.
\<close>

theorem refused_request_has_no_effect:
  assumes "\<nexists>dev. admissible (w_now w) req dev (w_db w)"
  shows "\<exists>e w'. run_state (provision cl req) w = (Inl e, w') \<and> w_db w' = w_db w \<and> w_edge w' = w_edge w"
proof -
  let ?uid = "rq_user_id req"
  obtain r1 w1 where r1: "run_state (store_entitlement ?uid) w = (r1, w1)"
    by (cases "run_state (store_entitlement ?uid) w")
  obtain r2 w2 where r2: "run_state (store_device_by_id (rq_device_id req)) w1 = (r2, w2)"
    by (cases "run_state (store_device_by_id (rq_device_id req)) w1")
  note f1 = read_entitlement [OF r1] and f2 = read_device [OF r2]
  show ?thesis
  proof (cases "\<exists>ent dev. r1 = Inr ent \<and> e_active ent \<and> r2 = Inr dev \<and> d_user_id dev = ?uid \<and> d_revoked_at dev = None")
    case False
    then show ?thesis
      using r1 r2 f1 f2
      by (auto simp: provision_def same_effects_def driver_error_def split: sum.splits)
  next
    case True
    then obtain ent dev where t: "r1 = Inr ent" "e_active ent" "r2 = Inr dev" "d_user_id dev = ?uid"
      "d_revoked_at dev = None" by blast
    obtain r3 w3 where r3: "run_state (check_device_limit ?uid (d_id dev) (e_device_limit ent)) w2 = (r3, w3)"
      by (cases "run_state (check_device_limit ?uid (d_id dev) (e_device_limit ent)) w2")
    note f3 = read_limit [OF r3]
    have "r3 \<noteq> Inr ()"
      using assms t f1 f2 f3 by (auto simp: admissible_def same_effects_def driver_error_def)
    then obtain e where "r3 = Inl e" by (cases r3) auto
    with t r1 r2 r3 f1 f2 f3 show ?thesis
      by (auto simp: provision_def same_effects_def)
  qed
qed


section \<open>How many boxes are contacted\<close>

definition edge_cost :: "('e \<Rightarrow> nat) \<Rightarrow> nat \<Rightarrow> ('e, 'a) proc \<Rightarrow> bool" where
  "edge_cost c n m \<longleftrightarrow> (\<forall>w. c (w_edge (snd (run_state m w))) \<le> c (w_edge w) + n)"

lemma edge_cost_ret: "edge_cost c n (ret x)"
  by (simp add: edge_cost_def)

lemma edge_cost_bind:
  assumes "edge_cost c a m" and "\<And>x. edge_cost c b (f x)"
  shows "edge_cost c (a + b) (State_Monad.bind m f)"
  unfolding edge_cost_def
proof
  fix w
  obtain x w1 where m: "run_state m w = (x, w1)" by (cases "run_state m w")
  have "c (w_edge w1) \<le> c (w_edge w) + a" using assms(1) m unfolding edge_cost_def by (metis snd_conv)
  moreover have "c (w_edge (snd (run_state (f x) w1))) \<le> c (w_edge w1) + b"
    using assms(2) by (simp add: edge_cost_def)
  ultimately show "c (w_edge (snd (run_state (State_Monad.bind m f) w))) \<le> c (w_edge w) + (a + b)"
    using m by simp
qed

lemma edge_cost_bind0:
  "edge_cost c 0 m \<Longrightarrow> (\<And>x. edge_cost c n (f x)) \<Longrightarrow> edge_cost c n (State_Monad.bind m f)"
  using edge_cost_bind [of c 0 m n f] by simp

lemma edge_cost_db_call: "edge_cost c 0 (db_call f)"
  by (auto simp: edge_cost_def db_call_def Let_def split: prod.splits list.splits fault.splits)

lemma edge_cost_other: "edge_cost c 0 clock" "edge_cost c 0 float64_draw"
  by (auto simp: edge_cost_def float64_draw_def split: list.splits)

lemma edge_cost_record_failure: "edge_cost c 0 (record_failure a err)"
  unfolding record_failure_def store_defs
  by (intro edge_cost_bind0 edge_cost_db_call edge_cost_other edge_cost_ret)

lemma edge_cost_provision_on:
  assumes "\<And>s p e. c (snd (apply_peer cl s p e)) \<le> Suc (c e)"
  shows "edge_cost c 1 (provision_on cl dev srv ent)"
proof -
  have one: "edge_cost c (1 + 0) (State_Monad.bind (edge_call (apply_peer cl srv p)) f)"
    if "\<And>x. edge_cost c 0 (f x)" for p and f :: "_ \<Rightarrow> ('a, goerr + tunnel_config) proc"
    by (rule edge_cost_bind [OF _ that]) (use assms in \<open>simp add: edge_cost_def\<close>)
  show ?thesis
    unfolding provision_on_def store_ensure_assignment_def
    by (rule edge_cost_bind0 [OF edge_cost_db_call])
      (auto split: sum.splits simp: store_mark_applied_def
        intro!: edge_cost_ret one [simplified] edge_cost_bind0 edge_cost_record_failure edge_cost_db_call)
qed

lemma edge_cost_try_candidates:
  assumes "\<And>s p e. c (snd (apply_peer cl s p e)) \<le> Suc (c e)"
  shows "edge_cost c (max_inline_attempts - i) (try_candidates cl dev ent i last_err cands)"
proof (induction cands arbitrary: i last_err)
  case (Cons srv rest)
  show ?case
  proof (cases "max_inline_attempts \<le> i")
    case False
    then have n: "max_inline_attempts - i = 1 + (max_inline_attempts - Suc i)" by simp
    show ?thesis
      unfolding try_candidates.simps n if_not_P [OF False] store_begin_revoke_other_servers_def
      by (rule edge_cost_bind [OF edge_cost_provision_on [OF assms]])
        (auto split: sum.splits intro!: edge_cost_ret edge_cost_bind0 edge_cost_db_call Cons.IH)
  qed (simp add: edge_cost_ret)
qed (simp add: edge_cost_ret)

lemma edge_cost_reads:
  "edge_cost c 0 (check_device_limit uid dev n)" "edge_cost c 0 (candidates req)"
  unfolding check_device_limit_def candidates_def store_defs Let_def
  by (auto split: sum.splits option.splits intro!: edge_cost_bind0 edge_cost_ret edge_cost_db_call)

lemma edge_cost_provision:
  assumes "\<And>s p e. c (snd (apply_peer cl s p e)) \<le> Suc (c e)"
  shows "edge_cost c 2 (provision cl req)"
proof -
  note tries = edge_cost_try_candidates [of c cl 0, OF assms]
  have tail: "edge_cost c 2 (State_Monad.bind (try_candidates cl dev ent 0 None cands) f)"
    if "\<And>x. edge_cost c 0 (f x)" for dev ent cands and f :: "_ \<Rightarrow> ('a, goerr + tunnel_config) proc"
    using edge_cost_bind [OF tries that] by (simp add: max_inline_attempts_def)
  have ret: "edge_cost c n (ret x)" for n and x :: "goerr + tunnel_config"
    by (simp add: edge_cost_def)
  show ?thesis
    unfolding provision_def store_entitlement_def store_device_by_id_def
    apply (rule edge_cost_bind0 [OF edge_cost_db_call], simp add: ret split: sum.splits)
    apply (intro allI impI edge_cost_bind0 [OF edge_cost_db_call], simp add: ret split: sum.splits)
    apply (intro allI impI edge_cost_bind0 [OF edge_cost_reads(1)], simp add: ret split: sum.splits)
    apply (intro allI impI edge_cost_bind0 [OF edge_cost_reads(2)], simp add: ret split: sum.splits)
    apply (intro allI impI tail, simp add: ret split: sum.splits option.splits)
    done
qed

text \<open>
  One provisioning request makes at most two calls to edge boxes, however
  many servers there are: one attempt and one failover.
\<close>

theorem at_most_two_pushes:
  "length (fk_calls (w_edge (snd (run_state (provision fake_client req) w)))) \<le> length (fk_calls (w_edge w)) + 2"
proof -
  have one: "length (fk_calls (snd (apply_peer fake_client s p e))) \<le> Suc (length (fk_calls e))" for s p e
    by (auto simp: fake_apply_peer_def record_call_def set_box_def Let_def split: option.splits)
  from edge_cost_provision [of "\<lambda>e. length (fk_calls e)" fake_client req] one
  have "edge_cost (\<lambda>e. length (fk_calls e)) 2 (provision fake_client req)" by simp
  then show ?thesis by (simp add: edge_cost_def)
qed

section \<open>A failed request takes nothing away\<close>

definition still_wanted :: "db \<Rightarrow> db \<Rightarrow> bool" where
  "still_wanted d d' \<longleftrightarrow>
     (\<forall>p \<in> set (peers d). wanted p \<longrightarrow> (\<exists>q \<in> set (peers d'). p_id q = p_id p \<and> wanted q))"

lemma preorder_still_wanted: "preorder still_wanted"
  by (rule preorderI; unfold still_wanted_def) (blast, metis)

lemma still_wanted_update:
  assumes "\<And>p. c p \<Longrightarrow> p_id (f p) = p_id p \<and> (wanted p \<longrightarrow> wanted (f p))"
  shows "still_wanted d (d\<lparr>peers := update_where c f (peers d)\<rparr>)"
  unfolding still_wanted_def
proof (intro ballI impI)
  fix p assume p: "p \<in> set (peers d)" "wanted p"
  then have "(if c p then f p else p) \<in> set (update_where c f (peers d))"
    by (auto simp: set_update_where)
  moreover have "p_id (if c p then f p else p) = p_id p \<and> wanted (if c p then f p else p)"
    using assms [of p] p by simp
  ultimately show "\<exists>q \<in> set (peers (d\<lparr>peers := update_where c f (peers d)\<rparr>)). p_id q = p_id p \<and> wanted q"
    by auto
qed

lemma still_wanted_ensure: "still_wanted d (snd (ensure_assignment now dev srv key d))"
proof -
  have "still_wanted d (snd (ensure_assignment_tx now dev srv key d))"
    by (auto simp: ensure_assignment_tx_def insert_peer_def Let_def rekey_def wanted_def
        intro!: still_wanted_update split: option.splits sum.splits) (auto simp: still_wanted_def)
  then show ?thesis
    by (cases "ensure_assignment_tx now dev srv key d") (simp add: ensure_assignment_def)
qed

lemma keeps_still_wanted [keeps_intros]:
  "keeps (on_db still_wanted) (store_ensure_assignment dev srv key)"
  "keeps (on_db still_wanted) (store_mark_applied i revn)"
  "keeps (on_db still_wanted) (store_mark_attempt_failed i cause retry_at)"
  "keeps (on_db still_wanted) (store_entitlement uid)"
  "keeps (on_db still_wanted) (store_device_by_id i)"
  "keeps (on_db still_wanted) (store_devices_by_user uid)"
  "keeps (on_db still_wanted) (store_servers b)"
  "keeps (on_db still_wanted) (store_server_by_code c)"
  unfolding store_defs
  by (rule keeps_db_call [OF preorder_still_wanted],
      auto simp: still_wanted_ensure mark_applied_def mark_attempt_failed_def wanted_def
        preorder_still_wanted [unfolded preorder_def] intro!: still_wanted_update)+

lemmas still_wanted_intros = keeps_intros preorder_on_db [OF preorder_still_wanted] preorder_still_wanted

lemma keeps_provision_on_still_wanted: "keeps (on_db still_wanted) (provision_on cl dev srv ent)"
  unfolding provision_on_def record_failure_def by (intro still_wanted_intros)

lemma try_candidates_error:
  "run_state (try_candidates cl dev ent i last_err cands) w = (Inl e, w') \<Longrightarrow> on_db still_wanted w w'"
proof (induction cands arbitrary: i last_err w)
  case (Cons srv rest)
  obtain r w1 where r: "run_state (provision_on cl dev srv ent) w = (r, w1)"
    by (cases "run_state (provision_on cl dev srv ent) w")
  have w1: "on_db still_wanted w w1"
    by (rule keepsD [OF keeps_provision_on_still_wanted r])
  show ?case
  proof (cases "max_inline_attempts \<le> i")
    case False
    then obtain err where err: "r = Inl err"
      using Cons.prems r by (cases r) (auto split: prod.splits)
    show ?thesis
    proof (cases "is_err err ErrRejected")
      case True
      then show ?thesis using Cons.prems False r err w1 by simp
    next
      case nr: False
      then have "on_db still_wanted w1 w'"
        using Cons.prems False r err by (intro Cons.IH) simp
      with w1 show ?thesis
        using preorder_on_db [OF preorder_still_wanted] unfolding preorder_def by blast
    qed
  qed (use Cons.prems preorder_still_wanted in \<open>simp add: on_db_def preorder_def\<close>)
qed (use preorder_still_wanted in \<open>simp add: on_db_def preorder_def\<close>)

text \<open>\<open>err_keeps R m\<close>: every run of \<open>m\<close> that ends in an error is in \<open>R\<close>.\<close>

definition err_keeps :: "('s \<Rightarrow> 's \<Rightarrow> bool) \<Rightarrow> ('s, 'e + 'a) state \<Rightarrow> bool" where
  "err_keeps R m \<longleftrightarrow> (\<forall>s e t. run_state m s = (Inl e, t) \<longrightarrow> R s t)"

lemma err_keeps_of_keeps: "keeps R m \<Longrightarrow> err_keeps R m"
  by (auto simp: err_keeps_def dest: keepsD)

lemma err_keeps_ok [simp]: "err_keeps R (ret (Inr x))"
  by (simp add: err_keeps_def)

lemma err_keeps_bind:
  assumes "preorder R" "keeps R m" "\<And>x. err_keeps R (f x)"
  shows "err_keeps R (State_Monad.bind m f)"
  unfolding err_keeps_def
proof (intro allI impI)
  fix s e t assume run: "run_state (State_Monad.bind m f) s = (Inl e, t)"
  obtain x u where m: "run_state m s = (x, u)" by (cases "run_state m s")
  with run have "run_state (f x) u = (Inl e, t)" by simp
  then have "R u t" using assms(3) unfolding err_keeps_def by blast
  with keepsD [OF assms(2) m] assms(1) show "R s t" unfolding preorder_def by blast
qed

lemma keeps_gate_still_wanted:
  "keeps (on_db still_wanted) (check_device_limit uid dev n)" "keeps (on_db still_wanted) (candidates req)"
  unfolding check_device_limit_def candidates_def Let_def by (intro still_wanted_intros)+

lemma err_keeps_provision: "err_keeps (on_db still_wanted) (provision cl req)"
proof -
  note pre = preorder_on_db [OF preorder_still_wanted]
  have ret: "err_keeps (on_db still_wanted) (ret x)" for x :: "goerr + tunnel_config"
    by (rule err_keeps_of_keeps [OF keeps_ret [OF pre]])
  have tail: "err_keeps (on_db still_wanted) (State_Monad.bind (try_candidates cl dev ent i l cands)
      (\<lambda>rt. case rt of Inl le \<Rightarrow> (case le of None \<Rightarrow> ret (Inl e0) | Some e1 \<Rightarrow> ret (Inl (g e1))) | Inr cfg \<Rightarrow> ret (Inr cfg)))"
    for dev ent i l cands e0 g
    unfolding err_keeps_def
    by (auto split: sum.splits option.splits prod.splits dest: try_candidates_error)
  show ?thesis
    unfolding provision_def
    apply (rule err_keeps_bind [OF pre keeps_still_wanted(4)], simp add: ret split: sum.splits)
    apply (intro allI impI err_keeps_bind [OF pre keeps_still_wanted(5)], simp add: ret split: sum.splits)
    apply (intro allI impI err_keeps_bind [OF pre keeps_gate_still_wanted(1)], simp add: ret split: sum.splits)
    apply (intro allI impI err_keeps_bind [OF pre keeps_gate_still_wanted(2)], simp add: ret split: sum.splits)
    apply (intro allI impI tail)
    done
qed

text \<open>
  C19 (failed_request_keeps_peers). Make before break: a provisioning request that ends in an error,
  for whatever reason, has not asked for the removal of any peer. Every row that was pending or
  active before is still pending or active.
\<close>

theorem failed_request_keeps_peers:
  assumes "run_state (provision cl req) w = (Inl e, w')" and "p \<in> set (peers (w_db w))" and "wanted p"
  shows "\<exists>q \<in> set (peers (w_db w')). p_id q = p_id p \<and> wanted q"
  using err_keeps_provision [of cl req] assms unfolding err_keeps_def on_db_def still_wanted_def by blast

section \<open>A request that succeeds\<close>

lemma ensure_total:
  assumes wf: "wf_peers d" and srv: "find_server_row d srv = Some s" "s_tunnel_subnet s = Cidr4 base bits"
    and net: "network base bits"
    and room: "int (count_where (\<lambda>p. p_server_id p = srv \<and> live p) (peers d)) < max_offset bits - 1"
    and dev: "list_ex (\<lambda>v. d_id v = dev) (devices d)"
  shows "\<exists>a d'. ensure_assignment now dev srv key d = (Inr a, d')"
proof (cases "existing_assignment d dev srv")
  case None
  obtain ip where ip: "allocate_ip d srv (Cidr4 base bits) = Inr ip"
    using allocate_ip_total [OF net room] by blast
  have "\<not> ip_taken d srv ip" using allocate_ip_Inr [OF ip] by blast
  moreover have "\<not> list_ex (\<lambda>p. live p \<and> p_device_id p = dev \<and> p_server_id p = srv) (peers d)"
    using None by (auto simp: existing_assignment_def find_None_set list_ex_iff live_def)
  ultimately show ?thesis
    using None srv ip dev by (simp add: ensure_assignment_Inr ensure_assignment_tx_def insert_peer_def Let_def)
next
  case (Some p)
  then show ?thesis
    using srv by (cases "p_public_key p = key \<and> p_state p \<noteq> PeerRevoking")
      (auto simp: ensure_assignment_Inr ensure_assignment_tx_def)
qed

text \<open>What the database says of a device on a server: the row the request ends with.\<close>

definition installed_row :: "db \<Rightarrow> device \<Rightarrow> uuid \<Rightarrow> peer_row \<Rightarrow> bool" where
  "installed_row d dev srv p \<longleftrightarrow> existing_assignment d (d_id dev) srv = Some p \<and>
     p_state p = PeerActive \<and> p_public_key p = d_public_key dev \<and> p_revision p \<le> p_applied_revision p"

lemma confirmed_row:
  assumes wf: "wf_peers d" and ens: "ensure_assignment now (d_id dev) srv (d_public_key dev) d = (Inr a, d1)"
    and d2: "d2 = (if applied a then d1 else snd (mark_applied now (pa_id a) (pa_revision a) d1))"
  shows "\<exists>p. installed_row d2 dev srv p \<and> p_tunnel_ip p = pa_tunnel_ip a"
proof -
  from ensure_row [OF wf ens] obtain p where p: "p \<in> set (peers d1)" "a = scan_peer p"
    "existing_assignment d1 (d_id dev) srv = Some p" "p_public_key p = d_public_key dev"
    "p_state p = PeerPending \<or> p_state p = PeerActive" by blast
  have "wf_peers d1"
    using wf ens peers_step_ensure [of d now "d_id dev" srv "d_public_key dev"] by (simp add: peers_step_def)
  with p(1) have ok: "row_ok p" by (auto simp: wf_peers_def list_all_iff)
  show ?thesis
  proof (cases "applied a")
    case True
    with p d2 show ?thesis by (auto simp: installed_row_def applied_def scan_peer_def)
  next
    case False
    with p ok have pend: "p_state p = PeerPending" by (auto simp: applied_def scan_peer_def row_ok_def)
    let ?f = "\<lambda>q. q\<lparr>p_state := PeerActive, p_applied_revision := max (p_applied_revision q) (pa_revision a),
               p_prev_public_key := None, p_attempts := 0, p_last_error := None,
               p_activated_at := Some (coalesce (p_activated_at q) now)\<rparr>"
    have "existing_assignment d2 (d_id dev) srv = Some (?f p)"
      using False p(2,3) pend unfolding d2 existing_assignment_def mark_applied_def
      by (simp, subst find_update_where) (auto simp: scan_peer_def)
    with p False show ?thesis by (auto simp: installed_row_def scan_peer_def)
  qed
qed

lemma revoke_others_row:
  assumes "installed_row d dev srv p"
    and "d' = snd (begin_revoke_other_servers now (d_id dev) srv d)"
  shows "installed_row d' dev srv p \<and>
    (\<forall>q \<in> set (peers d'). p_device_id q = d_id dev \<and> wanted q \<longrightarrow> p_server_id q = srv)"
proof
  have "p_server_id p = srv"
    using assms(1) existing_assignment_SomeD by (auto simp: installed_row_def)
  then show "installed_row d' dev srv p"
    using assms unfolding installed_row_def begin_revoke_other_servers_def revoke_where_def existing_assignment_def
    by (simp, subst find_update_where) (auto simp: begin_revoke_def wanted_def)
  show "\<forall>q \<in> set (peers d'). p_device_id q = d_id dev \<and> wanted q \<longrightarrow> p_server_id q = srv"
    unfolding assms(2) begin_revoke_other_servers_def revoke_where_def
    by (auto simp: set_update_where begin_revoke_def wanted_def split: if_splits)
qed

context edge_contract
begin

lemma provision_on_delivers:
  assumes quiet: "w_faults w = []" and up: "up (w_edge w) srv"
    and ens: "ensure_assignment (w_now w) (d_id dev) (s_id srv) (d_public_key dev) (w_db w) = (Inr a, d1)"
    and key: "pa_public_key a = d_public_key dev"
    and trust: "applied a \<Longrightarrow> held (w_edge w) (box srv) (d_public_key dev)"
  shows "\<exists>w'. run_state (provision_on cl dev srv ent) w = (Inr (build_config a srv ent), w') \<and>
    w_faults w' = [] \<and> w_now w' = w_now w \<and> held (w_edge w') (box srv) (d_public_key dev) \<and>
    w_db w' = (if applied a then d1 else snd (mark_applied (w_now w) (pa_id a) (pa_revision a) d1))"
proof (cases "applied a")
  case True
  then show ?thesis
    using quiet ens trust by (simp add: provision_on_def store_ensure_assignment_def)
next
  case False
  let ?p = "edge_peer_of a"
  have ok: "fst (apply_peer cl srv ?p (w_edge w)) = Inr ()" by (rule apply_up [OF up])
  have "held (snd (apply_peer cl srv ?p (w_edge w))) (box srv) (d_public_key dev)"
    using apply_installs [OF up, of ?p] key by (simp add: edge_peer_of_def)
  with False quiet ens ok show ?thesis
    by (simp add: provision_on_def store_ensure_assignment_def store_mark_applied_def mark_applied_def)
qed

end

text \<open>A named server that is active becomes the first candidate.\<close>

lemma candidates_explicit:
  assumes "w_faults w = []" and "trim_space (to_lower (rq_server_code req)) = code"
    and "code \<noteq> []" and "code \<noteq> ''auto''"
    and "find (\<lambda>s. s_code s = code) (servers (w_db w)) = Some row" and "s_status row = ServerActive"
  shows "\<exists>rest. run_state (candidates req) w = (Inr (scan_server (w_db w) row # rest), w)"
  using assms
  by (simp add: candidates_def store_servers_def store_server_by_code_def list_servers_def
      server_by_code_def Let_def scan_server_def server_row.extend_def)

lemma check_device_limit_quiet:
  "w_faults w = [] \<Longrightarrow> within_limit uid dev n (w_db w) \<Longrightarrow>
   run_state (check_device_limit uid dev n) w = (Inr (), w)"
  by (auto simp: check_device_limit_def Let_def store_devices_by_user_def devices_by_user_def
      within_limit_def user_devices_def effective_limit_def split: option.splits if_splits)

text \<open>Past the gate, a quiet request is the candidate loop.\<close>

lemma provision_admissible:
  assumes "w_faults w = []" and "admissible (w_now w) req dev (w_db w)"
    and "run_state (candidates req) w = (Inr cands, w)"
    and "run_state (try_candidates cl dev (entitlement_of (w_now w) (rq_user_id req) (w_db w)) 0 None cands) w
      = (Inr cfg, w')"
  shows "run_state (provision cl req) w = (Inr cfg, w')"
  using assms check_device_limit_quiet [OF assms(1)]
  by (simp add: provision_def store_entitlement_def get_entitlement_def store_device_by_id_def
      device_by_id_def admissible_def)


section \<open>An app that provisions again\<close>

text \<open>
  C20 (relaunch_is_a_read). An app that asks again for the server it is already on gets its
  configuration back and nothing else happens: with its row installed and no wanted row on another
  server, the request makes no edge call and leaves the whole world as it was, whatever the edge
  client does.
\<close>

theorem relaunch_is_a_read:
  assumes "w_faults w = []" and "admissible (w_now w) req dev (w_db w)"
    and "trim_space (to_lower (rq_server_code req)) = s_code row"
    and "s_code row \<noteq> []" and "s_code row \<noteq> ''auto''"
    and "find (\<lambda>s. s_code s = s_code row) (servers (w_db w)) = Some row" and "s_status row = ServerActive"
    and "find_server_row (w_db w) (s_id row) = Some row"
    and "installed_row (w_db w) dev (s_id row) p"
    and "\<And>q. q \<in> set (peers (w_db w)) \<Longrightarrow> p_device_id q = d_id dev \<Longrightarrow> wanted q \<Longrightarrow> p_server_id q = s_id row"
  shows "run_state (provision cl req) w =
    (Inr (build_config (scan_peer p) (scan_server (w_db w) row)
       (entitlement_of (w_now w) (rq_user_id req) (w_db w))), w)"
proof -
  let ?srv = "scan_server (w_db w) row" and ?ent = "entitlement_of (w_now w) (rq_user_id req) (w_db w)"
  have srv [simp]: "s_id ?srv = s_id row"
    by (simp add: scan_server_def server_row.extend_def)
  have ens: "ensure_assignment (w_now w) (d_id dev) (s_id row) (d_public_key dev) (w_db w) = (Inr (scan_peer p), w_db w)"
    using assms(8,9) by (auto simp: ensure_assignment_Inr ensure_assignment_tx_def installed_row_def)
  have app: "applied (scan_peer p)"
    using assms(9) by (simp add: installed_row_def applied_def scan_peer_def)
  have on: "run_state (provision_on cl dev ?srv ?ent) w = (Inr (build_config (scan_peer p) ?srv ?ent), w)"
    using assms(1) ens app by (simp add: provision_on_def store_ensure_assignment_def)
  have "snd (begin_revoke_other_servers (w_now w) (d_id dev) (s_id row) (w_db w)) = w_db w"
    unfolding begin_revoke_other_servers_def revoke_where_def
    by (subst update_where_none) (use assms(10) in auto)
  with on assms(1) have loop: "run_state (try_candidates cl dev ?ent 0 None (?srv # rest)) w =
      (Inr (build_config (scan_peer p) ?srv ?ent), w)" for rest
    by (simp add: max_inline_attempts_def store_begin_revoke_other_servers_def)
  obtain rest where cands: "run_state (candidates req) w = (Inr (?srv # rest), w)"
    using candidates_explicit [OF assms(1,3-7)] by blast
  show ?thesis by (rule provision_admissible [OF assms(1,2) cands loop])
qed

text \<open>
  The automatic choice is not stable: the device's own peer counts against
  the capacity of the server it is on. With a box that has room for one peer, the first automatic
  request lands on it and the second, identical one is sent to another server.
\<close>

theorem auto_request_moves:
  "let w0 = demo_world [mk_server 10 ''uk-lon-1'' ''GB'' 10 1, fra];
       (r1, w1) = run_state (provision fake_client (demo_request ''auto'')) w0;
       (r2, w2) = run_state (provision fake_client (demo_request ''auto'')) w1
   in map_sum id tc_server_code r1 = Inr ''uk-lon-1'' \<and> map_sum id tc_server_code r2 = Inr ''de-fra-1''"
  by code_simp

text \<open>
  A confirmed removal puts the address straight back into circulation:
  if every lower host address is held, the very next allocation on that server hands out the
  address of the row just revoked.
\<close>

theorem revoked_address_returns:
  assumes wf: "wf_peers d" and p: "p \<in> set (peers d)" "p_state p = PeerRevoking" "p_revision p \<le> revn"
    and net: "network base bits" and g: "2 \<le> g" "g \<le> max_offset bits" "p_tunnel_ip p = host_addr base g"
    and low: "\<And>k. 2 \<le> k \<Longrightarrow> k < g \<Longrightarrow> ip_taken d (p_server_id p) (host_addr base k)"
  shows "allocate_ip (snd (mark_revoked now (p_id p) revn d)) (p_server_id p) (Cidr4 base bits) = Inr (p_tunnel_ip p)"
proof -
  let ?d = "snd (mark_revoked now (p_id p) revn d)"
  let ?c = "\<lambda>q. p_id q = p_id p \<and> p_state q = PeerRevoking \<and> p_revision q \<le> revn"
  have only: "q = p" if "q \<in> set (peers d)" "p_id q = p_id p" for q
    using unique_id [OF wf that(1) p(1) that(2)] .
  have same_ip: "q = p" if "q \<in> set (peers d)" "live q" "p_server_id q = p_server_id p" "p_tunnel_ip q = p_tunnel_ip p" for q
    by (rule index_unique [of "\<lambda>p. (p_server_id p, p_tunnel_ip p)" live "peers d"])
      (use wf that p in \<open>simp_all add: wf_peers_def live_def\<close>)
  have keep: "q \<in> set (peers ?d)" if "q \<in> set (peers d)" "\<not> ?c q" for q
    using that by (force simp: mark_revoked_def set_update_where)
  have free: "\<not> ip_taken ?d (p_server_id p) (p_tunnel_ip p)"
    using same_ip p by (auto simp: ip_taken_def list_ex_iff mark_revoked_def set_update_where live_def split: if_splits)
  have "ip_taken ?d (p_server_id p) (host_addr base k)" if k: "2 \<le> k" "k < g" for k
  proof -
    obtain q where q: "q \<in> set (peers d)" "p_server_id q = p_server_id p" "live q" "p_tunnel_ip q = host_addr base k"
      using low [OF k] by (auto simp: ip_taken_def list_ex_iff)
    have "uint (host_addr base k) \<noteq> uint (host_addr base g)"
      using uint_host_addr [OF net, of k] uint_host_addr [OF net, of g] k g by simp
    then have "q \<noteq> p" using q g by auto
    then have "\<not> ?c q" using only [OF q(1)] by auto
    from keep [OF q(1) this] q show ?thesis by (auto simp: ip_taken_def list_ex_iff)
  qed
  then have "find_free (\<lambda>k. ip_taken ?d (p_server_id p) (host_addr base k)) 2 (max_offset bits) = Some g"
    by (intro find_free_first) (use free g in auto)
  with g show ?thesis by (simp add: allocate_ip_def)
qed

end
