(* ===== verification/ReconcilerLaws.thy ===== *)
theory ReconcilerLaws
  imports Reconciler PeerLaws Fixtures
begin

text \<open>
  What the reconciler achieves on a quiet run against reachable boxes: one worker settles its row, a
  batch settles every row in it, a pass takes the peers of a lapsed user off their boxes, a resync
  makes a box hold exactly the wanted keys. The edge is used through its contract only; the
  properties are read off for the in-memory fake.
\<close>

section \<open>Rows by identifier\<close>

definition row_at :: "db \<Rightarrow> uuid \<Rightarrow> peer_row option" where
  "row_at d i = find (\<lambda>p. p_id p = i) (peers d)"

lemma row_at_update_where:
  "(\<And>x. c x \<Longrightarrow> p_id (f x) = p_id x) \<Longrightarrow>
   row_at (d\<lparr>peers := update_where c f (peers d)\<rparr>) j = map_option (\<lambda>x. if c x then f x else x) (row_at d j)"
  unfolding row_at_def by (simp, subst find_update_where) auto

lemma row_at_member: "row_at d i = Some p \<Longrightarrow> p \<in> set (peers d) \<and> p_id p = i"
  unfolding row_at_def by (drule find_Some_iff_set) simp

lemma row_at_wf: "wf_peers d \<Longrightarrow> p \<in> set (peers d) \<Longrightarrow> row_at d (p_id p) = Some p"
  unfolding row_at_def by (rule find_unique) (auto intro: unique_id)

lemma row_at_other [simp]:
  "j \<noteq> i \<Longrightarrow> map_option (\<lambda>x. if p_id x = i \<and> c x then f x else x) (row_at d j) = row_at d j"
  by (cases "row_at d j") (auto dest: row_at_member)

section \<open>One worker\<close>

definition settled ::
  "('e \<Rightarrow> 'b \<Rightarrow> string \<Rightarrow> bool) \<Rightarrow> (server \<Rightarrow> 'b) \<Rightarrow> 'e world \<Rightarrow> peer_assignment \<times> server \<Rightarrow> bool" where
  "settled held box w item = (case item of (a, s) \<Rightarrow>
     (\<exists>p. row_at (w_db w) (pa_id a) = Some p \<and> p_public_key p = pa_public_key a \<and> p_tunnel_ip p = pa_tunnel_ip a \<and>
        p_state p = (if pa_state a = PeerPending then PeerActive else PeerRevoked)) \<and>
     (held (w_edge w) (box s) (pa_public_key a) \<longleftrightarrow> pa_state a = PeerPending))"

definition touches :: "(server \<Rightarrow> 'b) \<Rightarrow> peer_assignment \<times> server \<Rightarrow> 'b \<Rightarrow> string \<Rightarrow> bool" where
  "touches box item b k = (case item of (a, s) \<Rightarrow> b = box s \<and>
     (k = pa_public_key a \<or> (pa_state a = PeerPending \<and> pa_prev_public_key a \<noteq> [] \<and> k = pa_prev_public_key a)))"

text \<open>The item was read from the table as it is now, and there is work to do for it.\<close>

definition current :: "db \<Rightarrow> peer_assignment \<times> server \<Rightarrow> bool" where
  "current d item = (case item of (a, s) \<Rightarrow>
     (\<exists>p. row_at d (pa_id a) = Some p \<and> scan_peer p = a) \<and> (pa_state a = PeerPending \<or> pa_state a = PeerRevoking))"

abbreviation item_id :: "peer_assignment \<times> server \<Rightarrow> uuid" where
  "item_id item \<equiv> pa_id (fst item)"

definition frame ::
  "('e \<Rightarrow> 'b \<Rightarrow> string \<Rightarrow> bool) \<Rightarrow> (server \<Rightarrow> 'b) \<Rightarrow> ('e \<Rightarrow> server \<Rightarrow> bool) \<Rightarrow>
   (peer_assignment \<times> server) set \<Rightarrow> 'e world \<Rightarrow> 'e world \<Rightarrow> bool" where
  "frame held box up items w w' \<longleftrightarrow>
     w_faults w' = [] \<and> w_now w' = w_now w \<and> up (w_edge w') = up (w_edge w) \<and>
     (\<forall>j. j \<notin> item_id ` items \<longrightarrow> row_at (w_db w') j = row_at (w_db w) j) \<and>
     (\<forall>b k. (\<forall>i \<in> items. \<not> touches box i b k) \<longrightarrow> held (w_edge w') b k = held (w_edge w) b k)"

definition keys_apart :: "(server \<Rightarrow> 'b) \<Rightarrow> (peer_assignment \<times> server) set \<Rightarrow> bool" where
  "keys_apart box items \<longleftrightarrow>
     (\<forall>(a, s) \<in> items. \<forall>i \<in> items. item_id i \<noteq> pa_id a \<longrightarrow> \<not> touches box i (box s) (pa_public_key a))"

lemma frame_refl: "w_faults w = [] \<Longrightarrow> frame held box up {} w w"
  by (simp add: frame_def)

lemma frame_trans:
  assumes "frame held box up I w w1" and "frame held box up J w1 w2"
  shows "frame held box up (I \<union> J) w w2"
  using assms unfolding frame_def by (simp add: image_Un ball_Un)

lemma settled_frame:
  assumes "settled held box w i" and "frame held box up J w w'" and "item_id i \<notin> item_id ` J"
    and "\<And>j. j \<in> J \<Longrightarrow> \<not> touches box j (box (snd i)) (pa_public_key (fst i))"
  shows "settled held box w' i"
  using assms unfolding settled_def frame_def by (cases i) simp

lemma current_frame:
  "current (w_db w) i \<Longrightarrow> frame held box up J w w' \<Longrightarrow> item_id i \<notin> item_id ` J \<Longrightarrow> current (w_db w') i"
  unfolding current_def frame_def by (cases i) simp

context edge_contract
begin

lemma apply_one_settles:
  assumes quiet: "w_faults w = []" and up: "up (w_edge w) s" and cur: "current (w_db w) (a, s)"
  shows "\<exists>w'. run_state (apply_one cl a s) w = ((), w') \<and> settled held box w' (a, s) \<and>
    frame held box up {(a, s)} w w'"
proof -
  obtain p where p: "row_at (w_db w) (pa_id a) = Some p" "scan_peer p = a"
    and st: "pa_state a = PeerPending \<or> pa_state a = PeerRevoking"
    using cur by (auto simp: current_def)
  have a: "p_id p = pa_id a" "p_public_key p = pa_public_key a" "p_state p = pa_state a" "p_revision p = pa_revision a"
    "p_tunnel_ip p = pa_tunnel_ip a"
    unfolding p(2) [symmetric] by (simp_all add: scan_peer_def)
  from st show ?thesis
  proof
    assume s: "pa_state a = PeerPending"
    have ok: "fst (apply_peer cl s (edge_peer_of a) (w_edge w)) = Inr ()" by (rule apply_up [OF up])
    have held': "held (snd (apply_peer cl s (edge_peer_of a) (w_edge w))) b k \<longleftrightarrow>
        (if b = box s then k = pa_public_key a \<or> (held (w_edge w) b k \<and> \<not> (pa_prev_public_key a \<noteq> [] \<and> k = pa_prev_public_key a))
         else held (w_edge w) b k)" for b k
      by (subst apply_held [OF ok]) (simp add: edge_peer_of_def)
    show ?thesis
      using quiet s ok p(1) a
      by (auto simp: apply_one_def push_row_def confirm_row_def store_mark_applied_def mark_applied_def
          settled_def frame_def touches_def held' row_at_update_where apply_up_frame dest: row_at_member)
  next
    assume s: "pa_state a = PeerRevoking"
    have ok: "fst (remove_peer cl s (pa_public_key a) (w_edge w)) = Inr ()" by (rule remove_up [OF up])
    have held': "held (snd (remove_peer cl s (pa_public_key a) (w_edge w))) b k \<longleftrightarrow>
        held (w_edge w) b k \<and> \<not> (b = box s \<and> k = pa_public_key a)" for b k
      by (rule remove_held [OF ok])
    show ?thesis
      using quiet s ok p(1) a
      by (auto simp: apply_one_def push_row_def confirm_row_def store_mark_revoked_def mark_revoked_def
          settled_def frame_def touches_def held' row_at_update_where remove_up_frame dest: row_at_member)
  qed
qed

lemma pass_settles:
  assumes "w_faults w = []" and "\<And>i. i \<in> set batch \<Longrightarrow> up (w_edge w) (snd i)"
    and "\<And>i. i \<in> set batch \<Longrightarrow> current (w_db w) i"
    and "distinct (map item_id batch)" and "keys_apart box (set batch)"
  shows "\<exists>w'. run_state (for_each batch (\<lambda>(a, srv). apply_one cl a srv)) w = ((), w') \<and>
    (\<forall>i \<in> set batch. settled held box w' i) \<and> frame held box up (set batch) w w'"
  using assms
proof (induction batch arbitrary: w)
  case Nil
  then show ?case by (simp add: frame_refl)
next
  case (Cons i rest)
  obtain a s where i: "i = (a, s)" by (cases i)
  obtain w1 where w1: "run_state (apply_one cl a s) w = ((), w1)" "settled held box w1 i" "frame held box up {i} w w1"
    using apply_one_settles [of w s a] Cons.prems(1-3) i by fastforce
  have out: "item_id j \<notin> item_id ` {i}" if "j \<in> set rest" for j
    using Cons.prems(4) that by (auto intro: rev_image_eqI)
  have up1: "w_faults w1 = []" "up (w_edge w1) = up (w_edge w)" using w1(3) by (simp_all add: frame_def)
  obtain w2 where w2: "run_state (for_each rest (\<lambda>(a, srv). apply_one cl a srv)) w1 = ((), w2)"
      "\<forall>i \<in> set rest. settled held box w2 i" "frame held box up (set rest) w1 w2"
  proof -
    have "keys_apart box (set rest)" using Cons.prems(5) by (auto simp: keys_apart_def)
    moreover have "current (w_db w1) j" if "j \<in> set rest" for j
      using current_frame [OF Cons.prems(3) w1(3) out [OF that]] that by simp
    ultimately show thesis
      using Cons.IH [of w1] Cons.prems(2,4) up1 that by auto
  qed
  have "settled held box w2 i"
  proof (rule settled_frame [OF w1(2) w2(3)])
    show "item_id i \<notin> item_id ` set rest" using Cons.prems(4) by auto
    show "\<not> touches box j (box (snd i)) (pa_public_key (fst i))" if "j \<in> set rest" for j
      using Cons.prems(5) out [OF that] that i unfolding keys_apart_def by force
  qed
  with w1(1) w2 i frame_trans [OF w1(3) w2(3)] show ?case by simp
qed

end

section \<open>The batch\<close>

lemma distinct_map_filter:
  "distinct (map g xs) \<Longrightarrow> (\<And>x y. f x = Some y \<Longrightarrow> h y = g x) \<Longrightarrow> distinct (map h (List.map_filter f xs))"
proof (induction xs)
  case (Cons x xs)
  then show ?case
    by (cases "f x") (force simp: List.map_filter_def split: option.splits)+
qed (simp add: List.map_filter_def)

lemma set_map_filter: "y \<in> set (List.map_filter f xs) \<longleftrightarrow> (\<exists>x \<in> set xs. f x = Some y)"
  by (force simp: List.map_filter_def)

lemma due_batch:
  assumes "wf_peers d" and "due_assignments now n d = (Inr batch, d')"
  shows "d' = d" and "distinct (map item_id batch)" and "\<And>i. i \<in> set batch \<Longrightarrow> current d i"
    and "\<And>a s. (a, s) \<in> set batch \<Longrightarrow> \<exists>p r. p \<in> set (peers d) \<and> due now p \<and> a = scan_peer p \<and>
      find_server_row d (p_server_id p) = Some r \<and> s = scan_server d r"
proof -
  let ?f = "\<lambda>p. map_option (\<lambda>s. (scan_peer p, scan_server d s)) (find_server_row d (p_server_id p))"
  let ?rows = "sort_key p_next_attempt_at (filter (due now) (peers d))"
  have b: "batch = take n (List.map_filter ?f ?rows)" and "d' = d"
    using assms(2) by (auto simp: due_assignments_def)
  then show "d' = d" by simp
  have "distinct (map p_id (filter (due now) (peers d)))"
    using assms(1) by (auto simp: wf_peers_def distinct_map inj_on_def)
  then have "distinct (map p_id ?rows)"
    by (simp add: distinct_map)
  then have "distinct (map item_id (List.map_filter ?f ?rows))"
    by (rule distinct_map_filter) (auto simp: scan_peer_def)
  then show "distinct (map item_id batch)" unfolding b by (simp add: take_map [symmetric])
  show mem: "\<exists>p r. p \<in> set (peers d) \<and> due now p \<and> a = scan_peer p \<and>
      find_server_row d (p_server_id p) = Some r \<and> s = scan_server d r" if "(a, s) \<in> set batch" for a s
  proof -
    from that have "(a, s) \<in> set (List.map_filter ?f ?rows)" unfolding b by (rule in_set_takeD)
    then obtain p where "p \<in> set ?rows" "?f p = Some (a, s)" by (auto simp: set_map_filter)
    then show ?thesis by auto
  qed
  show "current d i" if i: "i \<in> set batch" for i
  proof -
    obtain a s where "i = (a, s)" by (cases i)
    with i mem obtain p where "p \<in> set (peers d)" "due now p" "a = scan_peer p" by blast
    then show ?thesis
      using row_at_wf [OF assms(1)] \<open>i = (a, s)\<close> by (auto simp: current_def scan_peer_def due_def)
  qed
qed

section \<open>The sweep\<close>

lemma update_where_twice:
  assumes "\<And>x. a x \<Longrightarrow> \<not> b (f x)"
  shows "update_where b f (update_where a f rs) = update_where (\<lambda>x. a x \<or> b x) f rs"
  using assms by (induction rs) auto

definition swept :: "time \<Rightarrow> uuid set \<Rightarrow> db \<Rightarrow> db" where
  "swept now ids d = d\<lparr>peers := update_where (\<lambda>p. (\<exists>i \<in> ids. owned_by d i p) \<and> wanted p) (begin_revoke now) (peers d)\<rparr>"

lemma swept_step:
  "snd (begin_revoke_for_user now i (swept now ids d)) = swept now (insert i ids) d"
proof -
  have own: "owned_by (swept now ids d) i = owned_by d i" by (simp add: swept_def owned_by_def fun_eq_iff)
  have "\<not> wanted (begin_revoke now p)" for p by (simp add: wanted_def begin_revoke_def)
  then show ?thesis
    unfolding begin_revoke_for_user_def revoke_where_def own
    unfolding swept_def snd_conv
    by (simp add: update_where_twice) (rule arg_cong [where f = "\<lambda>x. d\<lparr>peers := x\<rparr>"],
        rule arg_cong [where f = "\<lambda>c. update_where c (begin_revoke now) (peers d)"], auto)
qed

lemma run_sweep_loop:
  "w_faults w = [] \<Longrightarrow> w_db w = swept (w_now w) ids d \<Longrightarrow>
   run_state (for_each us (\<lambda>i. State_Monad.bind (store_begin_revoke_for_user i) (\<lambda>_. ret ()))) w =
     ((), w\<lparr>w_db := swept (w_now w) (set us \<union> ids) d\<rparr>)"
proof (induction us arbitrary: ids w)
  case (Cons u us)
  have "run_state (for_each us (\<lambda>i. State_Monad.bind (store_begin_revoke_for_user i) (\<lambda>_. ret ())))
      (w\<lparr>w_db := swept (w_now w) (insert u ids) d\<rparr>) = ((), w\<lparr>w_db := swept (w_now w) (set us \<union> insert u ids) d\<rparr>)"
    using Cons.IH [of "w\<lparr>w_db := swept (w_now w) (insert u ids) d\<rparr>" "insert u ids"] Cons.prems by simp
  then show ?case
    using Cons.prems by (simp add: store_begin_revoke_for_user_def swept_step)
qed simp

lemma run_sweep_expired:
  assumes "w_faults w = []" and "expired_user_ids (w_now w) (rc_expiry_batch rc) (w_db w) = (Inr ids, w_db w)"
  shows "run_state (sweep_expired rc) w = (Inr (), w\<lparr>w_db := swept (w_now w) (set ids) (w_db w)\<rparr>)"
proof -
  have "swept (w_now w) {} (w_db w) = w_db w" by (simp add: swept_def update_where_none)
  then show ?thesis
    using assms run_sweep_loop [of w "{}" "w_db w" ids]
    by (simp add: sweep_expired_def store_expired_user_ids_def)
qed

lemma expired_ids_complete:
  assumes "length (devices d) \<le> n" and "p \<in> set (peers d)" and "wanted p" and "owned_by d uid p"
    and "\<not> covered now uid d"
  shows "\<exists>ids. expired_user_ids now n d = (Inr ids, d) \<and> uid \<in> set ids"
proof -
  let ?us = "[d_user_id v. p \<leftarrow> filter wanted (peers d),
       v \<leftarrow> filter (\<lambda>v. d_id v = p_device_id p \<and> \<not> covered now (d_user_id v) d) (devices d)]"
  have "set ?us \<subseteq> set (map d_user_id (devices d))" by auto
  then have "card (set ?us) \<le> length (devices d)"
    using card_mono [of "set (map d_user_id (devices d))" "set ?us"] card_length [of "map d_user_id (devices d)"] by simp
  then have "length (remdups ?us) \<le> n" using assms(1) by (simp add: length_remdups_card_conv)
  then have "expired_user_ids now n d = (Inr (remdups ?us), d)" by (simp add: expired_user_ids_def)
  moreover have "uid \<in> set ?us"
    using assms(2-5) by (auto simp: owned_by_def list_ex_iff)
  ultimately show ?thesis by auto
qed

lemma swept_row:
  assumes "p \<in> set (peers d)" "wanted p" "owned_by d uid p" "uid \<in> ids"
  shows "begin_revoke now p \<in> set (peers (swept now ids d))"
  using assms by (force simp: swept_def set_update_where)

lemma peers_step_swept: "peers_step d (swept now ids d)"
  unfolding swept_def by (rule peers_step_update) (auto simp: row_evolves_begin_revoke row_ok_begin_revoke)

section \<open>A whole pass\<close>

text \<open>Live rows of one server that belong to different devices carry different keys.\<close>

definition keys_separate :: "db \<Rightarrow> bool" where
  "keys_separate d \<longleftrightarrow> distinct (map s_code (servers d)) \<and>
     (\<forall>p \<in> set (peers d). \<forall>q \<in> set (peers d). live p \<and> live q \<and> p_id p \<noteq> p_id q \<and> p_server_id p = p_server_id q \<longrightarrow>
        p_public_key q \<noteq> p_public_key p \<and> p_prev_public_key q \<noteq> Some (p_public_key p))"

lemma scan_server_simps [simp]:
  "s_id (scan_server d r) = s_id r" "s_code (scan_server d r) = s_code r" "s_status (scan_server d r) = s_status r"
  "s_live_peers (scan_server d r) = int (live_peer_count d (s_id r))"
  by (simp_all add: scan_server_def server_row.extend_def)

lemma server_of_code:
  assumes "distinct (map s_code (servers d))" "find_server_row d i = Some r" "find_server_row d j = Some r'"
    and "s_code r = s_code r'"
  shows "i = j"
proof -
  have "r \<in> set (servers d) \<and> s_id r = i" "r' \<in> set (servers d) \<and> s_id r' = j"
    using assms(2,3) by (auto simp: find_server_row_def dest: find_Some_iff_set)
  with assms(1,4) show ?thesis by (auto simp: distinct_map dest: inj_onD)
qed

lemma keys_apart_batch:
  assumes wf: "wf_peers d" and sep: "keys_separate d" and b: "due_assignments now n d = (Inr batch, d')"
  shows "keys_apart s_code (set batch)"
proof -
  have "\<not> touches s_code (a', s') (s_code s) (pa_public_key a)"
    if as: "(a, s) \<in> set batch" and as': "(a', s') \<in> set batch" and ne: "pa_id a' \<noteq> pa_id a" for a s a' s'
  proof
    assume t: "touches s_code (a', s') (s_code s) (pa_public_key a)"
    obtain p r where p: "p \<in> set (peers d)" "due now p" "a = scan_peer p"
      "find_server_row d (p_server_id p) = Some r" "s = scan_server d r"
      using due_batch(4) [OF wf b as] by blast
    obtain q r' where q: "q \<in> set (peers d)" "due now q" "a' = scan_peer q"
      "find_server_row d (p_server_id q) = Some r'" "s' = scan_server d r'"
      using due_batch(4) [OF wf b as'] by blast
    have "s_code r' = s_code r" using t p q by (auto simp: touches_def)
    with server_of_code [of d] sep p(4) q(4) have "p_server_id q = p_server_id p" by (metis keys_separate_def)
    moreover have "live p" "live q" using p(2) q(2) by (auto simp: live_def due_def)
    ultimately have "p_public_key q \<noteq> p_public_key p \<and> p_prev_public_key q \<noteq> Some (p_public_key p)"
      using sep p(1,3) q(1,3) ne unfolding keys_separate_def by (simp add: scan_peer_def)
    with t p(3) q(3) show False
      by (cases "p_prev_public_key q") (auto simp: touches_def scan_peer_def)
  qed
  then show ?thesis unfolding keys_apart_def by auto
qed

lemma keys_separate_swept: "keys_separate d \<Longrightarrow> keys_separate (swept now ids d)"
proof -
  assume sep: "keys_separate d"
  have orig: "\<exists>p0 \<in> set (peers d). p_id p = p_id p0 \<and> p_server_id p = p_server_id p0 \<and> p_public_key p = p_public_key p0 \<and>
      p_prev_public_key p = p_prev_public_key p0 \<and> (live p \<longrightarrow> live p0)" if "p \<in> set (peers (swept now ids d))" for p
    using that by (auto simp: swept_def set_update_where begin_revoke_def live_def wanted_def split: if_splits)
  show ?thesis
    unfolding keys_separate_def
  proof (intro conjI ballI impI)
    show "distinct (map s_code (servers (swept now ids d)))"
      using sep by (simp add: keys_separate_def swept_def)
    fix p q assume "p \<in> set (peers (swept now ids d))" "q \<in> set (peers (swept now ids d))"
      and h: "live p \<and> live q \<and> p_id p \<noteq> p_id q \<and> p_server_id p = p_server_id q"
    then obtain p0 q0 where "p0 \<in> set (peers d)" "q0 \<in> set (peers d)"
      "p_id p = p_id p0" "p_server_id p = p_server_id p0" "p_public_key p = p_public_key p0"
      "p_id q = p_id q0" "p_server_id q = p_server_id q0" "p_public_key q = p_public_key q0"
      "p_prev_public_key q = p_prev_public_key q0" "live p0" "live q0"
      using orig by metis
    with sep h show "p_public_key q \<noteq> p_public_key p" "p_prev_public_key q \<noteq> Some (p_public_key p)"
      unfolding keys_separate_def by metis+
  qed
qed

lemma due_batch_all:
  assumes "length (peers d) \<le> n" and "p \<in> set (peers d)" and "due now p" and "find_server_row d (p_server_id p) = Some r"
    and "due_assignments now n d = (Inr batch, d')"
  shows "(scan_peer p, scan_server d r) \<in> set batch"
proof -
  let ?f = "\<lambda>p. map_option (\<lambda>s. (scan_peer p, scan_server d s)) (find_server_row d (p_server_id p))"
  let ?rows = "sort_key p_next_attempt_at (filter (due now) (peers d))"
  have "length (List.map_filter ?f ?rows) \<le> length ?rows"
    unfolding List.map_filter_def by (simp only: length_map length_filter_le)
  also have "length ?rows \<le> length (peers d)" by simp
  finally have "length (List.map_filter ?f ?rows) \<le> n" using assms(1) by simp
  then have "batch = List.map_filter ?f ?rows"
    using assms(5) by (auto simp: due_assignments_def)
  moreover have "?f p = Some (scan_peer p, scan_server d r)" using assms(4) by simp
  ultimately show ?thesis using assms(2,3) by (auto simp: set_map_filter)
qed

context edge_contract
begin

lemma apply_due_settles:
  assumes "w_faults w = []" and wf: "wf_peers (w_db w)"
    and b: "due_assignments (w_now w) (rc_batch_size rc) (w_db w) = (Inr batch, w_db w)"
    and "\<And>s. up (w_edge w) s" and "keys_apart box (set batch)"
  shows "\<exists>w'. run_state (apply_due cl rc) w = (Inr (), w') \<and>
    (\<forall>i \<in> set batch. settled held box w' i) \<and> frame held box up (set batch) w w'"
proof -
  obtain w' where "run_state (for_each batch (\<lambda>(a, srv). apply_one cl a srv)) w = ((), w')"
    "\<forall>i \<in> set batch. settled held box w' i" "frame held box up (set batch) w w'"
    using pass_settles [OF assms(1) _ due_batch(3) [OF wf b] due_batch(2) [OF wf b] assms(5)] assms(4) by blast
  with assms(1) b show ?thesis
    by (simp add: apply_due_def store_due_assignments_def)
qed

end



section \<open>Rebuilt boxes\<close>

text \<open>Confirming a list of rows in turn.\<close>

lemma row_at_mark_applied:
  "row_at (snd (mark_applied now i revn d)) j = map_option
     (\<lambda>p. if p_id p = i \<and> p_state p = PeerPending \<and> p_revision p \<le> revn
          then p\<lparr>p_state := PeerActive, p_applied_revision := max (p_applied_revision p) revn,
                 p_prev_public_key := None, p_attempts := 0, p_last_error := None,
                 p_activated_at := Some (coalesce (p_activated_at p) now)\<rparr> else p) (row_at d j)"
  unfolding mark_applied_def snd_conv by (rule row_at_update_where) simp

definition confirmed_by :: "db \<Rightarrow> peer_assignment list \<Rightarrow> uuid \<Rightarrow> bool" where
  "confirmed_by d as j \<longleftrightarrow> (\<exists>q. row_at d j = Some q \<and> (p_state q = PeerActive \<or>
     (p_state q = PeerPending \<and> (\<exists>a \<in> set as. pa_id a = j \<and> pa_revision a = p_revision q))))"

lemma confirm_loop:
  "w_faults w = [] \<Longrightarrow>
   \<exists>w'. run_state (for_each as (\<lambda>a. State_Monad.bind (store_mark_applied (pa_id a) (pa_revision a)) (\<lambda>_. ret ()))) w = ((), w') \<and>
     w_edge w' = w_edge w \<and> w_faults w' = [] \<and>
     (\<forall>j. confirmed_by (w_db w) as j \<longrightarrow> confirmed_by (w_db w') [] j)"
proof (induction as arbitrary: w)
  case (Cons a as)
  let ?d = "snd (mark_applied (w_now w) (pa_id a) (pa_revision a) (w_db w))"
  have step: "confirmed_by ?d as j" if c: "confirmed_by (w_db w) (a # as) j" for j
  proof -
    obtain q where q: "row_at (w_db w) j = Some q" and st: "p_state q = PeerActive \<or>
        (p_state q = PeerPending \<and> (\<exists>b \<in> set (a # as). pa_id b = j \<and> pa_revision b = p_revision q))"
      using c unfolding confirmed_by_def by blast
    have "p_id q = j" using row_at_member [OF q] by simp
    with q st show ?thesis
      by (cases "p_id q = pa_id a \<and> p_state q = PeerPending \<and> p_revision q \<le> pa_revision a")
        (auto simp: confirmed_by_def row_at_mark_applied)
  qed
  obtain w' where "run_state (for_each as (\<lambda>a. State_Monad.bind (store_mark_applied (pa_id a) (pa_revision a)) (\<lambda>_. ret ())))
      (w\<lparr>w_db := ?d\<rparr>) = ((), w')" "w_edge w' = w_edge w" "w_faults w' = []"
      "\<forall>j. confirmed_by ?d as j \<longrightarrow> confirmed_by (w_db w') [] j"
    using Cons.IH [of "w\<lparr>w_db := ?d\<rparr>"] Cons.prems by auto
  with Cons.prems step show ?case
    by (simp add: store_mark_applied_def)
qed simp

text \<open>The keys the database wants on a server.\<close>

definition wanted_keys :: "db \<Rightarrow> uuid \<Rightarrow> string set" where
  "wanted_keys d srv = p_public_key ` {p \<in> set (peers d). p_server_id p = srv \<and> wanted p}"

context edge_contract
begin

lemma resync_restores:
  assumes quiet: "w_faults w = []" and wf: "wf_peers (w_db w)" and up: "up (w_edge w) s"
  shows "\<exists>w'. run_state (resync cl s) w = (Inr (), w') \<and>
    (\<forall>k. held (w_edge w') (box s) k \<longleftrightarrow> k \<in> wanted_keys (w_db w) (s_id s)) \<and>
    (\<forall>b k. b \<noteq> box s \<longrightarrow> held (w_edge w') b k = held (w_edge w) b k) \<and>
    (\<forall>p \<in> set (peers (w_db w)). p_server_id p = s_id s \<and> wanted p \<longrightarrow> confirmed_by (w_db w') [] (p_id p))"
proof -
  let ?rows = "sort_key (\<lambda>p. uint (p_tunnel_ip p)) (filter (\<lambda>p. p_server_id p = s_id s \<and> wanted p) (peers (w_db w)))"
  let ?ps = "map resync_peer (map scan_peer ?rows)"
  let ?w1 = "w\<lparr>w_edge := snd (sync_peers cl s ?ps (w_edge w))\<rparr>"
  have ok: "fst (sync_peers cl s ?ps (w_edge w)) = Inr ()" by (rule sync_up [OF up])
  have keys: "ep_public_key ` set ?ps = wanted_keys (w_db w) (s_id s)"
    by (auto simp: wanted_keys_def resync_peer_def scan_peer_def image_iff)
  obtain w' where w': "run_state (for_each (filter (\<lambda>a. pa_state a = PeerPending) (map scan_peer ?rows))
      (\<lambda>a. State_Monad.bind (store_mark_applied (pa_id a) (pa_revision a)) (\<lambda>_. ret ()))) ?w1 = ((), w')"
      "w_edge w' = w_edge ?w1"
      "\<forall>j. confirmed_by (w_db ?w1) (filter (\<lambda>a. pa_state a = PeerPending) (map scan_peer ?rows)) j \<longrightarrow>
           confirmed_by (w_db w') [] j"
    using confirm_loop [of ?w1] quiet by auto
  have "confirmed_by (w_db w') [] (p_id p)"
    if p: "p \<in> set (peers (w_db w))" "p_server_id p = s_id s" "wanted p" for p
  proof -
    have "confirmed_by (w_db ?w1) (filter (\<lambda>a. pa_state a = PeerPending) (map scan_peer ?rows)) (p_id p)"
      using row_at_wf [OF wf p(1)] p by (auto simp: confirmed_by_def wanted_def scan_peer_def)
    with w'(3) show ?thesis by blast
  qed
  moreover have "run_state (resync cl s) w = (Inr (), w')"
    using quiet ok w'(1) by (simp add: resync_def store_live_peers_for_server_def live_peers_for_server_def)
  ultimately show ?thesis
    using w'(2) sync_held [OF ok] keys by (intro exI [of _ w']) auto
qed

end

text \<open>
  C21 (resync_exact). Resync makes a reachable box hold exactly the keys the database wants on it,
  no more and no fewer, touches no other box, and confirms every pending row it pushed: afterwards
  every wanted row of the server is active.
\<close>

theorem resync_exact:
  fixes w :: "fake world"
  assumes "w_faults w = []" and "wf_peers (w_db w)" and "fake_up (w_edge w) s"
  shows "\<exists>w'. run_state (resync fake_client s) w = (Inr (), w') \<and>
    (\<forall>k. fake_has_peer (w_edge w') (s_code s) k \<longleftrightarrow> k \<in> wanted_keys (w_db w) (s_id s)) \<and>
    (\<forall>b k. b \<noteq> s_code s \<longrightarrow> fake_has_peer (w_edge w') b k = fake_has_peer (w_edge w) b k) \<and>
    (\<forall>p \<in> set (peers (w_db w)). p_server_id p = s_id s \<and> wanted p \<longrightarrow>
       (\<exists>q. row_at (w_db w') (p_id p) = Some q \<and> p_state q = PeerActive))"
  using fake.resync_restores [OF assms] by (auto simp: confirmed_by_def)

section \<open>Where the promises stop\<close>

definition unreachable :: "fake world \<Rightarrow> fake world" where
  "unreachable w = w\<lparr>w_edge := (w_edge w)\<lparr>fk_fail_with := Some (Sentinel ErrUnreachable)\<rparr>\<rparr>"

definition reachable_again :: "fake world \<Rightarrow> fake world" where
  "reachable_again w = w\<lparr>w_edge := (w_edge w)\<lparr>fk_fail_with := None\<rparr>\<rparr>"

definition rotate_to :: "string \<Rightarrow> fake world \<Rightarrow> fake world" where
  "rotate_to key w = w\<lparr>w_db := snd (rotate_device_key 2 key (w_db w))\<rparr>"

definition launch :: "fake world \<Rightarrow> fake world" where
  "launch w = snd (run_state (provision fake_client (demo_request ''uk-lon-1'')) w)"

text \<open>
  A rotation that was not applied before the user lapsed leaves
  the old key behind: the pass removes the new key, which was never installed, and marks the row
  revoked, while the superseded key stays on the box with no live row to account for it.
\<close>

theorem superseded_key_survives_expiry:
  "let w1 = launch (demo_world [lon]);
       w2 = reachable_again (launch (unreachable (rotate_to ''keyB'' w1)));
       w3 = snd (run_state (once fake_client new_reconciler) (w2\<lparr>w_now := 2 * day\<rparr>))
   in map p_state (peers (w_db w3)) = [PeerRevoked] \<and> fake_has_peer (w_edge w3) ''uk-lon-1'' ''keyA''"
  by code_simp

text \<open>
  The row remembers one superseded key. When the
  confirmation of a rotation is lost and the device rotates again, the key in between stays
  installed although the row ends active at its current revision with nothing left to replace.
\<close>

theorem unacknowledged_key_survives_rotation:
  "let w1 = launch (demo_world [lon]);
       w2 = launch ((rotate_to ''keyB'' w1)\<lparr>w_faults := replicate 6 Fine @ [Lost]\<rparr>);
       w3 = launch (rotate_to ''keyC'' (w2\<lparr>w_faults := []\<rparr>))
   in map (\<lambda>p. (p_state p, p_public_key p, p_prev_public_key p)) (peers (w_db w3)) = [(PeerActive, ''keyC'', None)] \<and>
      fake_has_peer (w_edge w3) ''uk-lon-1'' ''keyB'' \<and> fake_has_peer (w_edge w3) ''uk-lon-1'' ''keyC''"
  by code_simp

text \<open>
  The sweep notes the new boot identifier before it resyncs. If
  that resync fails, the next sweep sees a familiar identifier and leaves the rebuilt box empty
  although the row is active.
\<close>

theorem failed_resync_is_not_retried:
  "let w1 = launch (demo_world [lon]);
       (r1, rc1) = (case run_state (health_sweep fake_client new_reconciler) w1 of (x, _) \<Rightarrow> x);
       w2 = w1\<lparr>w_edge := new_fake\<lparr>fk_boot_ids := [(''uk-lon-1'', ''boot2'')]\<rparr>, w_faults := [Fine, Lost]\<rparr>;
       ((r2, rc2), w3) = run_state (health_sweep fake_client rc1) w2;
       ((r3, rc3), w4) = run_state (health_sweep fake_client rc2) w3
   in r2 = Inr () \<and> r3 = Inr () \<and> w_faults w3 = [] \<and> map p_state (peers (w_db w4)) = [PeerActive] \<and>
      \<not> fake_has_peer (w_edge w4) ''uk-lon-1'' ''keyA''"
  by code_simp

end
