(* ===== verification/Pool.thy ===== *)
theory Pool
  imports Reconciler PeerLaws
begin

text \<open>
  The concurrent half of \<open>applyDue\<close>: one goroutine per batch item, at most \<open>Concurrency\<close> of them
  past the semaphore, while request handlers and other instances keep writing to the tables. A worker
  moves in three atomic steps, its edge call, its confirmation and the record of its failure;
  \<open>pool_step\<close> interleaves the workers with each other and with the rest of the system.
\<close>

section \<open>Workers\<close>

text \<open>The flag of the last two phases remembers whether the edge call went through; the code does not use it.\<close>

datatype phase = Waiting | Pushed "goerr + unit" | Failing bool goerr | Done bool

type_synonym worker = "(peer_assignment \<times> server) \<times> phase"

fun worker_step :: "'e edge_client \<Rightarrow> worker \<Rightarrow> ('e, worker) proc" where
  "worker_step cl ((a, srv), Waiting) =
     (if pa_state a \<noteq> PeerPending \<and> pa_state a \<noteq> PeerRevoking then ret ((a, srv), Done False)
      else do { r \<leftarrow> push_row cl a srv; ret ((a, srv), Pushed r) })"
| "worker_step cl ((a, srv), Pushed (Inl e)) = ret ((a, srv), Failing False e)"
| "worker_step cl ((a, srv), Pushed (Inr x)) = do {
     r \<leftarrow> confirm_row a;
     ret ((a, srv), (case r of Inl e \<Rightarrow> Failing True e | Inr _ \<Rightarrow> Done True))
   }"
| "worker_step cl ((a, srv), Failing ok e) = do { _ \<leftarrow> record_failure a e; ret ((a, srv), Done ok) }"
| "worker_step cl ((a, srv), Done ok) = ret ((a, srv), Done ok)"

text \<open>Run alone, a worker is \<^const>\<open>apply_one\<close>; three steps always finish it.\<close>

fun run_worker :: "nat \<Rightarrow> 'e edge_client \<Rightarrow> worker \<Rightarrow> ('e, worker) proc" where
  "run_worker 0 cl wk = ret wk"
| "run_worker (Suc n) cl wk = do { wk' \<leftarrow> worker_step cl wk; run_worker n cl wk' }"

lemma worker_is_apply_one:
  "\<exists>ok. run_state (run_worker 3 cl ((a, srv), Waiting)) w = (((a, srv), Done ok), snd (run_state (apply_one cl a srv) w))"
proof -
  obtain r w1 where r: "run_state (push_row cl a srv) w = (r, w1)" by (cases "run_state (push_row cl a srv) w")
  obtain c w2 where c: "run_state (confirm_row a) w1 = (c, w2)" by (cases "run_state (confirm_row a) w1")
  have f: "run_state (record_failure a e) v = ((), snd (run_state (record_failure a e) v))" for e v
    by (cases "run_state (record_failure a e) v") auto
  show ?thesis
    using r c f by (cases r; cases c) (auto simp: numeral_3_eq_3 apply_one_def split: prod.splits)
qed

lemma keeps_worker_step [keeps_intros]: "keeps (on_db peers_step) (worker_step cl wk)"
  by (cases "(cl, wk)" rule: worker_step.cases)
    (auto simp: push_row_def confirm_row_def intro!: keeps_intros preorder_on_db_peers_step preorder_peers_step)

section \<open>Interleaving\<close>

fun busy :: "phase \<Rightarrow> bool" where
  "busy Waiting = False" | "busy (Done ok) = False" | "busy _ = True"

definition in_flight :: "worker list \<Rightarrow> nat" where
  "in_flight ws = count_where (\<lambda>wk. busy (snd wk)) ws"

text \<open>
  What the rest of the system may do to the tables between two steps: anything the store operations
  do to rows except confirming them.
\<close>

definition confirms_nothing :: "db \<Rightarrow> db \<Rightarrow> bool" where
  "confirms_nothing d d' \<longleftrightarrow>
     (\<forall>q \<in> set (peers d'). p_state q = PeerActive \<longrightarrow>
        (\<exists>p \<in> set (peers d). p_id p = p_id q \<and> p_state p = PeerActive \<and> p_revision p = p_revision q))"

inductive pool_step ::
  "'e edge_client \<Rightarrow> nat \<Rightarrow> worker list \<times> 'e world \<Rightarrow> worker list \<times> 'e world \<Rightarrow> bool"
  for cl :: "'e edge_client" and conc :: nat where
  work: "i < length ws \<Longrightarrow> (\<forall>ok. snd (ws ! i) \<noteq> Done ok) \<Longrightarrow> (snd (ws ! i) = Waiting \<longrightarrow> in_flight ws < conc) \<Longrightarrow>
    run_state (worker_step cl (ws ! i)) w = (wk, w') \<Longrightarrow> pool_step cl conc (ws, w) (ws[i := wk], w')"
| other: "peers_step (w_db w) (w_db w') \<Longrightarrow> confirms_nothing (w_db w) (w_db w') \<Longrightarrow>
    pool_step cl conc (ws, w) (ws, w')"

inductive_cases pool_stepE: "pool_step cl conc (ws, w) s"

abbreviation pool_run ::
  "'e edge_client \<Rightarrow> nat \<Rightarrow> worker list \<times> 'e world \<Rightarrow> worker list \<times> 'e world \<Rightarrow> bool" where
  "pool_run cl conc \<equiv> (pool_step cl conc)\<^sup>*\<^sup>*"

section \<open>The invariant\<close>

text \<open>The row a worker was started for still exists; at the worker's revision it carries its key.\<close>

definition read_from :: "db \<Rightarrow> peer_assignment \<Rightarrow> bool" where
  "read_from d a \<longleftrightarrow> (\<exists>p \<in> set (peers d). p_id p = pa_id a \<and> pa_revision a \<le> p_revision p \<and>
     (p_revision p = pa_revision a \<longrightarrow> p_public_key p = pa_public_key a \<and> p_tunnel_ip p = pa_tunnel_ip a))"

fun delivered :: "phase \<Rightarrow> bool" where
  "delivered Waiting = False"
| "delivered (Pushed r) = (r = Inr ())"
| "delivered (Failing ok e) = ok"
| "delivered (Done ok) = ok"

text \<open>The rows the workers have installed on a box, with the revision, key and address installed.\<close>

definition installs :: "worker list \<Rightarrow> (uuid \<times> int \<times> string \<times> ipv4) set" where
  "installs ws = {(pa_id a, pa_revision a, pa_public_key a, pa_tunnel_ip a) | a s ph.
     ((a, s), ph) \<in> set ws \<and> delivered ph \<and> pa_state a = PeerPending}"

text \<open>
  Every active row was active at this revision when the batch was read, or some worker has installed
  exactly this row at exactly this revision.
\<close>

definition accounted :: "db \<Rightarrow> worker list \<Rightarrow> peer_row \<Rightarrow> bool" where
  "accounted d0 ws q \<longleftrightarrow>
     (\<exists>p \<in> set (peers d0). p_id p = p_id q \<and> p_state p = PeerActive \<and> p_revision p = p_revision q) \<or>
     (p_id q, p_revision q, p_public_key q, p_tunnel_ip q) \<in> installs ws"

definition pool_inv :: "db \<Rightarrow> nat \<Rightarrow> worker list \<times> 'e world \<Rightarrow> bool" where
  "pool_inv d0 conc st \<longleftrightarrow> (case st of (ws, w) \<Rightarrow>
     wf_peers (w_db w) \<and> in_flight ws \<le> conc \<and> (\<forall>wk \<in> set ws. read_from (w_db w) (fst (fst wk))) \<and>
     (\<forall>q \<in> set (peers (w_db w)). p_state q = PeerActive \<longrightarrow> accounted d0 ws q))"

lemma peers_evolve_row:
  assumes "peers_evolve d d'" and "p \<in> set (peers d)"
  shows "\<exists>q \<in> set (peers d'). row_evolves p q"
proof -
  from assms(2) obtain i where i: "i < length (peers d)" "peers d ! i = p" by (auto simp: in_set_conv_nth)
  with assms(1) have "row_evolves p (take (length (peers d)) (peers d') ! i)"
    by (auto simp: peers_evolve_def list_all2_conv_all_nth)
  moreover have "peers d' ! i \<in> set (peers d')" using assms(1) i by (simp add: peers_evolve_def)
  ultimately show ?thesis using i(1) by auto
qed

lemma read_from_evolve: "peers_evolve d d' \<Longrightarrow> read_from d a \<Longrightarrow> read_from d' a"
proof -
  assume ev: "peers_evolve d d'" and "read_from d a"
  then obtain p where p: "p \<in> set (peers d)" "p_id p = pa_id a" "pa_revision a \<le> p_revision p"
    "p_revision p = pa_revision a \<longrightarrow> p_public_key p = pa_public_key a \<and> p_tunnel_ip p = pa_tunnel_ip a"
    unfolding read_from_def by blast
  obtain q where "q \<in> set (peers d')" "row_evolves p q" using peers_evolve_row [OF ev p(1)] by blast
  with p show "read_from d' a"
    unfolding read_from_def row_evolves_def by (intro bexI [of _ q]) auto
qed

lemma db_call_cases:
  "run_state (db_call f) w = (r, w') \<Longrightarrow> w_db w' = w_db w \<or> w_db w' = snd (f (w_now w) (w_db w))"
  by (auto simp: db_call_def Let_def split: prod.splits list.splits fault.splits)

lemma same_row_at_revision:
  assumes "wf_peers d'" "peers_evolve d d'" "p \<in> set (peers d)" "q \<in> set (peers d')" "p_id p = p_id q"
    and "p_revision p = p_revision q"
  shows "p_public_key q = p_public_key p \<and> p_tunnel_ip q = p_tunnel_ip p"
proof -
  obtain q' where q': "q' \<in> set (peers d')" "row_evolves p q'" using peers_evolve_row [OF assms(2,3)] by blast
  with assms(5) have "q' = q" using unique_id [OF assms(1) q'(1) assms(4)] by (simp add: row_evolves_def)
  with q'(2) assms(6) show ?thesis by (auto simp: row_evolves_def)
qed

lemma mark_applied_active:
  "q \<in> set (peers (snd (mark_applied now i revn d))) \<Longrightarrow> p_state q = PeerActive \<Longrightarrow>
   q \<in> set (peers d) \<or> (\<exists>p \<in> set (peers d). p_id p = i \<and> p_revision p \<le> revn \<and> p_id q = p_id p \<and>
     p_revision q = p_revision p \<and> p_public_key q = p_public_key p \<and> p_tunnel_ip q = p_tunnel_ip p)"
  by (auto simp: mark_applied_def set_update_where split: if_splits)

lemma mark_revoked_active:
  "q \<in> set (peers (snd (mark_revoked now i revn d))) \<Longrightarrow> p_state q = PeerActive \<Longrightarrow> q \<in> set (peers d)"
  by (auto simp: mark_revoked_def set_update_where split: if_splits)

text \<open>One step of a worker: it stays with its item, keeps its delivery, and confirms only what it delivered.\<close>

lemma worker_step_effect:
  assumes run: "run_state (worker_step cl wk) w = (wk', w')" and wf: "wf_peers (w_db w)"
    and rf: "read_from (w_db w) (fst (fst wk))"
  shows "fst wk' = fst wk \<and> (delivered (snd wk) \<longrightarrow> delivered (snd wk')) \<and>
    (\<forall>q \<in> set (peers (w_db w')). p_state q = PeerActive \<longrightarrow>
      (\<exists>p \<in> set (peers (w_db w)). p_id p = p_id q \<and> p_state p = PeerActive \<and> p_revision p = p_revision q) \<or>
      (p_id q, p_revision q, p_public_key q, p_tunnel_ip q) \<in> installs [wk'])"
proof -
  obtain a s ph where wk: "wk = ((a, s), ph)" by (metis surj_pair)
  have old: ?thesis if "fst wk' = fst wk" "delivered ph \<longrightarrow> delivered (snd wk')" "w_db w' = w_db w"
    using that wk by auto
  show ?thesis
  proof (cases ph)
    case (Failing ok e)
    have "w_db w' = w_db w \<or> (\<exists>c t. w_db w' = snd (mark_attempt_failed (pa_id a) c t (w_db w)))"
      using run wk Failing
      by (auto simp: record_failure_def store_mark_attempt_failed_def float64_draw_def
          split: prod.splits list.splits dest!: db_call_cases) blast+
    moreover have "wk' = ((a, s), Done ok)" using run wk Failing by (auto split: prod.splits)
    ultimately show ?thesis
      using wk Failing by (fastforce simp: mark_attempt_failed_def set_update_where split: if_splits)
  next
    case (Pushed r)
    show ?thesis
    proof (cases r)
      case (Inr x)
      then obtain c where c: "run_state (confirm_row a) w = (c, w')" and wk': "fst wk' = (a, s)" "delivered (snd wk')"
        using run wk Pushed by (auto split: prod.splits sum.splits)
      obtain p0 where p0: "p0 \<in> set (peers (w_db w))" "p_id p0 = pa_id a" "pa_revision a \<le> p_revision p0"
        "p_revision p0 = pa_revision a \<longrightarrow> p_public_key p0 = pa_public_key a \<and> p_tunnel_ip p0 = pa_tunnel_ip a"
        using rf wk unfolding read_from_def by auto
      have only: "p = p0" if "p \<in> set (peers (w_db w))" "p_id p = pa_id a" for p
        using unique_id [OF wf that(1) p0(1)] that(2) p0(2) by simp
      show ?thesis
      proof (cases "pa_state a = PeerPending")
        case True
        then have "(p_id p0, p_revision p0, p_public_key p0, p_tunnel_ip p0) \<in> installs [wk']" if "p_revision p0 \<le> pa_revision a"
          using wk' p0 that by (cases wk') (auto simp: installs_def)
        moreover have "w_db w' = w_db w \<or> w_db w' = snd (mark_applied (w_now w) (pa_id a) (pa_revision a) (w_db w))"
          using c True by (auto simp: confirm_row_def store_mark_applied_def dest!: db_call_cases)
        moreover have "p_revision p0 \<le> pa_revision a \<longrightarrow> p_revision p0 = pa_revision a" using p0(3) by simp
        ultimately have "q \<in> set (peers (w_db w)) \<or> (p_id q, p_revision q, p_public_key q, p_tunnel_ip q) \<in> installs [wk']"
          if "q \<in> set (peers (w_db w'))" "p_state q = PeerActive" for q
          using that only mark_applied_active [of q "w_now w" "pa_id a" "pa_revision a" "w_db w"] by metis
        with wk wk' show ?thesis by auto
      next
        case False
        then have "w_db w' = w_db w \<or> w_db w' = snd (mark_revoked (w_now w) (pa_id a) (pa_revision a) (w_db w))"
          using c by (auto simp: confirm_row_def store_mark_revoked_def dest!: db_call_cases)
        then have "q \<in> set (peers (w_db w))" if "q \<in> set (peers (w_db w'))" "p_state q = PeerActive" for q
          using that mark_revoked_active by metis
        with wk wk' show ?thesis by auto
      qed
    qed (use run wk Pushed old in \<open>auto simp: push_row_def\<close>)
  qed (use run wk old in \<open>auto simp: push_row_def split: if_splits prod.splits\<close>)
qed

lemma in_flight_update:
  assumes "i < length ws" and "busy (snd wk) \<longrightarrow> busy (snd (ws ! i)) \<or> in_flight ws < conc" and "in_flight ws \<le> conc"
  shows "in_flight (ws[i := wk]) \<le> conc"
proof -
  have split: "ws = take i ws @ ws ! i # drop (Suc i) ws" using assms(1) by (rule id_take_nth_drop)
  have upd: "ws[i := wk] = take i ws @ wk # drop (Suc i) ws" using assms(1) by (rule upd_conv_take_nth_drop)
  let ?n = "count_where (\<lambda>k. busy (snd k)) (take i ws) + count_where (\<lambda>k. busy (snd k)) (drop (Suc i) ws)"
  have "in_flight ws = ?n + (if busy (snd (ws ! i)) then 1 else 0)"
    by (subst split) (simp add: in_flight_def count_where_def)
  moreover have "in_flight (ws[i := wk]) = ?n + (if busy (snd wk) then 1 else 0)"
    unfolding upd by (simp add: in_flight_def count_where_def)
  ultimately show ?thesis using assms(2,3) by (auto split: if_splits)
qed

lemma pool_inv_step:
  assumes "pool_step cl conc st st'" and "pool_inv d0 conc st"
  shows "pool_inv d0 conc st'"
  using assms
proof (cases rule: pool_step.cases)
  case (work i ws w wk w')
  let ?k = "ws ! i" and ?ws = "ws[i := wk]"
  have inv: "wf_peers (w_db w)" "in_flight ws \<le> conc" "\<And>k. k \<in> set ws \<Longrightarrow> read_from (w_db w) (fst (fst k))"
    "\<And>q. q \<in> set (peers (w_db w)) \<Longrightarrow> p_state q = PeerActive \<Longrightarrow> accounted d0 ws q"
    using assms(2) work(1) by (auto simp: pool_inv_def)
  have k: "?k \<in> set ws" using work(3) by simp
  note eff = worker_step_effect [OF work(6) inv(1) inv(3) [OF k]]
  have step: "wf_peers (w_db w')" "peers_evolve (w_db w) (w_db w')"
    using keepsD [OF keeps_worker_step work(6)] inv(1) by (auto simp: on_db_def peers_step_def)
  have "installs ws \<subseteq> installs ?ws"
  proof
    fix x assume "x \<in> installs ws"
    then obtain a s ph where x: "x = (pa_id a, pa_revision a, pa_public_key a, pa_tunnel_ip a)"
      "((a, s), ph) \<in> set ws" "delivered ph" "pa_state a = PeerPending" by (auto simp: installs_def)
    from x(2) obtain j where j: "j < length ws" "ws ! j = ((a, s), ph)" by (auto simp: in_set_conv_nth)
    have "?ws ! j \<in> set ?ws" using j(1) by simp
    moreover have "\<exists>ph'. ?ws ! j = ((a, s), ph') \<and> delivered ph'"
      using j x(3) eff work(3) by (cases "j = i"; cases wk) auto
    ultimately obtain ph' where "((a, s), ph') \<in> set ?ws" "delivered ph'" by metis
    with x show "x \<in> installs ?ws" unfolding installs_def by blast
  qed
  moreover have "installs [wk] \<subseteq> installs ?ws"
    using set_update_memI [OF work(3), of wk] unfolding installs_def by auto
  moreover have "(p_id q, p_revision q, p_public_key q, p_tunnel_ip q) =
      (p_id p, p_revision p, p_public_key p, p_tunnel_ip p)"
    if "q \<in> set (peers (w_db w'))" "p \<in> set (peers (w_db w))" "p_id p = p_id q" "p_revision p = p_revision q" for p q
    using same_row_at_revision [OF step that(2,1,3,4)] that by simp
  ultimately have "accounted d0 ?ws q" if "q \<in> set (peers (w_db w'))" "p_state q = PeerActive" for q
    using eff inv(4) that unfolding accounted_def by (smt (verit, best) subset_eq)
  moreover have "read_from (w_db w') (fst (fst k))" if "k \<in> set ?ws" for k
  proof -
    from that have "k \<in> insert wk (set ws)" using set_update_subset_insert by fastforce
    then have "fst k \<in> fst ` set ws" using eff k by force
    then show ?thesis using inv(3) read_from_evolve [OF step(2)] by force
  qed
  moreover have "in_flight ?ws \<le> conc"
  proof (rule in_flight_update [OF work(3) _ inv(2)])
    show "busy (snd wk) \<longrightarrow> busy (snd ?k) \<or> in_flight ws < conc"
      using work(4,5) by (cases "snd ?k") auto
  qed
  ultimately show ?thesis using step(1) work(2) by (simp add: pool_inv_def)
next
  case (other w w' ws)
  have inv: "wf_peers (w_db w)" using assms(2) other(1) by (simp add: pool_inv_def)
  with other(3) have step: "wf_peers (w_db w')" "peers_evolve (w_db w) (w_db w')" by (auto simp: peers_step_def)
  have "accounted d0 ws q" if q: "q \<in> set (peers (w_db w'))" "p_state q = PeerActive" for q
  proof -
    obtain p where p: "p \<in> set (peers (w_db w))" "p_id p = p_id q" "p_state p = PeerActive" "p_revision p = p_revision q"
      using other(4) q unfolding confirms_nothing_def by blast
    then have "accounted d0 ws p" using assms(2) other(1) by (simp add: pool_inv_def)
    with p same_row_at_revision [OF step p(1) q(1) p(2,4)] show ?thesis by (simp add: accounted_def)
  qed
  with assms(2) other(1,2) step read_from_evolve [OF step(2)] show ?thesis by (simp add: pool_inv_def)
qed

definition pool_start :: "(peer_assignment \<times> server) list \<Rightarrow> worker list" where
  "pool_start batch = map (\<lambda>i. (i, Waiting)) batch"

lemma pool_inv_start:
  assumes "wf_peers (w_db w)" and "due_assignments now n (w_db w) = (Inr batch, d1)"
  shows "pool_inv (w_db w) conc (pool_start batch, w)"
proof -
  have "read_from (w_db w) (fst i)" if "i \<in> set batch" for i
  proof -
    from that have "i \<in> set (List.map_filter
        (\<lambda>p. map_option (\<lambda>s. (scan_peer p, scan_server (w_db w) s)) (find_server_row (w_db w) (p_server_id p)))
        (sort_key p_next_attempt_at (filter (due now) (peers (w_db w)))))"
      using assms(2) by (auto simp: due_assignments_def dest: in_set_takeD)
    then show ?thesis by (auto simp: List.map_filter_def read_from_def scan_peer_def)
  qed
  then show ?thesis
    using assms(1) by (auto simp: pool_inv_def pool_start_def in_flight_def count_where_def accounted_def)
qed


section \<open>Progress\<close>

fun steps_left :: "phase \<Rightarrow> nat" where
  "steps_left Waiting = 3" | "steps_left (Pushed r) = 2" | "steps_left (Failing ok e) = 1" | "steps_left (Done ok) = 0"

definition work_left :: "worker list \<Rightarrow> nat" where
  "work_left ws = sum_list (map (\<lambda>wk. steps_left (snd wk)) ws)"

lemma worker_step_decreases:
  assumes "run_state (worker_step cl wk) w = (wk', w')" and "\<forall>ok. snd wk \<noteq> Done ok"
  shows "steps_left (snd wk') < steps_left (snd wk)"
  using assms by (cases "(cl, wk)" rule: worker_step.cases) (auto split: prod.splits sum.splits if_splits)

lemma work_left_update:
  assumes "i < length ws" and "steps_left (snd wk) < steps_left (snd (ws ! i))"
  shows "work_left (ws[i := wk]) < work_left ws"
proof -
  have split: "ws = take i ws @ ws ! i # drop (Suc i) ws" using assms(1) by (rule id_take_nth_drop)
  have upd: "ws[i := wk] = take i ws @ wk # drop (Suc i) ws" using assms(1) by (rule upd_conv_take_nth_drop)
  let ?n = "work_left (take i ws) + work_left (drop (Suc i) ws)"
  have "work_left ws = ?n + steps_left (snd (ws ! i))" by (subst split) (simp add: work_left_def)
  moreover have "work_left (ws[i := wk]) = ?n + steps_left (snd wk)" unfolding upd by (simp add: work_left_def)
  ultimately show ?thesis using assms(2) by simp
qed


end
