(* ===== verification/Witnesses.thy ===== *)
theory Witnesses
  imports ProvisionLaws ReconcilerLaws Pool
begin

text \<open>
  Each conditional property of the provisioning engine applied to the small deployment of
  \<open>Fixtures\<close>, so that its hypotheses are seen to hold together.
\<close>

section \<open>Concrete worlds\<close>

text \<open>The device is on the London box; its only time block runs for a day.\<close>

definition launched :: "fake world" where
  "launched = launch (demo_world [lon])"

definition launched_row :: peer_row where
  "launched_row = hd (peers (w_db launched))"

text \<open>The row and the box after the launch, from which the other worlds are evaluated.\<close>

lemma launched_code [code]:
  "launched = (demo_world [lon])\<lparr>
     w_db := (demo_db [lon])\<lparr>
       peers := [\<lparr>p_id = 100, p_device_id = 2, p_server_id = 10, p_public_key = ''keyA'', p_prev_public_key = None,
         p_tunnel_ip = 0x0A4D0002, p_state = PeerActive, p_revision = 1, p_applied_revision = 1, p_attempts = 0,
         p_last_error = None, p_next_attempt_at = second, p_created_at = second, p_activated_at = Some second,
         p_revoked_at = None\<rparr>],
       next_id := 101\<rparr>,
     w_edge := new_fake\<lparr>fk_peers := [(''uk-lon-1'', [(''keyA'', 1)])], fk_calls := [''apply:uk-lon-1:keyA'']\<rparr>\<rparr>"
  by code_simp

definition lapsed_world :: "fake world" where
  "lapsed_world = launched\<lparr>w_now := 2 * day\<rparr>"

text \<open>The same request while the box is down: the row is pending and due a minute later.\<close>

definition backlog_world :: "fake world" where
  "backlog_world = (reachable_again (launch (unreachable (demo_world [lon]))))\<lparr>w_now := minute\<rparr>"

lemma backlog_world_code [code]:
  "backlog_world = (demo_world [lon])\<lparr>
     w_db := (demo_db [lon])\<lparr>
       peers := [\<lparr>p_id = 100, p_device_id = 2, p_server_id = 10, p_public_key = ''keyA'', p_prev_public_key = None,
         p_tunnel_ip = 0x0A4D0002, p_state = PeerPending, p_revision = 1, p_applied_revision = 0, p_attempts = 1,
         p_last_error = Some ''edge: unreachable: fake failure'', p_next_attempt_at = 2600000000, p_created_at = second,
         p_activated_at = None, p_revoked_at = None\<rparr>],
       next_id := 101\<rparr>,
     w_edge := new_fake\<lparr>fk_calls := [''apply:uk-lon-1:keyA'']\<rparr>, w_now := minute\<rparr>"
  by code_simp

definition backlog :: "(peer_assignment \<times> server) list" where
  "backlog = projr (fst (due_assignments minute 100 (w_db backlog_world)))"

lemma launched_facts:
  "w_faults launched = []" "wf_peers (w_db launched)" "keys_separate (w_db launched)"
  "fk_fail_with (w_edge launched) = None" "fk_fail_for (w_edge launched) = []"
  by code_simp+

lemma backlog_facts:
  "w_faults backlog_world = []" "w_now backlog_world = minute" "wf_peers (w_db backlog_world)"
  "keys_separate (w_db backlog_world)"
  "fk_fail_with (w_edge backlog_world) = None" "fk_fail_for (w_edge backlog_world) = []"
  "due_assignments minute 100 (w_db backlog_world) = (Inr backlog, w_db backlog_world)" "length backlog = 1"
  by code_simp+

lemma up_launched: "fake_up (w_edge launched) s" and up_backlog: "fake_up (w_edge backlog_world) s"
  using launched_facts backlog_facts by (simp_all add: fake_up_def fake_fail_def)

section \<open>Addresses and assignments\<close>

definition one_row_db :: db where "one_row_db = w_db launched"

lemma network_lon: "network 0x0A4D0000 16"
  by code_simp

lemma allocate_ip_lowest_witness:
  "uint (0x0A4D0000 :: ipv4) + 1 < uint (0x0A4D0003 :: ipv4) \<and> \<not> ip_taken one_row_db 10 0x0A4D0003"
proof -
  have "allocate_ip one_row_db 10 (Cidr4 0x0A4D0000 16) = Inr 0x0A4D0003" by code_simp
  from allocate_ip_lowest [OF network_lon this] show ?thesis by blast
qed

text \<open>A \<open>/30\<close> has room for the server and one device.\<close>

definition full_db :: db where
  "full_db = w_db (launch (demo_world [lon\<lparr>s_tunnel_subnet := Cidr4 0x0A4D0000 30\<rparr>]))"

lemma allocate_ip_exhausted_witness: "ip_taken full_db 10 (host_addr 0x0A4D0000 2)"
proof -
  have a: "allocate_ip full_db 10 (Cidr4 0x0A4D0000 30) = Inl (Sentinel ErrNoAddresses)" by code_simp
  show ?thesis
    by (rule conjunct2 [OF allocate_ip_exhausted [OF a]]) (simp_all add: max_offset_def)
qed

lemma ensure_assignment_idempotent_witness:
  "\<exists>a d'. ensure_assignment second 2 10 ''keyB'' one_row_db = (Inr a, d') \<and>
     ensure_assignment minute 2 10 ''keyB'' d' = (Inr a, d')"
proof -
  have "wf_peers one_row_db" by code_simp
  moreover obtain a d' where a: "ensure_assignment second 2 10 ''keyB'' one_row_db = (Inr a, d')"
  proof -
    have "\<not> isl (fst (ensure_assignment second 2 10 ''keyB'' one_row_db))" by code_simp
    then have "fst (ensure_assignment second 2 10 ''keyB'' one_row_db) =
        Inr (projr (fst (ensure_assignment second 2 10 ''keyB'' one_row_db)))" by simp
    then show thesis by (intro that) (rule prod_eqI; simp)
  qed
  ultimately have "ensure_assignment minute 2 10 ''keyB'' d' = (Inr a, d')"
    by (rule ensure_assignment_idempotent)
  with a show ?thesis by blast
qed

lemma ensure_assignment_rotation_witness:
  "\<exists>a d'. ensure_assignment minute 2 10 ''keyB'' one_row_db = (Inr a, d') \<and> pa_public_key a = ''keyB'' \<and> pa_state a = PeerPending"
proof -
  have "find_server_row one_row_db 10 \<noteq> None" by code_simp
  moreover have "existing_assignment one_row_db 2 10 = Some launched_row" by code_simp
  moreover have "p_public_key launched_row \<noteq> ''keyB''" by code_simp
  ultimately show ?thesis
    using ensure_assignment_rotation [of one_row_db 10 2 launched_row "''keyB''" minute] by blast
qed

lemma stale_confirmation_ignored_witness:
  "launched_row \<in> set (peers (snd (mark_applied minute (p_id launched_row) 0 one_row_db)))"
  by (rule stale_confirmation_ignored) code_simp+

definition revoking_db :: db where
  "revoking_db = snd (begin_revoke_for_user second 1 one_row_db)"

lemma revoked_address_returns_witness:
  "allocate_ip (snd (mark_revoked minute (p_id launched_row) 2 revoking_db)) 10 (Cidr4 0x0A4D0000 16) = Inr 0x0A4D0002"
proof -
  let ?p = "begin_revoke second launched_row"
  have f: "p_server_id ?p = 10" "p_id ?p = p_id launched_row" "p_tunnel_ip ?p = 0x0A4D0002" by code_simp+
  have p: "wf_peers revoking_db" "?p \<in> set (peers revoking_db)" "p_state ?p = PeerRevoking" "p_revision ?p \<le> 2"
    by code_simp+
  have a: "p_tunnel_ip ?p = host_addr 0x0A4D0000 2" by code_simp
  show ?thesis
    using revoked_address_returns [OF p network_lon _ _ a, of minute] f by (simp add: max_offset_def)
qed

section \<open>Selection and backoff\<close>

lemma backoff_bounds_witness: "1600 * millisecond \<le> backoff (1/2) 3 \<and> backoff (1/2) 3 \<le> 6 * minute"
  using backoff_bounds [of "1/2" 3] by simp

lemma auto_choice_rules_witness:
  "s_priority (scan_server one_row_db lon) \<le> s_priority (scan_server one_row_db fra)"
proof -
  let ?lon = "scan_server one_row_db lon" and ?fra = "scan_server one_row_db fra"
  have s: "sort_servers [?fra, ?lon] ''DE'' = ?lon # [?fra]" by code_simp
  have "at_capacity ?fra = at_capacity ?lon" by code_simp
  with auto_choice_rules [OF s, of ?fra] show ?thesis by simp
qed

lemma sort_servers_deterministic_witness:
  "sort_servers [scan_server one_row_db lon, scan_server one_row_db fra] ''GB'' =
   sort_servers [scan_server one_row_db fra, scan_server one_row_db lon] ''GB''"
  by (rule sort_servers_deterministic) (code_simp, simp add: add_mset_commute)

section \<open>Provisioning\<close>

lemma provision_keeps_table_witness:
  "wf_peers (w_db (snd (run_state (provision fake_client (demo_request ''auto'')) (launched\<lparr>w_faults := [Fine, Unacked]\<rparr>))))"
  using provision_keeps_table [of "launched\<lparr>w_faults := [Fine, Unacked]\<rparr>" fake_client "demo_request ''auto''"]
    launched_facts by simp

lemma provision_error_kinds_witness:
  "\<not> is_err (projl (fst (run_state (provision fake_client (demo_request ''nowhere'')) launched))) ErrNoAddresses"
proof -
  let ?run = "run_state (provision fake_client (demo_request ''nowhere'')) launched"
  have "isl (fst ?run)" by code_simp
  then have "?run = (Inl (projl (fst ?run)), snd ?run)" by (simp add: prod_eq_iff)
  then show ?thesis using provision_error_kinds [of fake_client "demo_request ''nowhere''"] by blast
qed

lemma not_admissible_lapsed: "\<nexists>dev. admissible (w_now lapsed_world) (demo_request ''auto'') dev (w_db lapsed_world)"
proof -
  have "\<not> e_active (entitlement_of (w_now lapsed_world) (rq_user_id (demo_request ''auto'')) (w_db lapsed_world))"
    by code_simp
  then show ?thesis by (simp add: admissible_def)
qed

lemma refused_request_has_no_effect_witness:
  "\<exists>e w'. run_state (provision fake_client (demo_request ''auto'')) lapsed_world = (Inl e, w') \<and>
     w_db w' = w_db lapsed_world \<and> w_edge w' = w_edge lapsed_world"
  by (rule refused_request_has_no_effect [OF not_admissible_lapsed])

lemma failed_request_keeps_peers_witness:
  "\<exists>q \<in> set (peers (w_db (snd (run_state (provision fake_client (demo_request ''nowhere'')) launched)))).
     p_id q = p_id launched_row \<and> wanted q"
proof -
  let ?run = "run_state (provision fake_client (demo_request ''nowhere'')) launched"
  have "isl (fst ?run)" by code_simp
  then have run: "?run = (Inl (projl (fst ?run)), snd ?run)" by (simp add: prod_eq_iff)
  have "launched_row \<in> set (peers (w_db launched))" "wanted launched_row" by code_simp+
  from failed_request_keeps_peers [OF run this] show ?thesis .
qed


lemma relaunch_is_a_read_witness:
  "\<exists>cfg. run_state (provision fake_client (demo_request ''uk-lon-1'')) launched = (Inr cfg, launched)"
proof -
  let ?req = "demo_request ''uk-lon-1''"
  have h: "admissible (w_now launched) ?req demo_device (w_db launched)"
    "trim_space (to_lower (rq_server_code ?req)) = s_code lon" "s_code lon \<noteq> []" "s_code lon \<noteq> ''auto''"
    "find (\<lambda>s. s_code s = s_code lon) (servers (w_db launched)) = Some lon" "s_status lon = ServerActive"
    "find_server_row (w_db launched) (s_id lon) = Some lon"
    "installed_row (w_db launched) demo_device (s_id lon) launched_row"
    by code_simp+
  have "\<forall>q \<in> set (peers (w_db launched)). p_server_id q = s_id lon" by code_simp
  then show ?thesis
    using relaunch_is_a_read [OF launched_facts(1) h, of fake_client] by blast
qed

section \<open>The reconciler\<close>

lemma reconciler_keeps_table_witness:
  "wf_peers (w_db (snd (run_state (once fake_client new_reconciler) lapsed_world)))"
  using reconciler_keeps_table [of lapsed_world "snd (run_state (once fake_client new_reconciler) lapsed_world)"
      fake_client new_reconciler] launched_facts by (simp add: lapsed_world_def)



lemma resync_exact_witness:
  "\<exists>w'. run_state (resync fake_client (scan_server (w_db backlog_world) lon)) backlog_world = (Inr (), w') \<and>
    (\<forall>k. fake_has_peer (w_edge w') ''uk-lon-1'' k \<longleftrightarrow> k \<in> wanted_keys (w_db backlog_world) 10)"
proof -
  have "s_id lon = 10" "s_code lon = ''uk-lon-1''" by code_simp+
  with resync_exact [OF backlog_facts(1,3) up_backlog [of "scan_server (w_db backlog_world) lon"]]
  show ?thesis by auto
qed

section \<open>The pool\<close>

definition alone :: "worker list \<times> fake world \<Rightarrow> worker list \<times> fake world" where
  "alone st = (case run_state (worker_step fake_client (fst st ! 0)) (snd st) of (wk, w') \<Rightarrow> ((fst st)[0 := wk], w'))"

lemma pool_step_alone:
  assumes "0 < length (fst st)" and "steps_left (snd (fst st ! 0)) \<noteq> 0" and "in_flight (fst st) < conc"
  shows "pool_step fake_client conc st (alone st)"
proof -
  obtain ws w where st: "st = (ws, w)" by (cases st)
  obtain wk w' where run: "run_state (worker_step fake_client (ws ! 0)) w = (wk, w')"
    by (cases "run_state (worker_step fake_client (ws ! 0)) w")
  have "\<forall>ok. snd (ws ! 0) \<noteq> Done ok" using assms(2) by (auto simp: st)
  from pool_step.work [OF _ this _ run, of conc] assms show ?thesis by (simp add: st run alone_def)
qed



end
