(* ===== verification/ExpiryLaws.thy ===== *)
theory ExpiryLaws
  imports Reconciler
begin

text \<open>The other side of expiry: a reconciler pass never asks for the removal of a paying user's peer.\<close>

definition user_keeps :: "uuid \<Rightarrow> db \<Rightarrow> db \<Rightarrow> bool" where
  "user_keeps uid d d' \<longleftrightarrow> devices d' = devices d \<and>
     (distinct (map d_id (devices d)) \<longrightarrow>
       (\<forall>p \<in> set (peers d). wanted p \<and> owned_by d uid p \<longrightarrow>
         (\<exists>q \<in> set (peers d'). p_id q = p_id p \<and> p_device_id q = p_device_id p \<and> p_public_key q = p_public_key p \<and> wanted q)))"

lemma owned_by_devices: "devices d = devices d' \<Longrightarrow> p_device_id p = p_device_id q \<Longrightarrow> owned_by d uid p = owned_by d' uid q"
  by (simp add: owned_by_def)

lemma preorder_user_keeps: "preorder (user_keeps uid)"
proof (rule preorderI)
  fix s t u assume st: "user_keeps uid s t" and tu: "user_keeps uid t u"
  show "user_keeps uid s u"
    unfolding user_keeps_def
  proof (intro conjI impI ballI)
    show "devices u = devices s" using st tu by (simp add: user_keeps_def)
    fix p assume dist: "distinct (map d_id (devices s))" and p: "p \<in> set (peers s)" "wanted p \<and> owned_by s uid p"
    then obtain q where q: "q \<in> set (peers t)" "p_id q = p_id p" "p_device_id q = p_device_id p"
      "p_public_key q = p_public_key p" "wanted q"
      using st unfolding user_keeps_def by blast
    have dev: "devices t = devices s" using st by (simp add: user_keeps_def)
    then have "owned_by t uid q" using owned_by_devices [of t s q p uid] q(3) p(2) by simp
    with q dist dev obtain r where "r \<in> set (peers u)" "p_id r = p_id q" "p_device_id r = p_device_id q"
      "p_public_key r = p_public_key q" "wanted r"
      using tu unfolding user_keeps_def by metis
    with q show "\<exists>r \<in> set (peers u). p_id r = p_id p \<and> p_device_id r = p_device_id p \<and>
        p_public_key r = p_public_key p \<and> wanted r" by metis
  qed
qed (auto simp: user_keeps_def)

lemma user_keeps_update:
  assumes "\<And>p. c p \<Longrightarrow> wanted p \<Longrightarrow> distinct (map d_id (devices d)) \<Longrightarrow> owned_by d uid p \<Longrightarrow>
    p_id (f p) = p_id p \<and> p_device_id (f p) = p_device_id p \<and> p_public_key (f p) = p_public_key p \<and> wanted (f p)"
  shows "user_keeps uid d (d\<lparr>peers := update_where c f (peers d)\<rparr>)"
  unfolding user_keeps_def
proof (intro conjI impI ballI)
  fix p assume dist: "distinct (map d_id (devices d))" and p: "p \<in> set (peers d)" "wanted p \<and> owned_by d uid p"
  then have "(if c p then f p else p) \<in> set (peers (d\<lparr>peers := update_where c f (peers d)\<rparr>))"
    by (simp add: set_update_where)
  then show "\<exists>q \<in> set (peers (d\<lparr>peers := update_where c f (peers d)\<rparr>)). p_id q = p_id p \<and>
      p_device_id q = p_device_id p \<and> p_public_key q = p_public_key p \<and> wanted q"
    by (rule bexI [rotated]) (use assms [of p] p dist in auto)
qed simp

lemma user_keeps_refl [simp]: "user_keeps uid d d"
  using preorder_user_keeps by (simp add: preorder_def)

lemma keeps_user_keeps [keeps_intros]:
  "keeps (on_db (user_keeps uid)) (store_mark_applied i revn)"
  "keeps (on_db (user_keeps uid)) (store_mark_revoked i revn)"
  "keeps (on_db (user_keeps uid)) (store_mark_attempt_failed i cause retry_at)"
  "keeps (on_db (user_keeps uid)) (store_due_assignments n)"
  unfolding store_defs
  by (rule keeps_db_call [OF preorder_user_keeps],
      auto simp: mark_applied_def mark_revoked_def mark_attempt_failed_def due_assignments_def wanted_def
        intro!: user_keeps_update)+

lemma keeps_revoke_other_user:
  assumes "i \<noteq> uid"
  shows "keeps (on_db (user_keeps uid)) (store_begin_revoke_for_user i)"
  unfolding store_begin_revoke_for_user_def
proof (rule keeps_db_call [OF preorder_user_keeps])
  fix now d
  have "\<not> owned_by d i p" if "owned_by d uid p" "distinct (map d_id (devices d))" for p
  proof
    assume "owned_by d i p"
    with that(1) obtain v va where "v \<in> set (devices d)" "d_id v = p_device_id p" "d_user_id v = uid"
      "va \<in> set (devices d)" "d_id va = p_device_id p" "d_user_id va = i"
      by (auto simp: owned_by_def list_ex_iff)
    with that(2) assms inj_onD [of d_id "set (devices d)" v va] show False by (simp add: distinct_map)
  qed
  then show "user_keeps uid d (snd (begin_revoke_for_user now i d))"
    unfolding begin_revoke_for_user_def revoke_where_def snd_conv
    by (intro user_keeps_update) blast
qed

lemma expired_ids_sound:
  "expired_user_ids now n d = (Inr ids, d') \<Longrightarrow> uid \<in> set ids \<Longrightarrow> \<not> covered now uid d"
  by (auto simp: expired_user_ids_def dest!: in_set_takeD)

lemma keeps_apply_due_user: "keeps (on_db (user_keeps uid)) (apply_due cl rc)"
proof -
  note intros = keeps_intros preorder_on_db [OF preorder_user_keeps] preorder_user_keeps
  have one: "keeps (on_db (user_keeps uid)) (apply_one cl a srv)" for a srv
    unfolding apply_one_def push_row_def confirm_row_def record_failure_def by (intro intros)
  show ?thesis
    unfolding apply_due_def by (auto intro!: intros one)
qed

lemma sweep_spares_covered:
  assumes "covered (w_now w) uid (w_db w)"
  shows "on_db (user_keeps uid) w (snd (run_state (sweep_expired rc) w))"
proof -
  note pre = preorder_on_db [OF preorder_user_keeps]
  obtain r w1 where r: "run_state (store_expired_user_ids (rc_expiry_batch rc)) w = (r, w1)"
    by (cases "run_state (store_expired_user_ids (rc_expiry_batch rc)) w")
  have read: "snd (expired_user_ids now n d) = d" for now n d by (simp add: expired_user_ids_def)
  have w1: "w_db w1 = w_db w" "r = Inl driver_error \<or> r = fst (expired_user_ids (w_now w) (rc_expiry_batch rc) (w_db w))"
    using db_call_read [OF r [unfolded store_expired_user_ids_def] read] by auto
  show ?thesis
  proof (cases r)
    case (Inl e)
    with r w1 show ?thesis by (simp add: sweep_expired_def on_db_def)
  next
    case (Inr ids)
    then have ids: "expired_user_ids (w_now w) (rc_expiry_batch rc) (w_db w) = (Inr ids, w_db w)"
      using w1(2) read by (simp add: prod_eq_iff driver_error_def)
    have "keeps (on_db (user_keeps uid)) (for_each ids (\<lambda>i. State_Monad.bind (store_begin_revoke_for_user i) (\<lambda>_. ret ())))"
      using expired_ids_sound [OF ids] assms
      by (intro keeps_for_each keeps_bind keeps_ret pre keeps_revoke_other_user) blast
    from keepsD [OF this] have "on_db (user_keeps uid) w1 (snd (run_state (sweep_expired rc) w))"
      using r Inr by (auto simp: sweep_expired_def split: prod.splits)
    then show ?thesis using w1(1) by (simp add: on_db_def)
  qed
qed

text \<open>
  C10 (paying_user_keeps_peer). While a user has a running time block, a reconciler pass never asks
  for the removal of the user's peers: whatever the boxes answer and whichever store calls fail,
  every pending or active row of the user is still pending or active afterwards, with the same key.
\<close>

theorem paying_user_keeps_peer:
  assumes "covered (w_now w) uid (w_db w)" and "distinct (map d_id (devices (w_db w)))"
    and "p \<in> set (peers (w_db w))" and "wanted p" and "owned_by (w_db w) uid p"
  shows "\<exists>q \<in> set (peers (w_db (snd (run_state (once cl rc) w)))).
    p_id q = p_id p \<and> p_public_key q = p_public_key p \<and> wanted q"
proof -
  let ?w1 = "snd (run_state (sweep_expired rc) w)" and ?w2 = "snd (run_state (once cl rc) w)"
  have "on_db (user_keeps uid) w ?w1" by (rule sweep_spares_covered [OF assms(1)])
  moreover have "on_db (user_keeps uid) ?w1 ?w2"
  proof (cases "run_state (sweep_expired rc) w")
    case (Pair r w1)
    then show ?thesis
      using keeps_apply_due_user [of uid cl rc]
      by (cases r) (auto simp: once_def keeps_def on_db_def)
  qed
  ultimately have "user_keeps uid (w_db w) (w_db ?w2)"
    using preorder_user_keeps [of uid] unfolding on_db_def preorder_def by blast
  with assms(2-5) show ?thesis unfolding user_keeps_def by blast
qed

end
