(* ===== verification/ApiWitnesses.thy ===== *)
theory ApiWitnesses
  imports EdgeWitnesses Witnesses ExpiryLaws CheckoutLaws Identifier Tokens
begin

text \<open>
  The conditional properties of billing, payments, identifiers, keys and tokens applied to concrete
  inputs, so that their hypotheses are seen to hold together.
\<close>

section \<open>Prepaid time\<close>

text \<open>The demo user, with a day pass running, buys a week.\<close>

definition weekly_block :: subscription where
  "weekly_block = projr (fst (grant_time_block second 1 ''weekly'' ''paystack'' (demo_db [lon])))"

definition weekly_db :: db where
  "weekly_db = snd (grant_time_block second 1 ''weekly'' ''paystack'' (demo_db [lon]))"

lemma weekly_grant: "grant_time_block second 1 ''weekly'' ''paystack'' (demo_db [lon]) = (Inr weekly_block, weekly_db)"
proof -
  have "\<not> isl (fst (grant_time_block second 1 ''weekly'' ''paystack'' (demo_db [lon])))" by code_simp
  then show ?thesis by (simp add: weekly_block_def weekly_db_def prod_eq_iff)
qed

lemma blocks_stack_witness: "paid_time 1 (demo_db [lon]) \<inter> {sb_starts_at weekly_block ..< sb_expires_at weekly_block} = {}"
  using blocks_stack [OF weekly_grant] by blast

lemma top_up_is_seamless_witness: "{second ..< block_start second 1 weekly_db} \<subseteq> paid_time 1 weekly_db"
proof -
  have "block_start second 1 (demo_db [lon]) = day" by code_simp
  moreover have "demo_block \<in> set (subscriptions (demo_db [lon]))" "sb_user_id demo_block = 1" "sb_revoked_at demo_block = None"
    "sb_starts_at demo_block = 0" "sb_expires_at demo_block = day" "0 < second"
    by code_simp+
  ultimately have "{second ..< block_start second 1 (demo_db [lon])} \<subseteq> paid_time 1 (demo_db [lon])"
    by (auto simp: paid_time_def covered_def list_ex_iff running_def)
  from top_up_is_seamless [OF weekly_grant this] show ?thesis by blast
qed

lemma entitlement_is_best_block_witness:
  "\<exists>b \<in> set (running_blocks second 1 weekly_db). e_plan_code (entitlement_of second 1 weekly_db) = sb_plan_code (fst b)"
proof -
  have "e_active (entitlement_of second 1 weekly_db)" by code_simp
  with entitlement_is_best_block [of second 1 weekly_db] show ?thesis by blast
qed

lemma purchase_does_not_upgrade_now_witness:
  "entitlement_of second 1 weekly_db = entitlement_of second 1 (demo_db [lon])"
proof (rule purchase_does_not_upgrade_now [OF _ weekly_grant])
  show "e_active (entitlement_of second 1 (demo_db [lon]))" by code_simp
qed

lemma paying_user_keeps_peer_witness:
  "\<exists>q \<in> set (peers (w_db (snd (run_state (once fake_client new_reconciler) launched)))).
     p_id q = p_id launched_row \<and> p_public_key q = p_public_key launched_row \<and> wanted q"
  by (rule paying_user_keeps_peer [of launched 1]) code_simp+

section \<open>Payments\<close>

text \<open>The webhook of a checkout, delivered twice, with a verification in between.\<close>

definition demo_deliveries :: "delivery list" where
  "demo_deliveries = [Hook demo_event ''{}'', Check 1 ''pxf_1'' (Inr demo_event), Hook demo_event ''{}'']"

lemma payment_buys_at_most_one_block_witness:
  "\<exists>w'. snd (run_state (for_each demo_deliveries (deliver (\<lambda>_. ''{}''))) checkout_world) = w' \<and>
     length (subscriptions (w_db w')) \<le> 2"
proof -
  obtain u w' where run: "run_state (for_each demo_deliveries (deliver (\<lambda>_. ''{}''))) checkout_world = (u, w')"
    by (cases "run_state (for_each demo_deliveries (deliver (\<lambda>_. ''{}''))) checkout_world")
  have about: "\<And>x. x \<in> set demo_deliveries \<Longrightarrow> about ''pxf_1'' x"
    by (auto simp: demo_deliveries_def demo_event_def)
  have "\<not> paid ''pxf_1'' (w_db checkout_world)" "length (subscriptions (w_db checkout_world)) = 1" by code_simp+
  with payment_buys_at_most_one_block [OF about run] run show ?thesis by simp
qed

lemma underpaid_charge_grants_nothing_witness:
  "\<exists>r w'. run_state (settle_charge (\<lambda>_. ''{}'') (demo_event\<lparr>ev_amount := 69999\<rparr>)) checkout_world = (r, w') \<and>
     w_db w' = w_db checkout_world"
proof -
  let ?ev = "demo_event\<lparr>ev_amount := 69999\<rparr>"
  obtain r w' where run: "run_state (settle_charge (\<lambda>_. ''{}'') ?ev) checkout_world = (r, w')"
    by (cases "run_state (settle_charge (\<lambda>_. ''{}'') ?ev) checkout_world")
  have "find (is_payment ''paystack'' (ev_reference ?ev)) (payments (w_db checkout_world)) = Some demo_payment" by code_simp
  moreover have "ev_amount ?ev < py_amount_kobo demo_payment" by code_simp
  ultimately have "w_db w' = w_db checkout_world \<and> r \<noteq> Inr True"
    by (intro underpaid_charge_grants_nothing [OF _ run]) simp
  with run show ?thesis by blast
qed

lemma signed_charge_becomes_time_witness:
  "\<exists>w'. run_state (webhook (\<lambda>key body. key @ body) (\<lambda>_. Inr demo_event) (\<lambda>_. ''{}'') (new_paystack ''sk'' '''')
     ''{}'' ''sk{}'') checkout_world = (Ok_reply 200 (), w') \<and> paid ''pxf_1'' (w_db w')"
proof -
  let ?pl = "mk_plan ''weekly'' ''Week Pass'' (7 * day) 70000 None 2 False 2"
  have pl: "find (\<lambda>q. pl_code q = pl_code ?pl) (plans (w_db checkout_world)) = Some ?pl" by code_simp
  have "0 < pl_duration ?pl" "pl_code ?pl = ''weekly''" by code_simp+
  moreover have "find (is_payment ''paystack'' (ev_reference demo_event)) (payments (w_db checkout_world)) = Some demo_payment"
    "py_status demo_payment \<noteq> PaySuccess" "py_user_id demo_payment = Some 1" "py_plan_code demo_payment = Some ''weekly''"
    "list_ex (\<lambda>u. u_id u = 1) (users (w_db checkout_world))"
    by code_simp+
  ultimately have pur: "purchase (w_db checkout_world) (ev_reference demo_event) 1 ?pl demo_payment"
    using pl by (simp add: purchase_def)
  have h: "w_faults checkout_world = []" "verify_signature (\<lambda>key body. key @ body) (new_paystack ''sk'' '''') ''{}'' ''sk{}''"
    "ev_event demo_event = ''charge.success''" "ev_reference demo_event \<noteq> []" "webhook_events (w_db checkout_world) = []"
    "py_amount_kobo demo_payment \<le> ev_amount demo_event" "ev_reference demo_event = ''pxf_1''"
    by code_simp+
  then have none: "\<And>r. r \<in> set (webhook_events (w_db checkout_world)) \<Longrightarrow> wh_event_id r \<noteq> event_id demo_event" by simp
  from signed_charge_becomes_time [OF h(1,2) refl h(3,4) none pur h(6), where marshal = "\<lambda>_. ''{}''"] h(7) show ?thesis by auto
qed

section \<open>Identifiers, keys, limits\<close>

lemma identifier_normal_form_witness: "split_identifier ''a@b.ng'' = Inr (''a@b.ng'', [])"
proof -
  have "split_identifier '' A@b.NG '' = Inr (''a@b.ng'', [])" by code_simp
  from identifier_normal_form [OF this] show ?thesis by simp
qed

lemma phone_spellings_agree_witness: "split_identifier ''08031234567'' = split_identifier ''2348031234567''"
proof -
  have "length ''8031234567'' = 10" "\<forall>c \<in> set ''8031234567''. is_digit c" by code_simp+
  from phone_spellings_agree [OF this] show ?thesis by simp
qed

lemma rate_limit_holds_witness:
  "count_list (answers ''ip'' ((0, ''ip'') # [(1, ''ip''), (2, ''other''), (3, ''ip'')]) (new_limiter 2 minute)) True \<le> 2"
proof -
  have "limiter_ok (new_limiter 2 minute)" "1 \<le> rl_limit (new_limiter 2 minute)"
    "map_of (rl_hits (new_limiter 2 minute)) ''ip'' = None" "rl_limit (new_limiter 2 minute) = 2"
    by code_simp+
  moreover have "u - 0 \<le> rl_window (new_limiter 2 minute)" if "(u, k) \<in> set [(1, ''ip''), (2, ''other''), (3, ''ip'')]" for u k
    using that by (auto simp: new_limiter_def minute_def second_def millisecond_def)
  ultimately show ?thesis
    using rate_limit_holds [of "new_limiter 2 minute" "''ip''" 0 "[(1, ''ip''), (2, ''other''), (3, ''ip'')]"] by simp
qed

definition demo_key :: string where
  "demo_key = b64_encode (7 # replicate 31 0)"

lemma validated_keys_are_canonical_witness: "wgkey_validate demo_key = Some demo_key"
proof -
  have "wgkey_validate demo_key = Some demo_key" by code_simp
  from validated_keys_are_canonical [OF this] show ?thesis by blast
qed

section \<open>Tokens\<close>

text \<open>A signer over a toy encoding of claims: text as tagged bytes, numbers in unary.\<close>

fun put_text :: "string \<Rightarrow> int list \<Rightarrow> int list" where
  "put_text [] r = 0 # r"
| "put_text (c # cs) r = 1 # of_char c # put_text cs r"

fun take_text :: "int list \<Rightarrow> string \<times> int list" where
  "take_text (t # n # r) =
     (if t = 1 then (case take_text r of (s, r') \<Rightarrow> (char_of n # s, r')) else ([], n # r))"
| "take_text r = ([], tl r)"

definition put_int :: "int \<Rightarrow> int list \<Rightarrow> int list" where
  "put_int i r = (if i < 0 then 1 else 0) # replicate (nat \<bar>i\<bar>) 1 @ 0 # r"

definition take_int :: "int list \<Rightarrow> int \<times> int list" where
  "take_int r = (let n = length (takeWhile (\<lambda>x. x = 1) (tl r))
     in (if hd r = 1 then - int n else int n, drop (Suc n) (tl r)))"

definition put_claims :: "claims \<Rightarrow> int list" where
  "put_claims c = put_text (cl_subject c) (put_text (cl_device_id c) (put_int (cl_issued_at c) (put_int (cl_expires c) [])))"

definition take_claims :: "int list \<Rightarrow> claims option" where
  "take_claims r = (case take_text r of (s, r1) \<Rightarrow> case take_text r1 of (d, r2) \<Rightarrow>
     case take_int r2 of (i, r3) \<Rightarrow> case take_int r3 of (e, r4) \<Rightarrow>
       Some \<lparr>cl_subject = s, cl_device_id = d, cl_issued_at = i, cl_expires = e\<rparr>)"

definition demo_signer :: signer where
  "demo_signer = \<lparr>sg_mac = (\<lambda>m. map of_char (take 8 (rev m))), sg_ttl = 15 * minute, sg_header = [1, 2, 3],
     sg_alg_of = (\<lambda>h. if h = [1, 2, 3] then Some ''HS256'' else None),
     sg_claims_json = put_claims, sg_claims_of = take_claims\<rparr>"

lemma take_put_text: "take_text (put_text s r) = (s, r)"
proof (induction s)
  case Nil
  show ?case by (cases r) simp_all
qed simp

lemma take_put_int: "take_int (put_int i r) = (i, r)"
  proof -
  have "takeWhile (\<lambda>x. x = 1) (replicate n 1 @ 0 # r) = replicate n (1 :: int)" for n
    by (induction n) simp_all
  then show ?thesis by (simp add: take_int_def put_int_def Let_def)
qed

lemma char_byte: "0 \<le> (of_char c :: int) \<and> (of_char c :: int) < 256"
proof -
  have "(of_char c :: int) mod 256 = of_char c" by simp
  then show ?thesis by (metis pos_mod_bound pos_mod_sign zero_less_numeral)
qed

lemma bytes_put: "bytes (put_text s r) = bytes r" "bytes (put_int i r) = bytes r"
  by (induction s) (auto simp: bytes_def put_int_def char_byte)

lemma signer_ok_demo: "signer_ok demo_signer"
  by (auto simp: signer_ok_def demo_signer_def put_claims_def take_claims_def bytes_put take_put_text take_put_int)
    (auto simp: bytes_def char_byte)

lemma issued_token_verifies_witness:
  "verify demo_signer minute (fst (issue demo_signer 0 ''user-1'' ''dev'')) =
     Inr \<lparr>cl_subject = ''user-1'', cl_device_id = ''dev'', cl_issued_at = 0, cl_expires = 900\<rparr>"
proof -
  have a: "''user-1'' \<noteq> []" "ascii ''user-1''" "ascii ''dev''" "unix minute < unix (0 + sg_ttl demo_signer)"
    "unix 0 = 0" "unix (0 + sg_ttl demo_signer) = 900"
    by code_simp+
  from issued_token_verifies [OF signer_ok_demo a(1-3), of minute 0] a(4-6) show ?thesis by simp
qed

end
