(* ===== verification/SessionWitnesses.thy ===== *)
theory SessionWitnesses
  imports ApiLaws ApiWitnesses
begin

text \<open>The properties of sessions and devices applied to the demo deployment.\<close>

section \<open>Sessions\<close>

text \<open>A signer whose tokens are short; its tokens are not read back here.\<close>

definition short_signer :: signer where
  "short_signer = \<lparr>sg_mac = (\<lambda>m. [1]), sg_ttl = 15 * minute, sg_header = [2], sg_alg_of = (\<lambda>h. Some ''HS256''),
     sg_claims_json = (\<lambda>c. [3]), sg_claims_of = (\<lambda>b. None)\<rparr>"

definition demo_env :: session_env where
  "demo_env = \<lparr>se_signer = short_signer, se_refresh_ttl = 30 * day, se_free_plan = False,
     se_sha = (\<lambda>t. ''#'' @ t), se_bcrypt = (\<lambda>p. Inr ''h''),
     se_compare = (\<lambda>h p. if h = ''h'' \<and> p = ''secret-pw'' then None else Some no_rows),
     se_id_text = (\<lambda>i. if i = 1 then ''user-1'' else ''other'')\<rparr>"

definition demo_server :: "fake api" where
  "demo_server = new_server (demo_world [lon])"

definition logged_in :: "token_response reply \<times> fake api" where
  "logged_in = run_state (handle_login demo_env (Inr [1, 2, 3]) ''A@b.ng'' ''secret-pw'') demo_server"

fun answered :: "'a reply \<Rightarrow> bool" where
  "answered (Ok_reply status x) = True"
| "answered (Fail_reply status c m t) = False"

lemma answered_run: "answered (fst r) \<Longrightarrow> \<exists>status x. r = (Ok_reply status x, snd r)"
  by (cases r; cases "fst r") auto

lemma login_needs_the_password_witness:
  "\<exists>user \<in> set (users (demo_db [lon])). u_status user = UserActive \<and> check_password (se_compare demo_env) (u_password_hash user) ''secret-pw''"
proof -
  have "answered (fst logged_in)" by code_simp
  then obtain status tok where "logged_in = (Ok_reply status tok, snd logged_in)" using answered_run by blast
  from login_needs_the_password [OF this [unfolded logged_in_def]] show ?thesis
    by (auto simp: demo_server_def new_server_def demo_world_def)
qed

definition first_refresh :: "token_response reply \<times> fake api" where
  "first_refresh = run_state (handle_refresh demo_env (Inr [4, 5, 6]) (url_encode [1, 2, 3])) (snd logged_in)"

definition later_on :: "session_request list" where
  "later_on = [Logout ''AAAA'', At minute [], Login (Inr [7, 8, 9]) ''a@b.ng'' ''secret-pw'']"

lemma refresh_token_single_use_witness:
  "reply_status (fst (run_state (handle_refresh demo_env (Inr [10, 11, 12]) (url_encode [1, 2, 3]))
     (snd (run_state (for_each later_on (serve demo_env)) (snd first_refresh))))) \<noteq> 200"
proof -
  have "answered (fst first_refresh)" by code_simp
  then obtain status x where ok: "first_refresh = (Ok_reply status x, snd first_refresh)" using answered_run by blast
  have "distinct (map t_hash (refresh_tokens (w_db (ap_world (snd logged_in)))))" by code_simp
  moreover have "run_state (handle_refresh demo_env (Inr [4, 5, 6]) (url_encode [1, 2, 3])) (snd logged_in) =
      (Ok_reply status x, snd first_refresh)"
    using ok unfolding first_refresh_def .
  ultimately show ?thesis by (rule refresh_token_single_use) (rule prod.collapse [symmetric])
qed

section \<open>Devices\<close>

definition read_id :: "string \<Rightarrow> uuid option" where
  "read_id s = (if s = ''dev-2'' then Some 2 else if s = ''dev-3'' then Some 3 else None)"

lemma foreign_device_untouchable_witness:
  "fst (run_state (handle_delete_device read_id 7 ''dev-2'') (demo_world [lon])) = device_not_found"
proof -
  have "foreign read_id 7 ''dev-2'' (w_db (demo_world [lon]))" by code_simp
  from foreign_device_untouchable [OF this] show ?thesis by (metis fst_conv)
qed

definition deleted_world :: "unit reply \<times> fake world" where
  "deleted_world = run_state (handle_delete_device read_id 1 ''dev-2'') (launch (demo_world [lon]))"


end
