(* ===== verification/SystemWitnesses.thy ===== *)
theory SystemWitnesses
  imports OwnRows PaidTime Interleaving Startup Migrate Middleware Transactions AgentMain SessionWitnesses
begin

text \<open>
  The properties of the whole system applied to one deployment, from the migrated database through the
  routes: an operator registers a box, two people sign up, one of them gets a day pass and connects.
\<close>

section \<open>A deployment\<close>

text \<open>Tokens that carry the user's id only and do not end within the story.\<close>

definition story_signer :: signer where
  "story_signer = \<lparr>sg_mac = (\<lambda>m. [1]), sg_ttl = 15 * minute, sg_header = [2], sg_alg_of = (\<lambda>h. Some ''HS256''),
     sg_claims_json = (\<lambda>c. map of_char (cl_subject c)),
     sg_claims_of = (\<lambda>b. Some \<lparr>cl_subject = map char_of b, cl_device_id = [], cl_issued_at = 0, cl_expires = 10 ^ 9\<rparr>)\<rparr>"

definition id_names :: "(uuid \<times> string) list" where
  "id_names = [(0, ''a''), (1, ''b''), (2, ''c''), (3, ''d''), (4, ''e''), (5, ''f''), (6, ''g''), (7, ''h''), (8, ''i'')]"

definition id_text :: "uuid \<Rightarrow> string" where
  "id_text i = (case map_of id_names i of None \<Rightarrow> [] | Some s \<Rightarrow> s)"

definition id_of_text :: "string \<Rightarrow> uuid option" where
  "id_of_text s = map_option fst (find (\<lambda>(i, t). t = s) id_names)"

text \<open>Each body of the story is one word.\<close>

definition story_decoders :: decoders where
  "story_decoders = \<lparr>
     dj_credentials = (\<lambda>s. if s = ''ada'' then Some (''ada@b.ng'', ''secret-pw'') else if s = ''bob'' then Some (''bob@b.ng'', ''secret-pw'') else None),
     dj_refresh = (\<lambda>s. None),
     dj_register = (\<lambda>s. if s = ''phone'' then Some ([], [], demo_key, []) else None),
     dj_rotate = (\<lambda>s. None),
     dj_provision = (\<lambda>s. if s = ''connect'' then Some (''f'', []) else None),
     dj_release = (\<lambda>s. Some s),
     dj_initialize = (\<lambda>s. Some (s, [])),
     dj_verify = (\<lambda>s. Some s),
     dj_upsert_server = (\<lambda>s. if s = ''box'' then Some \<lparr>us_code = ''uk-lon-1'', us_display_name = ''London'', us_country_code = ''GB'',
        us_region = ''eu'', us_endpoint_host = ''host'', us_endpoint_port = 51820, us_public_key = demo_key, us_obfuscation = [],
        us_tunnel_subnet = ''subnet'', us_agent_url = ''https://agent'', us_agent_token = ''tok'', us_status = ''active'',
        us_capacity_peers = 500, us_priority = 10\<rparr> else None),
     dj_server_status = (\<lambda>s. Some s),
     dj_grant = (\<lambda>s. if s = ''ada'' then Some (''ada@b.ng'', ''daily'') else None)\<rparr>"

text \<open>Paystack's event for the checkout of the story.\<close>

definition day_charge :: paystack_event where
  "day_charge = \<lparr>ev_event = ''charge.success'', ev_id = 7, ev_reference = ''pxf_CQ'', ev_status = ''success'', ev_amount = 20000,
     ev_metadata = \<lparr>md_user_id = None, md_plan_code = []\<rparr>\<rparr>"

definition story :: "fake server_env" where
  "story = \<lparr>sv_session = \<lparr>se_signer = story_signer, se_refresh_ttl = 30 * day, se_free_plan = False,
       se_sha = (\<lambda>t. ''#'' @ t), se_bcrypt = (\<lambda>p. Inr ''h''), se_compare = (\<lambda>h p. None), se_id_text = id_text\<rparr>,
     sv_edge = fake_client, sv_admin_token = ''root'', sv_parse_id = id_of_text,
     sv_parse_cidr = (\<lambda>s. Some (Cidr4 0x0A4D0000 16)), sv_decode = story_decoders,
     sv_paystack = new_paystack ''sk'' [], sv_mac = (\<lambda>k m. m),
     sv_unmarshal = (\<lambda>b. if b = ''charge'' then Inr day_charge else Inl no_rows), sv_marshal = (\<lambda>ev. []), sv_verify = (\<lambda>ref. Inl no_rows),
     sv_initialize = (\<lambda>p. Inr \<lparr>co_authorization_url = ''url'', co_access_code = ''code'', co_reference = cp_reference p\<rparr>)\<rparr>"

definition ask :: "string \<Rightarrow> string list \<Rightarrow> string \<Rightarrow> string \<Rightarrow> client_request" where
  "ask meth path auth body = \<lparr>cq_method = meth, cq_path = path, cq_authorization = auth, cq_country = [],
     cq_signature = [], cq_device_id = [], cq_body = body\<rparr>"

definition token_of :: "uuid \<Rightarrow> string" where
  "token_of i = ''Bearer '' @ fst (issue story_signer 0 (id_text i) [])"

definition requests :: "(client_request \<times> int list) list \<Rightarrow> fake event list" where
  "requests = map (\<lambda>(rq, random). Request rq (Inr random))"

definition accounts_opened :: "fake event list" where
  "accounts_opened = requests
    [(ask ''POST'' [''v1'', ''admin'', ''servers''] ''Bearer root'' ''box'', []),
     (ask ''POST'' [''v1'', ''auth'', ''signup''] [] ''ada'', [1]),
     (ask ''POST'' [''v1'', ''auth'', ''signup''] [] ''bob'', [2])]"

definition ada_connects :: "fake event list" where
  "ada_connects = requests
    [(ask ''POST'' [''v1'', ''devices''] (token_of 1) ''phone'', []),
     (ask ''POST'' [''v1'', ''admin'', ''grant''] ''Bearer root'' ''ada'', []),
     (ask ''POST'' [''v1'', ''tunnel'', ''provision''] (token_of 1) ''connect'', [])]"

definition sunrise :: "fake system" where
  "sunrise = start_system \<lparr>w_db = migrated_db, w_edge = new_fake, w_now = second, w_faults = [], w_draws = []\<rparr>"

definition noon :: "fake system" where
  "noon = snd (run_state (for_each accounts_opened (happen story)) sunrise)"

definition evening :: "fake system" where
  "evening = snd (run_state (for_each ada_connects (happen story)) noon)"

text \<open>The two systems written out, from which what follows is evaluated.\<close>

definition at_noon :: "db \<Rightarrow> fake \<Rightarrow> fake system" where
  "at_noon d boxes = sunrise\<lparr>sy_api := (sy_api sunrise)\<lparr>
     ap_world := (ap_world (sy_api sunrise))\<lparr>w_db := d, w_edge := boxes\<rparr>,
     ap_signup := (ap_signup (sy_api sunrise))\<lparr>rl_hits :=
       [(''ada@b.ng'', \<lparr>wn_count = 1, wn_start = second\<rparr>), (''bob@b.ng'', \<lparr>wn_count = 1, wn_start = second\<rparr>)]\<rparr>\<rparr>\<rparr>"

definition noon_db :: db where
  "noon_db = migrated_db\<lparr>
     users := [\<lparr>u_id = 1, u_email = Some ''ada@b.ng'', u_phone = None, u_password_hash = ''h'', u_status = UserActive, u_created_at = second\<rparr>,
       \<lparr>u_id = 3, u_email = Some ''bob@b.ng'', u_phone = None, u_password_hash = ''h'', u_status = UserActive, u_created_at = second\<rparr>],
     refresh_tokens := [\<lparr>t_id = 2, t_user_id = 1, t_device_id = None, t_hash = ''#AQ'', t_expires_at = 30 * day + second, t_revoked_at = None\<rparr>,
       \<lparr>t_id = 4, t_user_id = 3, t_device_id = None, t_hash = ''#Ag'', t_expires_at = 30 * day + second, t_revoked_at = None\<rparr>],
     servers := [\<lparr>s_id = 0, s_code = ''uk-lon-1'', s_display_name = ''London'', s_country_code = ''GB'', s_region = ''eu'',
       s_endpoint_host = ''host'', s_endpoint_port = 51820, s_public_key = demo_key, s_obfuscation = [],
       s_tunnel_subnet = Cidr4 0x0A4D0000 16, s_agent_url = ''https://agent'', s_agent_token = ''tok'', s_status = ServerActive,
       s_capacity_peers = 500, s_priority = 10, s_last_seen_at = None\<rparr>],
     next_id := 5\<rparr>"

definition evening_db :: db where
  "evening_db = noon_db\<lparr>
     devices := [\<lparr>d_id = 5, d_user_id = 1, d_name = ''Android device'', d_platform = ''android'', d_public_key = demo_key,
       d_app_version = None, d_created_at = second, d_last_seen_at = Some second, d_revoked_at = None\<rparr>],
     subscriptions := [\<lparr>sb_id = 6, sb_user_id = 1, sb_plan_code = ''daily'', sb_source = ''manual'', sb_starts_at = second,
       sb_expires_at = day + second, sb_data_cap_bytes = None, sb_revoked_at = None\<rparr>],
     peers := [\<lparr>p_id = 7, p_device_id = 5, p_server_id = 0, p_public_key = demo_key, p_prev_public_key = None,
       p_tunnel_ip = 0x0A4D0002, p_state = PeerActive, p_revision = 1, p_applied_revision = 1, p_attempts = 0, p_last_error = None,
       p_next_attempt_at = second, p_created_at = second, p_activated_at = Some second, p_revoked_at = None\<rparr>],
     next_id := 8\<rparr>"

lemma noon_code [code]: "noon = at_noon noon_db new_fake"
  by code_simp

lemma evening_code [code]:
  "evening = at_noon evening_db (new_fake\<lparr>fk_peers := [(''uk-lon-1'', [(demo_key, 1)])], fk_calls := [''apply:uk-lon-1:'' @ demo_key]\<rparr>)"
  by code_simp

lemma evening_reachable: "reachable story evening"
  unfolding evening_def noon_def sunrise_def by (intro reachable_events reachable.start) simp

section \<open>The properties\<close>


text \<open>Ada's device is deleted while a slow worker still confirms its peer.\<close>

definition crossing :: db where
  "crossing = snd (mark_applied second 7 1 (snd (revoke_device second 5 (sy_db evening))))"


text \<open>Ada buys another day: a checkout, Paystack's webhook twice, and the work in the background.\<close>

definition night :: "fake system" where
  "night = snd (run_state (for_each
     (requests [(ask ''POST'' [''v1'', ''payments'', ''initialize''] (token_of 1) ''daily'', [9]),
        ((ask ''POST'' [''v1'', ''webhooks'', ''paystack''] [] ''charge'')\<lparr>cq_signature := ''charge''\<rparr>, []),
        ((ask ''POST'' [''v1'', ''webhooks'', ''paystack''] [] ''charge'')\<lparr>cq_signature := ''charge''\<rparr>, [])] @ [Background 1, Background 0])
     (happen story)) evening)"

lemma paid_time_is_paid_for_witness:
  "bought 1 ''daily'' (sy_db night) = 1 \<and> bought 1 ''daily'' (sy_db night) \<le> paid 1 ''daily'' (sy_db night)"
proof -
  have "reachable story night" unfolding night_def by (intro reachable_events evening_reachable)
  moreover have "bought 1 ''daily'' (sy_db night) = 1" by code_simp
  ultimately show ?thesis using paid_time_is_paid_for by blast
qed

lemma guarded_routes_witness:
  "reply_status (fst (run_state (serve_http story (Inr []) (ask ''GET'' [''v1'', ''me''] ''Bearer x'' [])) evening)) \<in> {401, 404}"
proof -
  let ?rq = "ask ''GET'' [''v1'', ''me''] ''Bearer x'' []"
  have r: "find_route (cq_method ?rq) (cq_path ?rq) = Inr (User, Me, [])" by code_simp
  have o: "Me \<notin> set open_endpoints" by code_simp
  have "verify (se_signer (sv_session story)) (w_now (ap_world (sy_api evening))) (bearer_token (cq_authorization ?rq)) = Inl InvalidToken"
    by code_simp
  then have t: "\<not> has_token story (w_now (ap_world (sy_api evening))) ?rq" by (simp add: has_token_def)
  have a: "\<not> has_admin_token story ?rq" by code_simp
  from guarded_routes [OF r o t a, of "Inr []"] show ?thesis by force
qed

text \<open>Bob asks for the release of Ada's device.\<close>

definition bob_releases :: client_request where
  "bob_releases = ask ''POST'' [''v1'', ''tunnel'', ''release''] (token_of 3) ''f''"

lemma requests_touch_own_rows_only_witness:
  "others_view 3 (sy_db (snd (run_state (serve_http story (Inr []) bob_releases) evening))) = others_view 3 (sy_db evening)"
proof -
  have r: "find_route (cq_method bob_releases) (cq_path bob_releases) = Inr (User, Release, [])" by code_simp
  have t: "verify (se_signer (sv_session story)) (w_now (ap_world (sy_api evening))) (bearer_token (cq_authorization bob_releases)) =
      Inr \<lparr>cl_subject = ''d'', cl_device_id = [], cl_issued_at = 0, cl_expires = 10 ^ 9\<rparr>" by code_simp
  have i: "sv_parse_id story ''d'' = Some 3" by code_simp
  have v: "sv_verify story ref = Inr ev \<Longrightarrow> ev_reference ev = ref" for ref ev by (simp add: story_def)
  show ?thesis by (rule requests_touch_own_rows_only [OF evening_reachable r t _ v]) (simp add: i)
qed

text \<open>The commit of a first assignment loses its acknowledgement.\<close>

definition first_assignment :: "time \<Rightarrow> db \<Rightarrow> (goerr + peer_assignment) \<times> db" where
  "first_assignment now = ensure_assignment now 2 10 ''keyA''"


section \<open>A rotated key changes hands\<close>

text \<open>
  Ada's device takes a new key. Until it connects again its assignment carries the old one, which is free
  for Bob to register; then two accounts hold wanted rows under one key on one box.
\<close>

definition rotated_away :: db where
  "rotated_away = snd (upsert_device second 3 ''x'' ''android'' demo_key [] (snd (rotate_device_key 5 ''new-key'' (sy_db evening))))"

lemma rotated_key_is_up_for_grabs:
  "map (\<lambda>p. (p_device_id p, p_server_id p, p_public_key p, wanted p)) (peers (snd (ensure_assignment second 8 0 demo_key rotated_away))) =
     [(5, 0, demo_key, True), (8, 0, demo_key, True)]"
  by code_simp

section \<open>Before the system runs\<close>

text \<open>A second migration after the first file, and a database that loses the acknowledgement of its commit.\<close>

definition sql_files :: "dir_entry list" where
  "sql_files = [\<lparr>de_name = ''0002_more.sql'', de_is_dir = False, de_body = ''b''\<rparr>,
     \<lparr>de_name = ''README.md'', de_is_dir = False, de_body = ''r''\<rparr>,
     \<lparr>de_name = ''0001_init.sql'', de_is_dir = False, de_body = ''a''\<rparr>]"

definition half_migrated :: "string migration_db" where
  "half_migrated = \<lparr>mg_schema = ''a'', mg_versions = [''0001_init.sql''], mg_faults = [Fine, Fine, Fine, Unacked]\<rparr>"

definition run_sql :: "string \<Rightarrow> string \<Rightarrow> goerr + string" where
  "run_sql raw d = Inr (d @ raw)"

lemma migrations_apply_once_witness:
  "mg_schema (snd (run_state (migrate run_sql sql_files) half_migrated)) = ''ab'' \<and>
   (\<exists>k \<ge> 1. migrated_to run_sql (migration_files sql_files) [] k (snd (run_state (migrate run_sql sql_files) half_migrated)))"
proof -
  have f: "migration_files sql_files = [(''0001_init.sql'', ''a''), (''0002_more.sql'', ''b'')]" by code_simp
  have d: "distinct (map fst (migration_files sql_files))" unfolding f by simp
  have m: "migrated_to run_sql (migration_files sql_files) [] 1 half_migrated"
    unfolding f by (simp add: migrated_to_def half_migrated_def run_sql_def)
  have "mg_schema (snd (run_state (migrate run_sql sql_files) half_migrated)) = ''ab''" by code_simp
  with migrations_apply_once [OF d m prod.collapse [symmetric]] show ?thesis by blast
qed

definition demo_outside :: "fake outside" where
  "demo_outside = \<lparr>ou_hmac = (\<lambda>k m. [1]), ou_header = [2], ou_alg_of = (\<lambda>h. Some ''HS256''), ou_claims_json = (\<lambda>c. [3]),
     ou_claims_of = (\<lambda>b. None), ou_sha = (\<lambda>t. t), ou_bcrypt = (\<lambda>p. Inr ''h''), ou_compare = (\<lambda>h p. None), ou_id_text = id_text,
     ou_parse_id = id_of_text, ou_parse_cidr = (\<lambda>s. None), ou_decode = story_decoders, ou_hmac512 = (\<lambda>k m. m),
     ou_unmarshal = (\<lambda>b. Inl no_rows), ou_marshal = (\<lambda>ev. []), ou_bad_url = (\<lambda>u. None), ou_http = (\<lambda>r. Inl no_rows),
     ou_checkout_of = (\<lambda>b. Inl no_rows), ou_verify_of = (\<lambda>b. Inl no_rows), ou_charge_of = (\<lambda>b ev. Inl no_rows),
     ou_transport = (\<lambda>timeout. \<lparr>tr_bad_url = (\<lambda>u. None), tr_send = (\<lambda>rq boxes. (Inl no_rows, boxes))\<rparr>), ou_parse_dsn = (\<lambda>dsn. None),
     ou_connect = (\<lambda>dsn. Inr (ap_world (sy_api sunrise))), ou_ping = (\<lambda>dsn. None)\<rparr>"

definition production_env :: environment where
  "production_env k = (if k = ''PROXIFY_ENV'' then ''production'' else if k = ''PROXIFY_JWT_SECRET'' then replicate 32 (CHR ''s'')
     else if k = ''PAYSTACK_SECRET_KEY'' then ''sk_live'' else [])"

lemma production_start_witness:
  "\<exists>env s. start_api demo_outside production_env = Inr (env, s) \<and> pc_webhook_key (sv_paystack env) \<noteq> [] \<and> reachable env s"
proof -
  have "\<not> isl (start_api demo_outside production_env)" by code_simp
  then obtain env s where ok: "start_api demo_outside production_env = Inr (env, s)" by (cases "start_api demo_outside production_env") auto
  have "env_text production_env ''PROXIFY_ENV'' ''dev'' \<noteq> ''dev''" by code_simp
  from production_start [OF ok this] have "pc_webhook_key (sv_paystack env) \<noteq> []"
    "\<exists>dsn w. ou_connect demo_outside dsn = Inr w \<and> (w_db w = migrated_db \<longrightarrow> reachable env s)" by blast+
  then have "reachable env s" by (auto simp: demo_outside_def sunrise_def start_system_def new_server_def)
  with ok \<open>pc_webhook_key (sv_paystack env) \<noteq> []\<close> show ?thesis by blast
qed

end
