(* ===== verification/Spec2Isabelle.thy ===== *)
theory Spec2Isabelle
  imports SystemWitnesses
begin

text \<open>
  A model of the Proxify VPN backend, the Go code under \<open>src/server\<close> and \<open>src/edge\<close>, and the theorems
  that make it correct.

  \<^bold>\<open>The program.\<close> A control plane (\<open>server/cmd/api\<close>) keeps accounts, devices, prepaid time and the wanted
  peers of a fleet of WireGuard boxes in PostgreSQL. Request handlers write the wanted state and try to
  apply it at once; a reconciler drives whatever is left onto the boxes, takes lapsed users off them and
  refills boxes that were rebuilt. Each box runs an agent (\<open>edge/cmd/edge-agent\<close>) that changes the peers
  of one interface through the programs \<open>wg\<close> and \<open>wg-quick\<close>. Time is bought through Paystack, by a
  checkout and a webhook or a verification call.

  \<^bold>\<open>Ground.\<close> \<open>Prelude\<close>: strings, tables as lists, the calculus \<open>keeps\<close> for the state monad. \<open>Model\<close>:
  \<open>model.go\<close>, errors, the tables of \<open>0001_init.sql\<close>. \<open>Addresses\<close>, \<open>Base64\<close>, \<open>UrlBase64\<close>: the library
  functions the code leans on, and \<open>wgkey.go\<close>.

  \<^bold>\<open>Store\<close> (\<open>internal/store\<close>). \<open>Peers\<close> (\<open>peers.go\<close>), \<open>Accounts\<close> (\<open>users.go\<close>, \<open>devices.go\<close>, \<open>servers.go\<close>),
  \<open>Billing\<close> (\<open>subscriptions.go\<close>, \<open>payments.go\<close>): one function per statement or transaction on the record
  \<open>db\<close>, its constraints as failing branches. \<open>Store\<close>: the world of a computation, and \<open>db_call\<close>, by
  which any call may fail before it happens or after its commit. \<open>Transactions\<close>: \<open>InTx\<close>, and that it
  does no more than such a call. \<open>Migrate\<close>: the migration command. \<open>PeerLaws\<close>, \<open>BillingLaws\<close>: address
  allocation, revisions, how blocks stack, who has lapsed.

  \<^bold>\<open>Engine\<close> (\<open>internal/provision\<close>). \<open>Backoff\<close>, \<open>Selector\<close>, \<open>Provision\<close>, \<open>Reconciler\<close>: whole files; the batch
  of a pass is processed in order, and \<open>pool_step\<close> is the concurrent pool with every interleaving of
  workers and handlers (\<open>Pool\<close>). \<open>ProvisionLaws\<close>, \<open>ReconcilerLaws\<close>, \<open>ExpiryLaws\<close>: what a request promises,
  that a pass settles its batch, that lapsed users leave and paying ones stay.

  \<^bold>\<open>Edge.\<close> \<open>Edge\<close>: the client interface, its contract as the locale \<open>edge_contract\<close> and the fake that meets
  it. \<open>HttpClient\<close> (\<open>httpclient.go\<close>), \<open>Agent\<close> and \<open>AgentMain\<close> (\<open>edge/internal/agent\<close>, the command), \<open>Wg\<close>
  (\<open>edge/internal/wg\<close>). \<open>WgLaws\<close>, \<open>WgSync\<close>: rotation and synchronisation when programs fail in between.
  \<open>EdgeRefinement\<close>, \<open>EdgeErrors\<close>: client, agents and driver together answer as the fake does, and what
  an error lets the control plane conclude.

  \<^bold>\<open>API\<close> (\<open>internal/api\<close>, \<open>auth\<close>, \<open>payments/paystack\<close>). \<open>Identifier\<close>, \<open>Tokens\<close>, \<open>Paystack\<close>, \<open>Respond\<close>; the
  handlers in \<open>Checkout\<close>, \<open>Sessions\<close>, \<open>Api\<close>, \<open>Admin\<close>; \<open>Router\<close> (\<open>api.go\<close>) puts them behind their routes and
  credentials, \<open>Middleware\<close> is the recorder, the request log and the recovery around them. \<open>CheckoutLaws\<close>,
  \<open>SessionLaws\<close>, \<open>ApiLaws\<close>: a payment buys one block, a refresh token works once, devices have owners.

  \<^bold>\<open>The whole.\<close> \<open>Config\<close> and \<open>Startup\<close>: from the environment to a process. \<open>System\<close>: its events (requests,
  background jobs, passes, sweeps, restarts, and whatever the environment does) and the states they
  reach. The locales of \<open>StoreRelation\<close> lift what every operation of the store keeps to every event;
  interpreted in \<open>Consistency\<close> on accounts, fleet, billing and the peer table they give the invariant of the
  database (frame lemmas in \<open>Frames\<close>), interpreted in \<open>PaidTime\<close> that time for money is backed by settled
  payments. \<open>Interleaving\<close>: every event is a sequence of store operations, and any order of the operations
  of concurrent requests and processes keeps the invariant. \<open>Isolation\<close> and \<open>OwnRows\<close> follow the handlers of a user through the triples of \<open>Triples\<close> and
  show that they leave everybody else's rows alone.

  \<^bold>\<open>Witnesses.\<close> \<open>Fixtures\<close>, \<open>Witnesses\<close>, \<open>EdgeWitnesses\<close>, \<open>ApiWitnesses\<close>, \<open>SessionWitnesses\<close> and
  \<open>SystemWitnesses\<close> apply each conditional property to a concrete deployment; the last starts from the
  migrated database and goes through the routes.

  \<^bold>\<open>Bounds.\<close> There is no fuel: every loop of the model ends by its own measure. Bounds are those of the
  code: two inline attempts, batches of 100 and 200 rows, eight workers, bodies of \<open>2 ^ 20\<close> bytes, ten
  logins a minute and five signups in ten. Addresses are words of 32 bits. Identifiers, instants and
  amounts are unbounded numbers, the durations read from the environment are kept within 64 bits.

  \<^bold>\<open>Parameters.\<close> HMAC, SHA-256, bcrypt and the random source, the JSON decoders of requests and of
  Paystack's answers, the transport, the WireGuard programs, the file system of a box, the order in which
  Go walks a map, the environment variables, and the failures of the database. What a theorem relies on
  is a hypothesis of it: that \<open>wg\<close> does what its manual says (\<open>tools_ok\<close>), that JSON is read back as
  written (\<open>signer_ok\<close>), that Paystack answers about the payment it was asked for.

  \<^bold>\<open>Not modelled.\<close> Log lines other than the request log, the text of JSON bodies, TLS, listening, signals,
  shutdown and timeouts of the two processes; statements inside one transaction or one store call do not
  interleave, and what a single request achieves is proved for runs without others in between, but for
  the pool, the invariant of the database and the rate limiter; IPv6 and text outside the ASCII range where Go's
  Unicode tables would be needed; \<open>testsupport\<close>, the Android app, scripts and deployment files.
\<close>

end
